(* ===== verification/Relay_Prelude.thy ===== *)
theory Relay_Prelude
  imports Main "HOL-Library.Multiset" "HOL-Library.Sublist"
begin

text \<open>
  Shared vocabulary of the development: the parts of Go's language and standard library the relay
  uses (byte strings and the functions of package \<^verbatim>\<open>strings\<close>, 64-bit integer wrap-around, times
  and durations), the theorem collections, and the generic list lemmas the component theories
  share.

  A Go string is a sequence of bytes, so it is modelled by \<^typ>\<open>string\<close> with one \<^typ>\<open>char\<close> per
  byte, and \<^verbatim>\<open>len\<close> is \<^const>\<open>length\<close>.  A \<^verbatim>\<open>time.Time\<close> in UTC is the number of nanoseconds since the
  Unix epoch and a \<^verbatim>\<open>time.Duration\<close> a number of nanoseconds.
\<close>

section \<open>Theorem collections\<close>

named_theorems row_set_defs \<open>the SET clauses of the UPDATE statements on the jobs table\<close>
named_theorems row_guard_defs \<open>the WHERE clauses of the statements on the jobs table\<close>
named_theorems frame_simps \<open>what an operation leaves unchanged\<close>

section \<open>Times, durations, machine integers\<close>

type_synonym go_time = int
type_synonym duration = int

abbreviation second :: duration where "second \<equiv> 1000000000"
abbreviation millisecond :: duration where "millisecond \<equiv> 1000000"
abbreviation minute :: duration where "minute \<equiv> 60 * second"
abbreviation hour :: duration where "hour \<equiv> 3600 * second"

text \<open>\<^verbatim>\<open>t.Unix()\<close>: whole seconds since the epoch, rounded down.\<close>

definition unix_seconds :: "go_time \<Rightarrow> int" where
  "unix_seconds t = t div second"

text \<open>Two's complement wrap-around of Go's \<^verbatim>\<open>int64\<close> (and of \<^verbatim>\<open>int\<close> on 64-bit platforms).\<close>

definition wrap64 :: "int \<Rightarrow> int" where
  "wrap64 x = (x + 2 ^ 63) mod 2 ^ 64 - 2 ^ 63"

definition in_int64 :: "int \<Rightarrow> bool" where
  "in_int64 x \<longleftrightarrow> - (2 ^ 63) \<le> x \<and> x < 2 ^ 63"

lemma wrap64_id: "in_int64 x \<Longrightarrow> wrap64 x = x"
  by (simp add: wrap64_def in_int64_def)

lemma wrap64_range: "in_int64 (wrap64 x)"
proof -
  have "0 \<le> (x + 2 ^ 63) mod (2 ^ 64)" and "(x + 2 ^ 63) mod (2 ^ 64) < (2 ^ 64 :: int)"
    by simp_all
  then show ?thesis
    by (simp add: wrap64_def in_int64_def)
qed

section \<open>Package strings\<close>

subsection \<open>Prefixes and suffixes\<close>

definition HasPrefix :: "string \<Rightarrow> string \<Rightarrow> bool" where
  "HasPrefix s p \<longleftrightarrow> take (length p) s = p"

definition TrimPrefix :: "string \<Rightarrow> string \<Rightarrow> string" where
  "TrimPrefix s p = (if HasPrefix s p then drop (length p) s else s)"

definition TrimSuffix :: "string \<Rightarrow> string \<Rightarrow> string" where
  "TrimSuffix s p = rev (TrimPrefix (rev s) (rev p))"

lemma HasPrefix_append [simp]: "HasPrefix (p @ s) p"
  by (simp add: HasPrefix_def)

lemma HasPrefix_iff: "HasPrefix s p \<longleftrightarrow> (\<exists>t. s = p @ t)"
  unfolding HasPrefix_def by (metis append_take_drop_id append_eq_conv_conj)

lemma HasPrefix_mono: "HasPrefix t p \<Longrightarrow> HasPrefix (t @ u) p"
  by (auto simp: HasPrefix_iff)

lemma TrimPrefix_append [simp]: "TrimPrefix (p @ s) p = s"
  by (simp add: TrimPrefix_def)

lemma TrimSuffix_append [simp]: "TrimSuffix (s @ p) p = s"
  by (simp add: TrimSuffix_def)

subsection \<open>White space: TrimSpace and Fields\<close>

text \<open>
  \<^verbatim>\<open>unicode.IsSpace\<close> as the UTF-8 encodings of its runes.  No encoding starts with a continuation
  byte, so matching encodings byte by byte finds the same white space as decoding runes does,
  on strings that are not valid UTF-8 too.
\<close>

definition space_encodings :: "string list" where
  "space_encodings =
     [[CHR 0x20], [CHR 0x09], [CHR 0x0A], [CHR 0x0B], [CHR 0x0C], [CHR 0x0D],
      [CHR 0xC2, CHR 0x85], [CHR 0xC2, CHR 0xA0], [CHR 0xE1, CHR 0x9A, CHR 0x80],
      [CHR 0xE2, CHR 0x80, CHR 0x80], [CHR 0xE2, CHR 0x80, CHR 0x81],
      [CHR 0xE2, CHR 0x80, CHR 0x82], [CHR 0xE2, CHR 0x80, CHR 0x83],
      [CHR 0xE2, CHR 0x80, CHR 0x84], [CHR 0xE2, CHR 0x80, CHR 0x85],
      [CHR 0xE2, CHR 0x80, CHR 0x86], [CHR 0xE2, CHR 0x80, CHR 0x87],
      [CHR 0xE2, CHR 0x80, CHR 0x88], [CHR 0xE2, CHR 0x80, CHR 0x89],
      [CHR 0xE2, CHR 0x80, CHR 0x8A], [CHR 0xE2, CHR 0x80, CHR 0xA8],
      [CHR 0xE2, CHR 0x80, CHR 0xA9], [CHR 0xE2, CHR 0x80, CHR 0xAF],
      [CHR 0xE2, CHR 0x81, CHR 0x9F], [CHR 0xE3, CHR 0x80, CHR 0x80]]"

fun strip_first :: "string list \<Rightarrow> string \<Rightarrow> string option" where
  "strip_first [] s = None"
| "strip_first (e # es) s =
     (if HasPrefix s e then Some (drop (length e) s) else strip_first es s)"

function trim_with :: "string list \<Rightarrow> string \<Rightarrow> string" where
  "trim_with es s =
     (case strip_first es s of
        None \<Rightarrow> s
      | Some t \<Rightarrow> if length t < length s then trim_with es t else s)"
  by pat_completeness auto
termination
  by (relation "measure (\<lambda>(es, s). length s)") auto

declare trim_with.simps [simp del]

definition TrimSpace :: "string \<Rightarrow> string" where
  "TrimSpace s = rev (trim_with (map rev space_encodings) (rev (trim_with space_encodings s)))"

lemma strip_first_None: "strip_first es s = None \<longleftrightarrow> (\<forall>e \<in> set es. \<not> HasPrefix s e)"
  by (induction es) auto

lemma strip_first_Some:
  "strip_first es s = Some t \<Longrightarrow> \<exists>e \<in> set es. s = e @ t"
  by (induction es) (auto simp: HasPrefix_iff split: if_splits)

lemma trim_with_suffix: "\<exists>u. s = u @ trim_with es s"
proof (induction es s rule: trim_with.induct)
  case (1 es s)
  show ?case
  proof (cases "strip_first es s")
    case None
    then show ?thesis by (simp add: trim_with.simps [of es s])
  next
    case (Some t)
    then obtain e where e: "s = e @ t" by (blast dest: strip_first_Some)
    show ?thesis
    proof (cases "length t < length s")
      case True
      with 1 Some obtain u where "t = u @ trim_with es t" by blast
      with e have "s = (e @ u) @ trim_with es t" by simp
      moreover from Some True have "trim_with es s = trim_with es t"
        by (simp add: trim_with.simps [of es s])
      ultimately show ?thesis by metis
    next
      case False
      with Some show ?thesis by (simp add: trim_with.simps [of es s])
    qed
  qed
qed

lemma trim_with_clean:
  assumes "[] \<notin> set es"
  shows "strip_first es (trim_with es s) = None"
  using assms
proof (induction es s rule: trim_with.induct)
  case (1 es s)
  show ?case
  proof (cases "strip_first es s")
    case None
    then show ?thesis by (simp add: trim_with.simps [of es s])
  next
    case (Some t)
    then obtain e where "e \<in> set es" "s = e @ t" by (blast dest: strip_first_Some)
    with \<open>[] \<notin> set es\<close> have "length t < length s" by (cases e) auto
    with Some 1 show ?thesis by (simp add: trim_with.simps [of es s])
  qed
qed

lemma trim_with_id: "strip_first es s = None \<Longrightarrow> trim_with es s = s"
  by (simp add: trim_with.simps)

lemma space_encodings_nonempty: "[] \<notin> set space_encodings" "[] \<notin> set (map rev space_encodings)"
  by (simp_all add: space_encodings_def)

lemma TrimSpace_infix: "\<exists>u v. s = u @ TrimSpace s @ v"
proof -
  let ?l = "trim_with space_encodings s"
  obtain u where u: "s = u @ ?l" using trim_with_suffix by blast
  obtain v where "rev ?l = v @ trim_with (map rev space_encodings) (rev ?l)"
    using trim_with_suffix by blast
  then have "rev (rev ?l) = TrimSpace s @ rev v"
    unfolding TrimSpace_def by (metis rev_append)
  then have "?l = TrimSpace s @ rev v" by (simp only: rev_rev_ident)
  with u show ?thesis by metis
qed

lemma TrimSpace_length: "length (TrimSpace s) \<le> length s"
proof -
  obtain u v where "s = u @ TrimSpace s @ v" using TrimSpace_infix by blast
  then have "length s = length u + length (TrimSpace s) + length v"
    by (metis add.assoc length_append)
  then show ?thesis by linarith
qed

text \<open>The result has no white space at either end, so trimming twice changes nothing.\<close>

lemma TrimSpace_idem [simp]: "TrimSpace (TrimSpace s) = TrimSpace s"
proof -
  let ?l = "trim_with space_encodings s"
  let ?r = "trim_with (map rev space_encodings) (rev ?l)"
  obtain v where v: "rev ?l = v @ ?r" using trim_with_suffix by blast
  have "?l = rev ?r @ rev v" using v by (metis rev_append rev_rev_ident)
  moreover have "strip_first space_encodings ?l = None"
    by (rule trim_with_clean [OF space_encodings_nonempty(1)])
  ultimately have "strip_first space_encodings (rev ?r) = None"
    by (metis HasPrefix_mono strip_first_None)
  then have left: "trim_with space_encodings (rev ?r) = rev ?r"
    by (rule trim_with_id)
  have "strip_first (map rev space_encodings) ?r = None"
    by (rule trim_with_clean [OF space_encodings_nonempty(2)])
  then have "trim_with (map rev space_encodings) (rev (rev ?r)) = ?r"
    by (simp add: trim_with_id)
  then show ?thesis
    using left by (simp add: TrimSpace_def)
qed

text \<open>
  \<^verbatim>\<open>strings.Fields\<close>: the maximal runs of bytes that hold no white space.
\<close>

function fields_from :: "string \<Rightarrow> string \<Rightarrow> string list" where
  "fields_from cur s =
     (case strip_first space_encodings s of
        Some t \<Rightarrow>
          if length t < length s
          then (if cur = [] then fields_from [] t else cur # fields_from [] t)
          else []
      | None \<Rightarrow>
          (case s of
             [] \<Rightarrow> if cur = [] then [] else [cur]
           | c # t \<Rightarrow> fields_from (cur @ [c]) t))"
  by pat_completeness auto
termination
  by (relation "measure (\<lambda>(cur, s). length s)") auto

declare fields_from.simps [simp del]

definition Fields :: "string \<Rightarrow> string list" where
  "Fields s = fields_from [] s"

subsection \<open>Letter case\<close>

text \<open>
  \<^verbatim>\<open>strings.ToLower\<close> maps an all-ASCII string byte by byte.  Any other string goes through the
  Unicode tables, which are the parameter \<open>U\<close> of the definitions that use it.  The same holds
  for \<^verbatim>\<open>strings.EqualFold\<close>.
\<close>

definition is_ascii :: "string \<Rightarrow> bool" where
  "is_ascii s \<longleftrightarrow> list_all (\<lambda>c. of_char c < (128 :: nat)) s"

definition ascii_lower :: "char \<Rightarrow> char" where
  "ascii_lower c =
     (let n = (of_char c :: nat) in if 65 \<le> n \<and> n \<le> 90 then char_of (n + 32) else c)"

definition ToLower :: "(string \<Rightarrow> string) \<Rightarrow> string \<Rightarrow> string" where
  "ToLower U s = (if is_ascii s then map ascii_lower s else U s)"

definition ascii_upper :: "char \<Rightarrow> char" where
  "ascii_upper c =
     (let n = (of_char c :: nat) in if 97 \<le> n \<and> n \<le> 122 then char_of (n - 32) else c)"

definition ToUpper :: "(string \<Rightarrow> string) \<Rightarrow> string \<Rightarrow> string" where
  "ToUpper U s = (if is_ascii s then map ascii_upper s else U s)"

definition EqualFold :: "(string \<Rightarrow> string \<Rightarrow> bool) \<Rightarrow> string \<Rightarrow> string \<Rightarrow> bool" where
  "EqualFold U s t =
     (if is_ascii s \<and> is_ascii t then map ascii_lower s = map ascii_lower t else U s t)"

subsection \<open>Split and LastIndex\<close>

fun split_char :: "char \<Rightarrow> string \<Rightarrow> string list" where
  "split_char c [] = [[]]"
| "split_char c (x # xs) =
     (if x = c then [] # split_char c xs
      else (case split_char c xs of [] \<Rightarrow> [[x]] | w # ws \<Rightarrow> (x # w) # ws))"

lemma split_char_nonempty [simp]: "split_char c s \<noteq> []"
  by (cases s) (auto split: list.splits)

lemma split_char_no_sep: "w \<in> set (split_char c s) \<Longrightarrow> c \<notin> set w"
  by (induction c s arbitrary: w rule: split_char.induct)
    (auto split: if_splits list.splits)

text \<open>\<^verbatim>\<open>s[strings.LastIndex(s, c)+1:]\<close>, with \<open>None\<close> for the index -1.\<close>

definition after_last :: "char \<Rightarrow> string \<Rightarrow> string option" where
  "after_last c s = (if c \<in> set s then Some (rev (takeWhile (\<lambda>x. x \<noteq> c) (rev s))) else None)"

lemma takeWhile_prefix_elem: "x \<notin> set ys \<Longrightarrow> takeWhile (\<lambda>y. y \<noteq> x) (ys @ x # zs) = ys"
  by (induction ys) auto

lemma after_last_append: "c \<notin> set d \<Longrightarrow> after_last c (l @ c # d) = Some d"
  by (simp add: after_last_def takeWhile_prefix_elem)

lemma after_last_Some: "after_last c s = Some d \<Longrightarrow> c \<notin> set d \<and> (\<exists>l. s = l @ c # d)"
proof -
  assume a: "after_last c s = Some d"
  then have "c \<in> set s" by (simp add: after_last_def split: if_splits)
  then obtain l d' where s: "s = l @ c # d'" "c \<notin> set d'"
    by (metis split_list_last)
  with a show ?thesis by (auto simp: after_last_append)
qed

section \<open>Package strconv\<close>

text \<open>
  \<^verbatim>\<open>strconv.ParseInt(s, 10, 64)\<close>, and \<^verbatim>\<open>strconv.Atoi\<close> on a 64-bit platform: an optional sign, at
  least one decimal digit, and a value that fits; \<open>None\<close> is the error.
\<close>

fun parse_digits :: "int \<Rightarrow> string \<Rightarrow> int option" where
  "parse_digits n [] = Some n"
| "parse_digits n (c # cs) =
     (let d = (of_char c :: int) - 48
      in if 0 \<le> d \<and> d \<le> 9 then parse_digits (10 * n + d) cs else None)"

definition signed_digits :: "bool \<Rightarrow> string \<Rightarrow> int option" where
  "signed_digits neg ds =
     (if ds = [] then None
      else (case parse_digits 0 ds of
              None \<Rightarrow> None
            | Some n \<Rightarrow> let v = (if neg then - n else n) in if in_int64 v then Some v else None))"

fun ParseInt :: "string \<Rightarrow> int option" where
  "ParseInt [] = None"
| "ParseInt (c # cs) =
     (if c = CHR ''+'' then signed_digits False cs
      else if c = CHR ''-'' then signed_digits True cs
      else signed_digits False (c # cs))"

lemma signed_digits_range: "signed_digits neg ds = Some v \<Longrightarrow> in_int64 v"
  by (auto simp: signed_digits_def Let_def split: if_splits option.splits)

lemma ParseInt_range: "ParseInt s = Some v \<Longrightarrow> in_int64 v"
  by (cases s) (auto dest: signed_digits_range split: if_splits)

text \<open>\<^verbatim>\<open>strconv.Itoa\<close>.\<close>

fun nat_digits :: "nat \<Rightarrow> string" where
  "nat_digits n =
     (if n < 10 then [char_of (48 + n)] else nat_digits (n div 10) @ [char_of (48 + n mod 10)])"

declare nat_digits.simps [simp del]

definition Itoa :: "int \<Rightarrow> string" where
  "Itoa n = (if n < 0 then CHR ''-'' # nat_digits (nat (- n)) else nat_digits (nat n))"

lemma parse_digits_append:
  "parse_digits n (xs @ ys) = (case parse_digits n xs of None \<Rightarrow> None | Some m \<Rightarrow> parse_digits m ys)"
  by (induction n xs rule: parse_digits.induct) (auto simp: Let_def)

lemma of_char_digit: "d < 10 \<Longrightarrow> (of_char (char_of (48 + d :: nat)) :: int) = 48 + int d"
proof -
  assume "d < 10"
  then have "(of_char (char_of (48 + d)) :: nat) = 48 + d" by simp
  then show ?thesis by (metis of_nat_add of_nat_numeral of_nat_of_char)
qed

lemma parse_nat_digits: "parse_digits 0 (nat_digits n) = Some (int n)"
proof (induction n rule: nat_digits.induct)
  case (1 n)
  show ?case
  proof (cases "n < 10")
    case True
    then show ?thesis by (subst nat_digits.simps) (simp add: Let_def of_char_digit)
  next
    case False
    have "n mod 10 < 10" by simp
    moreover have "10 * int (n div 10) + int (n mod 10) = int n"
      by (metis mult_div_mod_eq of_nat_add of_nat_mult of_nat_numeral)
    ultimately show ?thesis using False 1
      by (subst nat_digits.simps) (simp add: parse_digits_append Let_def of_char_digit)
  qed
qed

lemma nat_digits_head: "\<exists>c cs. nat_digits n = c # cs \<and> c \<noteq> CHR ''+'' \<and> c \<noteq> CHR ''-''"
proof (induction n rule: nat_digits.induct)
  case (1 n)
  show ?case
  proof (cases "n < 10")
    case True
    then have "(of_char (char_of (48 + n)) :: nat) = 48 + n" by simp
    then have "char_of (48 + n) \<noteq> CHR ''+''" "char_of (48 + n) \<noteq> CHR ''-''"
      using True by (auto dest: arg_cong [where f = "of_char :: char \<Rightarrow> nat"])
    with True show ?thesis by (subst nat_digits.simps) simp
  next
    case False
    with 1 show ?thesis by (subst nat_digits.simps) auto
  qed
qed

text \<open>Printing and parsing an integer is the identity.\<close>

lemma ParseInt_Itoa: "in_int64 n \<Longrightarrow> ParseInt (Itoa n) = Some n"
proof -
  assume range: "in_int64 n"
  obtain c cs where h: "nat_digits (nat \<bar>n\<bar>) = c # cs" "c \<noteq> CHR ''+''" "c \<noteq> CHR ''-''"
    using nat_digits_head by blast
  have "parse_digits 0 (c # cs) = Some \<bar>n\<bar>"
    using parse_nat_digits [of "nat \<bar>n\<bar>"] h(1) by simp
  with h range show ?thesis
    by (cases "n < 0") (auto simp: Itoa_def signed_digits_def Let_def abs_if)
qed

section \<open>Package io\<close>

text \<open>
  A reader is the bytes it delivers and how it ends: \<open>None\<close> for end of file, \<open>Some e\<close> for an
  error on the read after the last byte.  \<^verbatim>\<open>io.ReadAll(io.LimitReader(r, n))\<close> stops after \<open>n\<close>
  bytes without looking further, and reads nothing when \<open>n\<close> is not positive.
\<close>

type_synonym reader = "string \<times> string option"

fun read_limited :: "int \<Rightarrow> reader \<Rightarrow> string + string" where
  "read_limited n (content, end_error) =
     (if n \<le> 0 then Inr []
      else if n \<le> int (length content) then Inr (take (nat n) content)
      else case end_error of Some e \<Rightarrow> Inl e | None \<Rightarrow> Inr content)"

lemma read_limited_length: "read_limited n r = Inr s \<Longrightarrow> int (length s) \<le> max 0 n"
  by (cases r) (auto split: if_splits option.splits)

section \<open>Generic list lemmas\<close>

lemma sort_key_take_le:
  assumes "x \<in> set (take n (sort_key f xs))" and "y \<in> set xs"
    and "y \<notin> set (take n (sort_key f xs))"
  shows "f x \<le> f y"
proof -
  let ?ys = "sort_key f xs"
  have "sorted_wrt (\<lambda>a b. f a \<le> f b) ?ys"
    by (metis sorted_sort_key sorted_map)
  then have "sorted_wrt (\<lambda>a b. f a \<le> f b) (take n ?ys @ drop n ?ys)" by simp
  moreover have "y \<in> set (drop n ?ys)"
    using assms(2,3) by (metis Un_iff append_take_drop_id set_append set_sort)
  ultimately show ?thesis
    using assms(1) unfolding sorted_wrt_append by blast
qed

lemma distinct_map_filter_inj:
  "distinct (map f xs) \<Longrightarrow> x \<in> set xs \<Longrightarrow> y \<in> set xs \<Longrightarrow> f x = f y \<Longrightarrow> x = y"
  by (auto simp: distinct_map inj_on_def)

lemma list_all2_map_eq: "list_all2 (\<lambda>x y. g y = f x) xs ys \<Longrightarrow> map g ys = map f xs"
  by (induction rule: list_all2_induct) simp_all

lemma distinct_mapD: "distinct (map f xs) \<Longrightarrow> distinct xs"
  by (simp add: distinct_map)

lemma mset_eq_distinct_map:
  "mset xs = mset ys \<Longrightarrow> distinct (map f xs) = distinct (map f ys)"
  by (metis mset_eq_imp_distinct_iff mset_map)

lemma list_all2_refl_on: "(\<And>x. x \<in> set xs \<Longrightarrow> P x x) \<Longrightarrow> list_all2 P xs xs"
  by (auto simp: list_all2_conv_all_nth)

end
