(* ===== verification/Relay_Types.thy ===== *)
theory Relay_Types
  imports Relay_Prelude
begin

text \<open>
  The data that crosses component boundaries: the MailerSend message the transformer builds and
  the queue stores (the fields of \<^verbatim>\<open>mailersend.Message\<close> that \<^verbatim>\<open>mimeparse/transformer.go\<close> sets),
  and the job statuses and the \<^verbatim>\<open>Job\<close> struct of \<^verbatim>\<open>queue/types.go\<close>.  A Go pointer that may be nil is
  an \<^typ>\<open>'a option\<close>; a nil slice is the empty list.
\<close>

section \<open>MailerSend messages\<close>

text \<open>\<^verbatim>\<open>From\<close>, \<^verbatim>\<open>Recipient\<close> and \<^verbatim>\<open>ReplyTo\<close> are all a name and an address.\<close>

record party =
  party_name :: string
  party_email :: string

record header_field =
  header_name :: string
  header_value :: string

record attachment =
  att_content :: string
  att_filename :: string
  att_disposition :: string
  att_id :: string

record message =
  msg_from :: party
  msg_recipients :: "party list"
  msg_subject :: string
  msg_text :: string
  msg_html :: string
  msg_references :: "string list"
  msg_headers :: "header_field list"
  msg_reply_to :: party
  msg_in_reply_to :: string
  msg_attachments :: "attachment list"

definition no_party :: party where
  "no_party = \<lparr>party_name = [], party_email = []\<rparr>"

section \<open>Job statuses\<close>

datatype job_status = StatusQueued | StatusProcessing | StatusRetry | StatusSent | StatusDLQ

text \<open>The string constants stored in the \<^verbatim>\<open>status\<close> column and used as metric labels.\<close>

fun status_text :: "job_status \<Rightarrow> string" where
  "status_text StatusQueued = ''queued''"
| "status_text StatusProcessing = ''processing''"
| "status_text StatusRetry = ''retry''"
| "status_text StatusSent = ''sent''"
| "status_text StatusDLQ = ''dlq''"

lemma status_text_inj: "status_text s = status_text t \<longleftrightarrow> s = t"
  by (cases s; cases t) simp_all

instantiation job_status :: enum
begin
definition enum_job_status :: "job_status list" where
  "enum_job_status = [StatusQueued, StatusProcessing, StatusRetry, StatusSent, StatusDLQ]"
definition enum_all_job_status :: "(job_status \<Rightarrow> bool) \<Rightarrow> bool" where
  "enum_all_job_status P \<longleftrightarrow>
     P StatusQueued \<and> P StatusProcessing \<and> P StatusRetry \<and> P StatusSent \<and> P StatusDLQ"
definition enum_ex_job_status :: "(job_status \<Rightarrow> bool) \<Rightarrow> bool" where
  "enum_ex_job_status P \<longleftrightarrow>
     P StatusQueued \<or> P StatusProcessing \<or> P StatusRetry \<or> P StatusSent \<or> P StatusDLQ"
instance
proof
  show univ: "(UNIV :: job_status set) = set enum_class.enum"
    unfolding enum_job_status_def using job_status.exhaust by auto
  show "distinct (enum_class.enum :: job_status list)"
    by (simp add: enum_job_status_def)
  show "enum_class.enum_all P \<longleftrightarrow> Ball (UNIV :: job_status set) P" for P
    unfolding enum_all_job_status_def by (auto, metis job_status.exhaust)
  show "enum_class.enum_ex P \<longleftrightarrow> Bex (UNIV :: job_status set) P" for P
    unfolding enum_ex_job_status_def by (auto, metis job_status.exhaust)
qed
end

section \<open>Jobs as the store returns them\<close>

record job =
  job_ID :: string
  job_Status :: job_status
  job_EnvelopeFrom :: string
  job_RecipientEmail :: string
  job_PayloadJSON :: string
  job_Message :: "message option"
  job_AttemptCount :: int
  job_NextAttemptAt :: go_time
  job_LastError :: string
  job_LastHTTPStatus :: int
  job_BulkEmailID :: string
  job_WorkerID :: string
  job_ProcessingStarted :: "go_time option"
  job_CreatedAt :: go_time
  job_UpdatedAt :: go_time

end
