(* ===== verification/Queue_Table.thy ===== *)
theory Queue_Table
  imports Relay_Types
begin

text \<open>
  The \<^verbatim>\<open>jobs\<close> table of \<^verbatim>\<open>queue/sqlite_store.go\<close>: its rows, the WHERE and SET clauses of the seven
  UPDATE statements the store issues, the life cycle of a job's status, and the contract every
  UPDATE statement meets (locale \<open>row_update\<close>): it keeps the row's identity, keeps the row
  well-formed, moves the status along the life cycle and never lowers the attempt count.  The
  locale is interpreted once per statement.  The bulk effect of a statement on the table, and what
  it does to the abstract view of the queue (\<open>job_view\<close>), is proved inside it.
\<close>

section \<open>Rows\<close>

text \<open>One column per field; a nullable column is an option.\<close>

record job_row =
  row_id :: string
  row_status :: job_status
  row_payload_json :: string
  row_envelope_from :: string
  row_recipient_email :: string
  row_attempt_count :: int
  row_next_attempt_at :: go_time
  row_last_error :: "string option"
  row_last_http_status :: "int option"
  row_bulk_email_id :: "string option"
  row_worker_id :: "string option"
  row_processing_started_at :: "go_time option"
  row_created_at :: go_time
  row_updated_at :: go_time

type_synonym table = "job_row list"

section \<open>Statements\<close>

definition update_where :: "(job_row \<Rightarrow> bool) \<Rightarrow> (job_row \<Rightarrow> job_row) \<Rightarrow> table \<Rightarrow> table" where
  "update_where g u t = map (\<lambda>r. if g r then u r else r) t"

text \<open>The row the INSERT of \<^verbatim>\<open>EnqueueTx\<close> writes; the columns it does not name are NULL.\<close>

definition queued_row :: "string \<Rightarrow> string \<Rightarrow> string \<Rightarrow> string \<Rightarrow> go_time \<Rightarrow> job_row" where
  "queued_row i payload sender rcpt now =
     \<lparr>row_id = i, row_status = StatusQueued, row_payload_json = payload,
      row_envelope_from = sender, row_recipient_email = rcpt, row_attempt_count = 0,
      row_next_attempt_at = now, row_last_error = None, row_last_http_status = None,
      row_bulk_email_id = None, row_worker_id = None, row_processing_started_at = None,
      row_created_at = now, row_updated_at = now\<rparr>"

text \<open>\<^verbatim>\<open>WHERE status IN ('queued', 'retry') AND next_attempt_at <= now\<close>\<close>

definition claimable :: "go_time \<Rightarrow> job_row \<Rightarrow> bool" where
  [row_guard_defs]: "claimable now r \<longleftrightarrow>
     (row_status r = StatusQueued \<or> row_status r = StatusRetry) \<and> row_next_attempt_at r \<le> now"

definition claim_guard :: "go_time \<Rightarrow> string list \<Rightarrow> job_row \<Rightarrow> bool" where
  [row_guard_defs]: "claim_guard now ids r \<longleftrightarrow> claimable now r \<and> row_id r \<in> set ids"

definition claim_set :: "string \<Rightarrow> go_time \<Rightarrow> job_row \<Rightarrow> job_row" where
  [row_set_defs]: "claim_set w now r =
     r\<lparr>row_status := StatusProcessing, row_worker_id := Some w,
       row_processing_started_at := Some now, row_updated_at := now\<rparr>"

text \<open>\<^verbatim>\<open>WHERE id=? AND status='processing'\<close>, shared by the three Mark operations.\<close>

definition mark_guard :: "string set \<Rightarrow> job_row \<Rightarrow> bool" where
  [row_guard_defs]: "mark_guard ids r \<longleftrightarrow> row_id r \<in> ids \<and> row_status r = StatusProcessing"

definition sent_set :: "string \<Rightarrow> go_time \<Rightarrow> job_row \<Rightarrow> job_row" where
  [row_set_defs]: "sent_set bulk now r =
     r\<lparr>row_status := StatusSent, row_attempt_count := row_attempt_count r + 1,
       row_bulk_email_id := Some bulk, row_last_error := None, row_last_http_status := None,
       row_worker_id := None, row_processing_started_at := None, row_updated_at := now\<rparr>"

definition retry_set :: "go_time \<Rightarrow> string \<Rightarrow> int \<Rightarrow> go_time \<Rightarrow> job_row \<Rightarrow> job_row" where
  [row_set_defs]: "retry_set next err code now r =
     r\<lparr>row_status := StatusRetry, row_attempt_count := row_attempt_count r + 1,
       row_next_attempt_at := next, row_last_error := Some err,
       row_last_http_status := Some code, row_worker_id := None,
       row_processing_started_at := None, row_updated_at := now\<rparr>"

definition dlq_set :: "string \<Rightarrow> int \<Rightarrow> go_time \<Rightarrow> job_row \<Rightarrow> job_row" where
  [row_set_defs]: "dlq_set err code now r =
     r\<lparr>row_status := StatusDLQ, row_attempt_count := row_attempt_count r + 1,
       row_last_error := Some err, row_last_http_status := Some code, row_worker_id := None,
       row_processing_started_at := None, row_updated_at := now\<rparr>"

text \<open>\<^verbatim>\<open>WHERE status='processing' AND processing_started_at IS NOT NULL AND processing_started_at < cutoff\<close>\<close>

definition stale_guard :: "go_time \<Rightarrow> job_row \<Rightarrow> bool" where
  [row_guard_defs]: "stale_guard cutoff r \<longleftrightarrow> row_status r = StatusProcessing \<and>
     (case row_processing_started_at r of None \<Rightarrow> False | Some p \<Rightarrow> p < cutoff)"

definition stale_set :: "go_time \<Rightarrow> job_row \<Rightarrow> job_row" where
  [row_set_defs]: "stale_set now r =
     r\<lparr>row_status := StatusRetry, row_next_attempt_at := now, row_worker_id := None,
       row_processing_started_at := None, row_updated_at := now\<rparr>"

text \<open>\<^verbatim>\<open>WHERE status='dlq' AND id IN (...)\<close>\<close>

definition dlq_guard :: "string list \<Rightarrow> job_row \<Rightarrow> bool" where
  [row_guard_defs]: "dlq_guard ids r \<longleftrightarrow> row_status r = StatusDLQ \<and> row_id r \<in> set ids"

definition requeue_dlq_set :: "go_time \<Rightarrow> job_row \<Rightarrow> job_row" where
  [row_set_defs]: "requeue_dlq_set now r =
     r\<lparr>row_status := StatusRetry, row_next_attempt_at := now, row_last_error := None,
       row_last_http_status := None, row_worker_id := None,
       row_processing_started_at := None, row_updated_at := now\<rparr>"

definition retry_now_guard :: "job_row \<Rightarrow> bool" where
  [row_guard_defs]: "retry_now_guard r \<longleftrightarrow> row_status r = StatusRetry"

definition retry_now_set :: "go_time \<Rightarrow> job_row \<Rightarrow> job_row" where
  [row_set_defs]: "retry_now_set now r = r\<lparr>row_next_attempt_at := now, row_updated_at := now\<rparr>"

section \<open>Life cycle, well-formed rows, evolution of a table\<close>

inductive lifecycle :: "job_status \<Rightarrow> job_status \<Rightarrow> bool" where
  claim_queued: "lifecycle StatusQueued StatusProcessing"
| claim_retry: "lifecycle StatusRetry StatusProcessing"
| delivered: "lifecycle StatusProcessing StatusSent"
| failed_retry: "lifecycle StatusProcessing StatusRetry"
| failed_dlq: "lifecycle StatusProcessing StatusDLQ"
| replayed: "lifecycle StatusDLQ StatusRetry"
| hurried: "lifecycle StatusRetry StatusRetry"

code_pred lifecycle .

inductive_simps lifecycle_simps [simp]:
  "lifecycle StatusQueued s"
  "lifecycle StatusProcessing s"
  "lifecycle StatusRetry s"
  "lifecycle StatusSent s"
  "lifecycle StatusDLQ s"

definition row_identity :: "job_row \<Rightarrow> string \<times> string \<times> string \<times> string \<times> go_time" where
  "row_identity r = (row_id r, row_payload_json r, row_envelope_from r, row_recipient_email r,
     row_created_at r)"

definition wf_row :: "job_row \<Rightarrow> bool" where
  "wf_row r \<longleftrightarrow>
     0 \<le> row_attempt_count r \<and>
     (row_status r = StatusProcessing \<longleftrightarrow> row_processing_started_at r \<noteq> None) \<and>
     (row_status r = StatusProcessing \<longleftrightarrow> row_worker_id r \<noteq> None) \<and>
     (row_status r = StatusQueued \<longrightarrow> row_attempt_count r = 0 \<and> row_last_error r = None) \<and>
     (row_status r = StatusSent \<longrightarrow>
        0 < row_attempt_count r \<and> row_bulk_email_id r \<noteq> None \<and> row_last_error r = None) \<and>
     (row_status r = StatusDLQ \<longrightarrow>
        0 < row_attempt_count r \<and> row_last_error r \<noteq> None \<and> row_last_http_status r \<noteq> None)"

definition store_inv :: "table \<Rightarrow> bool" where
  "store_inv t \<longleftrightarrow> distinct (map row_id t) \<and> list_all wf_row t"

definition row_evolves :: "job_row \<Rightarrow> job_row \<Rightarrow> bool" where
  "row_evolves r r' \<longleftrightarrow> row_identity r' = row_identity r \<and>
     row_attempt_count r \<le> row_attempt_count r' \<and>
     lifecycle\<^sup>*\<^sup>* (row_status r) (row_status r')"

text \<open>
  The rows of an older table are, in place, the first rows of a younger one: rows are never
  deleted or reordered, new rows are appended.
\<close>

definition table_evolves :: "table \<Rightarrow> table \<Rightarrow> bool" where
  "table_evolves t t' \<longleftrightarrow> (\<exists>t1 new. t' = t1 @ new \<and> list_all2 row_evolves t t1)"

text \<open>The abstract queue: a job identifier maps to its status and attempt count.\<close>

definition find_row :: "table \<Rightarrow> string \<Rightarrow> job_row option" where
  "find_row t i = find (\<lambda>r. row_id r = i) t"

definition job_view :: "table \<Rightarrow> string \<Rightarrow> (job_status \<times> int) option" where
  "job_view t i = map_option (\<lambda>r. (row_status r, row_attempt_count r)) (find_row t i)"

lemma row_identity_id: "row_identity r = row_identity r' \<Longrightarrow> row_id r = row_id r'"
  by (simp add: row_identity_def)

lemma row_evolves_refl [simp]: "row_evolves r r"
  by (simp add: row_evolves_def)

lemma row_evolves_trans: "row_evolves a b \<Longrightarrow> row_evolves b c \<Longrightarrow> row_evolves a c"
  by (auto simp: row_evolves_def)

lemma row_evolves_id: "row_evolves r r' \<Longrightarrow> row_id r' = row_id r"
  by (auto simp: row_evolves_def intro: row_identity_id)

lemma table_evolves_refl [simp]: "table_evolves t t"
  unfolding table_evolves_def by (rule exI [of _ t]) (simp add: list_all2_refl_on)

lemma table_evolves_append [simp]: "table_evolves t (t @ new)"
  unfolding table_evolves_def by (auto simp: list_all2_refl_on)

lemma table_evolves_trans:
  assumes "table_evolves a b" and "table_evolves b c"
  shows "table_evolves a c"
proof -
  obtain a1 n1 where b: "b = a1 @ n1" and a1: "list_all2 row_evolves a a1"
    using assms(1) by (auto simp: table_evolves_def)
  obtain b1 n2 where c: "c = b1 @ n2" and b1: "list_all2 row_evolves b b1"
    using assms(2) by (auto simp: table_evolves_def)
  from b1 b obtain c1 c2 where b1_eq: "b1 = c1 @ c2" and c1: "list_all2 row_evolves a1 c1"
    by (auto simp: list_all2_append1)
  have "list_all2 row_evolves a c1"
    using a1 c1 by (rule list_all2_trans [rotated]) (rule row_evolves_trans)
  with c b1_eq show ?thesis
    by (auto simp: table_evolves_def)
qed

lemma table_evolves_find:
  assumes "table_evolves t t'" and "find_row t i = Some r"
  shows "\<exists>r'. find_row t' i = Some r' \<and> row_evolves r r'"
proof -
  obtain t1 new where t': "t' = t1 @ new" and t1: "list_all2 row_evolves t t1"
    using assms(1) by (auto simp: table_evolves_def)
  from t1 assms(2) have "\<exists>r'. find_row t1 i = Some r' \<and> row_evolves r r'"
    by (induction rule: list_all2_induct)
      (auto simp: find_row_def dest: row_evolves_id split: if_splits)
  moreover have "find_row t1 i = Some r' \<Longrightarrow> find_row (t1 @ new) i = Some r'" for r'
    by (induction t1) (auto simp: find_row_def)
  ultimately show ?thesis using t' by blast
qed

lemma sent_is_final: "lifecycle\<^sup>*\<^sup>* StatusSent s \<Longrightarrow> s = StatusSent"
  by (induction rule: rtranclp_induct) auto

lemma never_requeued: "lifecycle\<^sup>*\<^sup>* s StatusQueued \<Longrightarrow> s = StatusQueued"
  by (erule rtranclp.cases) (auto elim: lifecycle.cases)

section \<open>The contract of an UPDATE statement\<close>

lemma update_where_simps [simp]:
  "update_where g u [] = []"
  "update_where g u (r # t) = (if g r then u r else r) # update_where g u t"
  "length (update_where g u t) = length t"
  by (simp_all add: update_where_def)

lemma update_where_append [simp]:
  "update_where g u (t @ t') = update_where g u t @ update_where g u t'"
  by (simp add: update_where_def)

lemma update_where_none: "(\<And>r. r \<in> set t \<Longrightarrow> \<not> g r) \<Longrightarrow> update_where g u t = t"
  by (induction t) auto

locale row_update =
  fixes guard :: "job_row \<Rightarrow> bool" and set_clause :: "job_row \<Rightarrow> job_row"
  assumes identity: "row_identity (set_clause r) = row_identity r"
    and wf: "guard r \<Longrightarrow> wf_row r \<Longrightarrow> wf_row (set_clause r)"
    and step: "guard r \<Longrightarrow> lifecycle (row_status r) (row_status (set_clause r))"
    and attempts: "row_attempt_count r \<le> row_attempt_count (set_clause r)"
begin

lemma set_clause_id [simp]: "row_id (set_clause r) = row_id r"
  by (rule row_identity_id [OF identity])

lemma update_ids [simp]: "map row_id (update_where guard set_clause t) = map row_id t"
  by (induction t) auto

lemma update_inv: "store_inv t \<Longrightarrow> store_inv (update_where guard set_clause t)"
proof -
  assume inv: "store_inv t"
  have "list_all wf_row t \<Longrightarrow> list_all wf_row (update_where guard set_clause t)"
    by (induction t) (auto intro: wf)
  with inv show ?thesis by (simp add: store_inv_def)
qed

lemma update_row_evolves: "guard r \<Longrightarrow> row_evolves r (set_clause r)"
  by (simp add: row_evolves_def identity attempts step r_into_rtranclp)

lemma update_evolves: "table_evolves t (update_where guard set_clause t)"
proof -
  have "list_all2 row_evolves t (update_where guard set_clause t)"
    by (induction t) (auto intro: update_row_evolves)
  then show ?thesis by (auto simp: table_evolves_def)
qed

lemma update_find:
  "find_row (update_where guard set_clause t) i =
     map_option (\<lambda>r. if guard r then set_clause r else r) (find_row t i)"
  by (induction t) (auto simp: find_row_def)

end

text \<open>The seven statements meet the contract.\<close>

interpretation claim: row_update "claim_guard now ids" "claim_set w now" for now ids w
  by unfold_locales (auto simp: row_guard_defs row_set_defs row_identity_def wf_row_def)

interpretation sent: row_update "mark_guard ids" "sent_set bulk now" for ids bulk now
  by unfold_locales (auto simp: row_guard_defs row_set_defs row_identity_def wf_row_def)

interpretation retry: row_update "mark_guard ids" "retry_set next err code now"
  for ids "next" err code now
  by unfold_locales (auto simp: row_guard_defs row_set_defs row_identity_def wf_row_def)

interpretation dead: row_update "mark_guard ids" "dlq_set err code now" for ids err code now
  by unfold_locales (auto simp: row_guard_defs row_set_defs row_identity_def wf_row_def)

interpretation stale: row_update "stale_guard cutoff" "stale_set now" for cutoff now
  by unfold_locales (auto simp: row_guard_defs row_set_defs row_identity_def wf_row_def)

interpretation replay: row_update "dlq_guard ids" "requeue_dlq_set now" for ids now
  by unfold_locales (auto simp: row_guard_defs row_set_defs row_identity_def wf_row_def)

interpretation hurry: row_update retry_now_guard "retry_now_set now" for now
  by unfold_locales (auto simp: row_guard_defs row_set_defs row_identity_def wf_row_def)

lemmas update_invs =
  claim.update_inv sent.update_inv retry.update_inv dead.update_inv stale.update_inv
  replay.update_inv hurry.update_inv

lemmas updates_evolve =
  claim.update_evolves sent.update_evolves retry.update_evolves dead.update_evolves
  stale.update_evolves replay.update_evolves hurry.update_evolves

section \<open>Executing one UPDATE per job of a batch\<close>

text \<open>
  The Mark operations run a prepared statement once per job.  Since a marked row leaves status
  \<^verbatim>\<open>processing\<close>, the loop has the effect of one UPDATE with all the identifiers.
\<close>

locale mark_update =
  fixes set_clause :: "job_row \<Rightarrow> job_row" and final :: job_status
  assumes mark_update: "row_update (mark_guard ids) set_clause"
    and leaves: "row_status (set_clause r) = final"
    and not_processing: "final \<noteq> StatusProcessing"
    and counts: "row_attempt_count (set_clause r) = row_attempt_count r + 1"
begin

sublocale single: row_update "mark_guard ids" set_clause for ids
  by (rule mark_update)

lemma mark_fold:
  "fold (\<lambda>i. update_where (mark_guard {i}) set_clause) is t =
     update_where (mark_guard (set is)) set_clause t"
proof (induction "is" arbitrary: t)
  case Nil
  show ?case by (simp add: update_where_none mark_guard_def)
next
  case (Cons i "is")
  have "update_where (mark_guard (set is)) set_clause (update_where (mark_guard {i}) set_clause t) =
      update_where (mark_guard (set (i # is))) set_clause t"
    by (induction t) (auto simp: mark_guard_def leaves not_processing)
  with Cons.IH show ?case by simp
qed

text \<open>What marking does to the abstract queue.\<close>

lemma mark_view:
  "job_view (update_where (mark_guard ids) set_clause t) i =
     (case job_view t i of
        Some (StatusProcessing, n) \<Rightarrow>
          if i \<in> ids then Some (final, n + 1) else Some (StatusProcessing, n)
      | v \<Rightarrow> v)"
proof (cases "find_row t i")
  case None
  then show ?thesis by (simp add: job_view_def single.update_find)
next
  case (Some r)
  then have "row_id r = i" unfolding find_row_def by (metis (mono_tags) find_Some_iff)
  with Some show ?thesis
    by (cases "row_status r")
      (auto simp: job_view_def single.update_find mark_guard_def leaves counts)
qed

end

interpretation mark_sent: mark_update "sent_set bulk now" StatusSent for bulk now
  by unfold_locales (auto simp: row_guard_defs row_set_defs row_identity_def wf_row_def)

interpretation mark_retry: mark_update "retry_set next err code now" StatusRetry
  for "next" err code now
  by unfold_locales (auto simp: row_guard_defs row_set_defs row_identity_def wf_row_def)

interpretation mark_dead: mark_update "dlq_set err code now" StatusDLQ for err code now
  by unfold_locales (auto simp: row_guard_defs row_set_defs row_identity_def wf_row_def)

end
