(* ===== verification/Queue_Store.thy ===== *)
theory Queue_Store
  imports Complex_Main Queue_Table
begin

text \<open>
  The operations of \<^verbatim>\<open>SQLiteStore\<close> (\<^verbatim>\<open>queue/sqlite_store.go\<close>) on the jobs table.

  Every operation takes the table and returns the table it leaves behind together with its result.
  A call into \<^verbatim>\<open>database/sql\<close> can fail (I/O, a busy database, a cancelled context): the parameter
  \<open>flt\<close> says, for each call an operation makes, whether it fails and with which text, so that
  every error return of the code is a branch of the model.  A transaction that does not commit
  leaves the table as it was (the deferred \<^verbatim>\<open>Rollback\<close>).  Readings of \<^verbatim>\<open>time.Now()\<close> and the
  identifiers \<^verbatim>\<open>ulid.Make()\<close> returns are arguments.  The order in which SQLite visits rows is not
  specified; the field \<open>visit_order\<close> of the store's environment is any reordering (\<open>visit\<close>), and an
  ORDER BY is a stable sort after it, so ties come out in any order.
\<close>

section \<open>The store, database faults and errors\<close>

datatype db_call =
    BeginTx
  | PrepareContext
  | ExecContext nat
  | QueryContext nat
  | NextRow nat nat
  | ScanRow nat nat
  | RowsAffected
  | CommitTx

type_synonym db_faults = "db_call \<Rightarrow> string option"

abbreviation no_faults :: db_faults where "no_faults \<equiv> \<lambda>_. None"

datatype exec_error = UniqueViolation | ExecFailed string

datatype store_error =
    BeginEnqueueTx string
  | PrepareEnqueue string
  | MissingRecipient
  | MarshalPayload string
  | InsertJob exec_error
  | CommitEnqueueTx string
  | UnmarshalPayload string string
  | DbError string

text \<open>
  \<^verbatim>\<open>SQLiteStore\<close>'s worker identity, with the code outside the repository it calls: the Unicode
  tables of \<^verbatim>\<open>strings.ToLower\<close>, \<^verbatim>\<open>json.Marshal\<close> and \<^verbatim>\<open>json.Unmarshal\<close> on \<^verbatim>\<open>mailersend.Message\<close>,
  \<^verbatim>\<open>time.Parse\<close> for a layout, and SQLite's visiting order.
\<close>

record sqlite_store =
  workerID :: string
  unicode_lower :: "string \<Rightarrow> string"
  marshal_message :: "message \<Rightarrow> string + string"
  unmarshal_message :: "string \<Rightarrow> string + message"
  time_parse :: "string \<Rightarrow> string \<Rightarrow> go_time option"
  visit_order :: "job_row list \<Rightarrow> job_row list"

text \<open>
  The rows a SELECT returns, before any ORDER BY: each selected row once, in whatever order the
  environment chooses (a choice that is no reordering of the rows is not taken).
\<close>

definition visit :: "sqlite_store \<Rightarrow> job_row list \<Rightarrow> job_row list" where
  "visit S rs = (let vs = visit_order S rs in if mset vs = mset rs then vs else rs)"

section \<open>Opening and migrating\<close>

text \<open>
  \<^verbatim>\<open>OpenSQLite\<close>: \<open>mkdir\<close> is the error of \<^verbatim>\<open>os.MkdirAll\<close>, \<open>dir\<close> is \<^verbatim>\<open>filepath.Dir(path)\<close>, \<open>open_db\<close>
  the result of \<^verbatim>\<open>sql.Open\<close> on the data source name.
\<close>

datatype open_error = CreateDirectory string | OpenDatabase string

definition sqlite_dsn :: "string \<Rightarrow> string" where
  "sqlite_dsn path =
     ''file:'' @ path @ ''?_pragma=journal_mode(WAL)&_pragma=busy_timeout(5000)''"

definition OpenSQLite ::
  "string option \<Rightarrow> string \<Rightarrow> (string \<Rightarrow> string option) \<Rightarrow> sqlite_store \<Rightarrow> string \<Rightarrow> string \<Rightarrow>
     open_error + sqlite_store" where
  "OpenSQLite mkdir dir open_db env path worker =
     (case mkdir of
        Some e \<Rightarrow>
          if dir \<noteq> ''.'' then Inl (CreateDirectory e)
          else (case open_db (sqlite_dsn path) of
                  Some e' \<Rightarrow> Inl (OpenDatabase e')
                | None \<Rightarrow> Inr (env\<lparr>workerID := worker\<rparr>))
      | None \<Rightarrow>
          (case open_db (sqlite_dsn path) of
             Some e' \<Rightarrow> Inl (OpenDatabase e')
           | None \<Rightarrow> Inr (env\<lparr>workerID := worker\<rparr>)))"

text \<open>\<^verbatim>\<open>CREATE TABLE IF NOT EXISTS jobs\<close>; a database without the table is \<open>None\<close>.\<close>

definition Migrate :: "db_faults \<Rightarrow> table option \<Rightarrow> table option \<times> store_error option" where
  "Migrate flt db =
     (case flt (ExecContext 0) of
        Some e \<Rightarrow> (db, Some (DbError e))
      | None \<Rightarrow> (case db of None \<Rightarrow> (Some [], None) | Some t \<Rightarrow> (Some t, None)))"

section \<open>EnqueueTx\<close>

fun enqueue_rows ::
  "sqlite_store \<Rightarrow> db_faults \<Rightarrow> (nat \<Rightarrow> string) \<Rightarrow> go_time \<Rightarrow> string \<Rightarrow> nat \<Rightarrow>
     message option list \<Rightarrow> table \<Rightarrow> string list \<Rightarrow> store_error + table \<times> string list" where
  "enqueue_rows S flt ulid now sender i [] t ids = Inr (t, ids)"
| "enqueue_rows S flt ulid now sender i (m # ms) t ids =
     (case m of
        None \<Rightarrow> Inl MissingRecipient
      | Some msg \<Rightarrow>
          (case msg_recipients msg of
             [] \<Rightarrow> Inl MissingRecipient
           | rcpt # _ \<Rightarrow>
               (case marshal_message S msg of
                  Inl e \<Rightarrow> Inl (MarshalPayload e)
                | Inr payload \<Rightarrow>
                    (let row = queued_row (ulid i) payload
                           (ToLower (unicode_lower S) (TrimSpace sender))
                           (ToLower (unicode_lower S) (TrimSpace (party_email rcpt))) now
                     in case flt (ExecContext i) of
                          Some e \<Rightarrow> Inl (InsertJob (ExecFailed e))
                        | None \<Rightarrow>
                            if ulid i \<in> row_id ` set t then Inl (InsertJob UniqueViolation)
                            else enqueue_rows S flt ulid now sender (Suc i) ms
                                   (t @ [row]) (ids @ [ulid i])))))"

definition EnqueueTx ::
  "sqlite_store \<Rightarrow> db_faults \<Rightarrow> (nat \<Rightarrow> string) \<Rightarrow> go_time \<Rightarrow> string \<Rightarrow>
     message option list \<Rightarrow> table \<Rightarrow> table \<times> (store_error + string list)" where
  "EnqueueTx S flt ulid now sender msgs t =
     (if msgs = [] then (t, Inr [])
      else case flt BeginTx of
        Some e \<Rightarrow> (t, Inl (BeginEnqueueTx e))
      | None \<Rightarrow>
          (case flt PrepareContext of
             Some e \<Rightarrow> (t, Inl (PrepareEnqueue e))
           | None \<Rightarrow>
               (case enqueue_rows S flt ulid now sender 0 msgs t [] of
                  Inl e \<Rightarrow> (t, Inl e)
                | Inr (t', ids) \<Rightarrow>
                    (case flt CommitTx of
                       Some e \<Rightarrow> (t, Inl (CommitEnqueueTx e))
                     | None \<Rightarrow> (t', Inr ids)))))"

section \<open>Times read from SQLite\<close>

text \<open>The values \<^verbatim>\<open>database/sql\<close> can hand to a scan destination of type \<^verbatim>\<open>any\<close>.\<close>

datatype sql_value =
    SqlTime go_time
  | SqlString string
  | SqlBytes string
  | SqlInt int
  | SqlFloat real
  | SqlBool bool
  | SqlNull

definition time_layouts :: "string list" where
  "time_layouts =
     [''2006-01-02T15:04:05.999999999Z07:00'', ''2006-01-02T15:04:05Z07:00'',
      ''2006-01-02 15:04:05.999999999-07:00'', ''2006-01-02 15:04:05.999999999'',
      ''2006-01-02 15:04:05'']"

fun first_layout :: "(string \<Rightarrow> string \<Rightarrow> go_time option) \<Rightarrow> string list \<Rightarrow> string \<Rightarrow> go_time option" where
  "first_layout tp [] v = None"
| "first_layout tp (l # ls) v = (case tp l v of Some t \<Rightarrow> Some t | None \<Rightarrow> first_layout tp ls v)"

definition parseTimeOrNow :: "sqlite_store \<Rightarrow> go_time \<Rightarrow> string \<Rightarrow> go_time" where
  "parseTimeOrNow S now v0 =
     (let v = TrimSpace v0
      in if v = [] then now
         else case first_layout (time_parse S) time_layouts v of
                Some t \<Rightarrow> t
              | None \<Rightarrow> (case ParseInt v of Some n \<Rightarrow> n * second | None \<Rightarrow> now))"

text \<open>Conversion of a \<^verbatim>\<open>float64\<close> to \<^verbatim>\<open>int64\<close> truncates towards zero.\<close>

fun decodeSQLTime :: "sqlite_store \<Rightarrow> go_time \<Rightarrow> sql_value \<Rightarrow> go_time" where
  "decodeSQLTime S now (SqlTime t) = t"
| "decodeSQLTime S now (SqlString v) = parseTimeOrNow S now v"
| "decodeSQLTime S now (SqlBytes v) = parseTimeOrNow S now v"
| "decodeSQLTime S now (SqlInt n) = n * second"
| "decodeSQLTime S now (SqlFloat x) = (if 0 \<le> x then \<lfloor>x\<rfloor> else \<lceil>x\<rceil>) * second"
| "decodeSQLTime S now _ = now"

fun decodeOptionalSQLTime :: "sqlite_store \<Rightarrow> go_time \<Rightarrow> sql_value \<Rightarrow> go_time option" where
  "decodeOptionalSQLTime S now SqlNull = None"
| "decodeOptionalSQLTime S now v = Some (decodeSQLTime S now v)"

text \<open>The driver returns a \<^verbatim>\<open>DATETIME\<close> column as \<^verbatim>\<open>time.Time\<close>, and NULL as nil.\<close>

definition datetime :: "go_time \<Rightarrow> sql_value" where
  "datetime t = SqlTime t"

definition nullable_datetime :: "go_time option \<Rightarrow> sql_value" where
  "nullable_datetime v = (case v of None \<Rightarrow> SqlNull | Some t \<Rightarrow> SqlTime t)"

text \<open>
  The common SELECT list with its \<^verbatim>\<open>COALESCE\<close> defaults, and the assignments after \<^verbatim>\<open>Scan\<close>; the
  payload is decoded by the caller.
\<close>

definition scan_row :: "sqlite_store \<Rightarrow> go_time \<Rightarrow> job_row \<Rightarrow> job" where
  "scan_row S now r =
     \<lparr>job_ID = row_id r, job_Status = row_status r, job_EnvelopeFrom = row_envelope_from r,
      job_RecipientEmail = row_recipient_email r, job_PayloadJSON = row_payload_json r,
      job_Message = None, job_AttemptCount = row_attempt_count r,
      job_NextAttemptAt = decodeSQLTime S now (datetime (row_next_attempt_at r)),
      job_LastError = (case row_last_error r of None \<Rightarrow> [] | Some e \<Rightarrow> e),
      job_LastHTTPStatus = (case row_last_http_status r of None \<Rightarrow> 0 | Some c \<Rightarrow> c),
      job_BulkEmailID = (case row_bulk_email_id r of None \<Rightarrow> [] | Some b \<Rightarrow> b),
      job_WorkerID = (case row_worker_id r of None \<Rightarrow> [] | Some w \<Rightarrow> w),
      job_ProcessingStarted =
        decodeOptionalSQLTime S now (nullable_datetime (row_processing_started_at r)),
      job_CreatedAt = decodeSQLTime S now (datetime (row_created_at r)),
      job_UpdatedAt = decodeSQLTime S now (datetime (row_updated_at r))\<rparr>"

text \<open>\<^verbatim>\<open>scanJobs\<close>: a payload that does not decode leaves \<^verbatim>\<open>Message\<close> nil; an iteration error is returned.\<close>

fun scanJobs :: "sqlite_store \<Rightarrow> db_faults \<Rightarrow> go_time \<Rightarrow> nat \<Rightarrow> job_row list \<Rightarrow> job list \<Rightarrow>
    store_error + job list" where
  "scanJobs S flt now i [] out = (case flt (NextRow 0 i) of Some e \<Rightarrow> Inl (DbError e) | None \<Rightarrow> Inr out)"
| "scanJobs S flt now i (r # rs) out =
     (case flt (NextRow 0 i) of
        Some e \<Rightarrow> Inl (DbError e)
      | None \<Rightarrow>
          (case flt (ScanRow 0 i) of
             Some e \<Rightarrow> Inl (DbError e)
           | None \<Rightarrow>
               scanJobs S flt now (Suc i) rs
                 (out @ [(scan_row S now r)\<lparr>job_Message :=
                    (case unmarshal_message S (row_payload_json r) of
                       Inl _ \<Rightarrow> None | Inr m \<Rightarrow> Some m)\<rparr>])))"

fun join_placeholders :: "nat \<Rightarrow> nat \<Rightarrow> string" where
  "join_placeholders i 0 = []"
| "join_placeholders i (Suc k) = (if i > 0 then '', '' else []) @ ''?'' @ join_placeholders (Suc i) k"

definition placeholders :: "int \<Rightarrow> string" where
  "placeholders n = (if n \<le> 0 then [] else join_placeholders 0 (nat n))"

section \<open>Claiming\<close>

type_synonym stop_rule = "int \<Rightarrow> int \<Rightarrow> int \<Rightarrow> bool"

definition claim_candidates :: "sqlite_store \<Rightarrow> go_time \<Rightarrow> int \<Rightarrow> table \<Rightarrow> job_row list" where
  "claim_candidates S now limit t =
     take (nat limit) (sort_key row_created_at (visit S (filter (claimable now) t)))"

definition job_bytes :: "string \<Rightarrow> int" where
  "job_bytes payload = int (length payload) + 128"

text \<open>
  The loop over the candidates.  \<^verbatim>\<open>rows.Next()\<close> also returns false on an iteration error, which
  this loop does not ask for (\<^verbatim>\<open>rows.Err()\<close>), so such an error just ends it.
\<close>

fun pick_ids :: "db_faults \<Rightarrow> stop_rule \<Rightarrow> nat \<Rightarrow> job_row list \<Rightarrow> string list \<Rightarrow> int \<Rightarrow>
    store_error + string list" where
  "pick_ids flt stop i [] ids bytes = Inr ids"
| "pick_ids flt stop i (r # rs) ids bytes =
     (case flt (NextRow 0 i) of
        Some _ \<Rightarrow> Inr ids
      | None \<Rightarrow>
          (case flt (ScanRow 0 i) of
             Some e \<Rightarrow> Inl (DbError e)
           | None \<Rightarrow>
               (let nextJobBytes = job_bytes (row_payload_json r)
                in if stop (int (length ids)) bytes nextJobBytes then Inr ids
                   else pick_ids flt stop (Suc i) rs (ids @ [row_id r]) (bytes + nextJobBytes))))"

definition claimed_rows :: "sqlite_store \<Rightarrow> string list \<Rightarrow> table \<Rightarrow> job_row list" where
  "claimed_rows S ids t =
     sort_key row_created_at (visit S (filter (\<lambda>r. row_status r = StatusProcessing \<and>
       row_worker_id r = Some (workerID S) \<and> row_id r \<in> set ids) t))"

text \<open>The loop over the claimed rows; here too an iteration error just ends the loop.\<close>

fun scan_claimed :: "sqlite_store \<Rightarrow> db_faults \<Rightarrow> go_time \<Rightarrow> nat \<Rightarrow> job_row list \<Rightarrow> job list \<Rightarrow>
    store_error + job list" where
  "scan_claimed S flt now i [] out = Inr out"
| "scan_claimed S flt now i (r # rs) out =
     (case flt (NextRow 1 i) of
        Some _ \<Rightarrow> Inr out
      | None \<Rightarrow>
          (case flt (ScanRow 1 i) of
             Some e \<Rightarrow> Inl (DbError e)
           | None \<Rightarrow>
               (case unmarshal_message S (row_payload_json r) of
                  Inl e \<Rightarrow> Inl (UnmarshalPayload (row_id r) e)
                | Inr m \<Rightarrow>
                    scan_claimed S flt now (Suc i) rs
                      (out @ [(scan_row S now r)\<lparr>job_Message := Some m\<rparr>]))))"

definition claimJobs :: "sqlite_store \<Rightarrow> db_faults \<Rightarrow> go_time \<Rightarrow> int \<Rightarrow> stop_rule \<Rightarrow> table \<Rightarrow>
    table \<times> (store_error + job list)" where
  "claimJobs S flt now limit shouldStop t =
     (if limit \<le> 0 then (t, Inr [])
      else case flt BeginTx of
        Some e \<Rightarrow> (t, Inl (DbError e))
      | None \<Rightarrow>
      (case flt (QueryContext 0) of
        Some e \<Rightarrow> (t, Inl (DbError e))
      | None \<Rightarrow>
      (case pick_ids flt shouldStop 0 (claim_candidates S now limit t) [] 0 of
        Inl e \<Rightarrow> (t, Inl e)
      | Inr ids \<Rightarrow>
          if ids = []
          then (case flt CommitTx of Some e \<Rightarrow> (t, Inl (DbError e)) | None \<Rightarrow> (t, Inr []))
          else
      (case flt (ExecContext 0) of
        Some e \<Rightarrow> (t, Inl (DbError e))
      | None \<Rightarrow>
      (let t' = update_where (claim_guard now ids) (claim_set (workerID S) now) t
       in case flt (QueryContext 1) of
            Some e \<Rightarrow> (t, Inl (DbError e))
          | None \<Rightarrow>
              (case scan_claimed S flt now 0 (claimed_rows S ids t') [] of
                 Inl e \<Rightarrow> (t, Inl e)
               | Inr out \<Rightarrow>
                   (case flt CommitTx of
                      Some e \<Rightarrow> (t, Inl (DbError e))
                    | None \<Rightarrow> (t', Inr out))))))))"

definition never_stop :: stop_rule where
  "never_stop batchCount batchBytes nextJobBytes \<longleftrightarrow> False"

definition ClaimBatch :: "sqlite_store \<Rightarrow> db_faults \<Rightarrow> go_time \<Rightarrow> int \<Rightarrow> duration \<Rightarrow> table \<Rightarrow>
    table \<times> (store_error + job list)" where
  "ClaimBatch S flt now limit lease t = claimJobs S flt now limit never_stop t"

text \<open>Defaults shared by \<^verbatim>\<open>ClaimDispatchBatch\<close> and the dispatcher's \<^verbatim>\<open>splitBatches\<close>.\<close>

definition default_max_count :: "int \<Rightarrow> int" where
  "default_max_count n = (if n \<le> 0 then 500 else n)"

definition default_max_bytes :: "int \<Rightarrow> int" where
  "default_max_bytes n = (if n \<le> 0 then 5 * 1024 * 1024 else n)"

definition batch_full :: "int \<Rightarrow> int \<Rightarrow> stop_rule" where
  "batch_full maxCount maxBytes batchCount batchBytes nextJobBytes \<longleftrightarrow>
     batchCount > 0 \<and> (batchCount \<ge> maxCount \<or> batchBytes + nextJobBytes > maxBytes)"

definition ClaimDispatchBatch ::
  "sqlite_store \<Rightarrow> db_faults \<Rightarrow> go_time \<Rightarrow> int \<Rightarrow> duration \<Rightarrow> int \<Rightarrow> int \<Rightarrow> table \<Rightarrow>
     table \<times> (store_error + job list)" where
  "ClaimDispatchBatch S flt now limit lease maxCount maxBytes t =
     claimJobs S flt now limit
       (batch_full (default_max_count maxCount) (default_max_bytes maxBytes)) t"

section \<open>Marking the outcome of a batch\<close>

fun exec_marks :: "db_faults \<Rightarrow> (job_row \<Rightarrow> job_row) \<Rightarrow> nat \<Rightarrow> job list \<Rightarrow> table \<Rightarrow>
    store_error + table" where
  "exec_marks flt u i [] t = Inr t"
| "exec_marks flt u i (j # js) t =
     (case flt (ExecContext i) of
        Some e \<Rightarrow> Inl (DbError e)
      | None \<Rightarrow> exec_marks flt u (Suc i) js (update_where (mark_guard {job_ID j}) u t))"

definition mark_tx :: "db_faults \<Rightarrow> (job_row \<Rightarrow> job_row) \<Rightarrow> job list \<Rightarrow> table \<Rightarrow>
    table \<times> store_error option" where
  "mark_tx flt u jobs t =
     (if jobs = [] then (t, None)
      else case flt BeginTx of
        Some e \<Rightarrow> (t, Some (DbError e))
      | None \<Rightarrow>
          (case flt PrepareContext of
             Some e \<Rightarrow> (t, Some (DbError e))
           | None \<Rightarrow>
               (case exec_marks flt u 0 jobs t of
                  Inl e \<Rightarrow> (t, Some e)
                | Inr t' \<Rightarrow>
                    (case flt CommitTx of
                       Some e \<Rightarrow> (t, Some (DbError e))
                     | None \<Rightarrow> (t', None)))))"

definition MarkSent :: "db_faults \<Rightarrow> go_time \<Rightarrow> job list \<Rightarrow> string \<Rightarrow> table \<Rightarrow>
    table \<times> store_error option" where
  "MarkSent flt now jobs bulkEmailID t = mark_tx flt (sent_set bulkEmailID now) jobs t"

definition MarkRetry :: "db_faults \<Rightarrow> go_time \<Rightarrow> job list \<Rightarrow> go_time \<Rightarrow> string \<Rightarrow> int \<Rightarrow> table \<Rightarrow>
    table \<times> store_error option" where
  "MarkRetry flt now jobs nextAttemptAt errMsg httpStatus t =
     mark_tx flt (retry_set nextAttemptAt errMsg httpStatus now) jobs t"

definition MarkDLQ :: "db_faults \<Rightarrow> go_time \<Rightarrow> job list \<Rightarrow> string \<Rightarrow> int \<Rightarrow> table \<Rightarrow>
    table \<times> store_error option" where
  "MarkDLQ flt now jobs errMsg httpStatus t = mark_tx flt (dlq_set errMsg httpStatus now) jobs t"

section \<open>Recovery, counting and dead letters\<close>

text \<open>
  An UPDATE outside a transaction: it commits on its own, and the row count is read afterwards,
  so a failure to read it is reported after the rows have changed.
\<close>

definition exec_update :: "db_faults \<Rightarrow> (job_row \<Rightarrow> bool) \<Rightarrow> (job_row \<Rightarrow> job_row) \<Rightarrow> table \<Rightarrow>
    table \<times> (store_error + nat)" where
  "exec_update flt g u t =
     (case flt (ExecContext 0) of
        Some e \<Rightarrow> (t, Inl (DbError e))
      | None \<Rightarrow>
          (let t' = update_where g u t
           in case flt RowsAffected of
                Some e \<Rightarrow> (t', Inl (DbError e))
              | None \<Rightarrow> (t', Inr (length (filter g t)))))"

definition RequeueStaleProcessing :: "db_faults \<Rightarrow> go_time \<Rightarrow> duration \<Rightarrow> table \<Rightarrow>
    table \<times> (store_error + nat)" where
  "RequeueStaleProcessing flt now leaseTimeout t =
     exec_update flt (stale_guard (now - leaseTimeout)) (stale_set now) t"

definition RequeueDLQIDs :: "db_faults \<Rightarrow> string list \<Rightarrow> go_time \<Rightarrow> table \<Rightarrow>
    table \<times> (store_error + nat)" where
  "RequeueDLQIDs flt ids now t =
     (if ids = [] then (t, Inr 0)
      else exec_update flt (dlq_guard (map TrimSpace ids)) (requeue_dlq_set now) t)"

definition RetryNow :: "db_faults \<Rightarrow> go_time \<Rightarrow> table \<Rightarrow> table \<times> (store_error + nat)" where
  "RetryNow flt now t = exec_update flt retry_now_guard (retry_now_set now) t"

text \<open>
  \<^verbatim>\<open>SELECT status, COUNT(*) FROM jobs GROUP BY status\<close>: the rows are taken one after the other, each
  raising the counter of its group or opening a new group at 1.  The result map is created with
  five entries at 0 and each scanned group overwrites its entry; an iteration error just ends the
  loop.
\<close>

fun count_in_group :: "job_status \<Rightarrow> (job_status \<times> nat) list \<Rightarrow> (job_status \<times> nat) list" where
  "count_in_group s [] = [(s, 1)]"
| "count_in_group s ((s', n) # gs) =
     (if s' = s then (s', Suc n) # gs else (s', n) # count_in_group s gs)"

definition status_groups :: "table \<Rightarrow> (job_status \<times> nat) list" where
  "status_groups t = fold (\<lambda>r. count_in_group (row_status r)) t []"

definition empty_counts :: "job_status \<rightharpoonup> nat" where
  "empty_counts =
     [StatusQueued \<mapsto> 0, StatusProcessing \<mapsto> 0, StatusRetry \<mapsto> 0, StatusSent \<mapsto> 0, StatusDLQ \<mapsto> 0]"

fun scan_counts :: "db_faults \<Rightarrow> nat \<Rightarrow> (job_status \<times> nat) list \<Rightarrow> (job_status \<rightharpoonup> nat) \<Rightarrow>
    store_error + (job_status \<rightharpoonup> nat)" where
  "scan_counts flt i [] out = Inr out"
| "scan_counts flt i ((s, n) # gs) out =
     (case flt (NextRow 0 i) of
        Some _ \<Rightarrow> Inr out
      | None \<Rightarrow>
          (case flt (ScanRow 0 i) of
             Some e \<Rightarrow> Inl (DbError e)
           | None \<Rightarrow> scan_counts flt (Suc i) gs (out(s \<mapsto> n))))"

definition CountByStatus :: "db_faults \<Rightarrow> table \<Rightarrow> store_error + (job_status \<rightharpoonup> nat)" where
  "CountByStatus flt t =
     (case flt (QueryContext 0) of
        Some e \<Rightarrow> Inl (DbError e)
      | None \<Rightarrow> scan_counts flt 0 (status_groups t) empty_counts)"

text \<open>\<^verbatim>\<open>ORDER BY updated_at DESC LIMIT ?\<close>\<close>

definition ListDLQ :: "sqlite_store \<Rightarrow> db_faults \<Rightarrow> go_time \<Rightarrow> int \<Rightarrow> table \<Rightarrow>
    store_error + job list" where
  "ListDLQ S flt now limit0 t =
     (let limit = (if limit0 \<le> 0 then 1000 else limit0)
      in case flt (QueryContext 0) of
           Some e \<Rightarrow> Inl (DbError e)
         | None \<Rightarrow>
             scanJobs S flt now 0
               (take (nat limit) (sort_key (\<lambda>r. - row_updated_at r)
                  (visit S (filter (\<lambda>r. row_status r = StatusDLQ) t)))) [])"

definition GetDLQByIDs :: "sqlite_store \<Rightarrow> db_faults \<Rightarrow> go_time \<Rightarrow> string list \<Rightarrow> table \<Rightarrow>
    store_error + job list" where
  "GetDLQByIDs S flt now ids t =
     (if ids = [] then Inr []
      else case flt (QueryContext 0) of
        Some e \<Rightarrow> Inl (DbError e)
      | None \<Rightarrow>
          scanJobs S flt now 0 (visit S (filter (dlq_guard (map TrimSpace ids)) t)) [])"

end
