(* ===== verification/Queue_Correct.thy ===== *)
theory Queue_Correct
  imports Queue_Store
begin

text \<open>
  What the store operations guarantee: enqueuing is all-or-nothing, a claim leases exactly the due
  jobs it picks, oldest first and within the batch limits, marking refines the abstract queue,
  recovery returns expired leases, and every operation under every database fault keeps the table
  well-formed and moves each job along its life cycle (the step relation \<open>store_step\<close>).
\<close>

section \<open>Enqueuing\<close>

definition enqueued_as :: "sqlite_store \<Rightarrow> go_time \<Rightarrow> string \<Rightarrow> message option \<Rightarrow> job_row \<Rightarrow> bool" where
  "enqueued_as S now sender m r \<longleftrightarrow>
     (\<exists>msg rcpt rest payload.
        m = Some msg \<and> msg_recipients msg = rcpt # rest \<and> marshal_message S msg = Inr payload \<and>
        r = queued_row (row_id r) payload (ToLower (unicode_lower S) (TrimSpace sender))
              (ToLower (unicode_lower S) (TrimSpace (party_email rcpt))) now)"

lemma enqueue_rows_Inr:
  "enqueue_rows S flt ulid now sender i ms t ids = Inr (t', ids') \<Longrightarrow>
     \<exists>new. t' = t @ new \<and> ids' = ids @ map row_id new \<and>
       list_all2 (enqueued_as S now sender) ms new \<and>
       (distinct (map row_id t) \<longrightarrow> distinct (map row_id t'))"
proof (induction S flt ulid now sender i ms t ids rule: enqueue_rows.induct)
  case (1 S flt ulid now sender i t ids)
  then show ?case by simp
next
  case (2 S flt ulid now sender i m ms t ids)
  from "2.prems" obtain msg rcpt rest payload where
    m: "m = Some msg" "msg_recipients msg = rcpt # rest" "marshal_message S msg = Inr payload"
    and flt: "flt (ExecContext i) = None" and fresh: "ulid i \<notin> row_id ` set t"
    by (auto simp: Let_def split: option.splits list.splits sum.splits if_splits)
  let ?row = "queued_row (ulid i) payload (ToLower (unicode_lower S) (TrimSpace sender))
                (ToLower (unicode_lower S) (TrimSpace (party_email rcpt))) now"
  have row_id: "row_id ?row = ulid i" by (simp add: queued_row_def)
  from "2.prems" m flt fresh have
    "enqueue_rows S flt ulid now sender (Suc i) ms (t @ [?row]) (ids @ [ulid i]) = Inr (t', ids')"
    by (simp add: Let_def)
  with "2.IH" m flt fresh obtain new where new: "t' = (t @ [?row]) @ new"
      "ids' = (ids @ [ulid i]) @ map row_id new" "list_all2 (enqueued_as S now sender) ms new"
      "distinct (map row_id (t @ [?row])) \<longrightarrow> distinct (map row_id t')"
    by blast
  have "enqueued_as S now sender m ?row"
    using m row_id by (auto simp: enqueued_as_def)
  with new row_id fresh show ?case
    by (intro exI [of _ "?row # new"]) auto
qed

lemma queued_row_wf: "wf_row (queued_row i p s r now)"
  by (simp add: queued_row_def wf_row_def)

lemma enqueued_as_wf: "enqueued_as S now sender m r \<Longrightarrow> wf_row r"
  unfolding enqueued_as_def by (metis queued_row_wf)

lemma EnqueueTx_cases:
  "EnqueueTx S flt ulid now sender msgs t = (t', res) \<Longrightarrow>
     (\<exists>e. res = Inl e \<and> t' = t) \<or>
     (\<exists>new. res = Inr (map row_id new) \<and> t' = t @ new \<and>
        list_all2 (enqueued_as S now sender) msgs new \<and>
        (distinct (map row_id t) \<longrightarrow> distinct (map row_id t')))"
  by (auto simp: EnqueueTx_def dest!: enqueue_rows_Inr
      split: if_splits option.splits sum.splits prod.splits)

lemma EnqueueTx_inv:
  assumes "store_inv t" and "EnqueueTx S flt ulid now sender msgs t = (t', res)"
  shows "store_inv t'"
  using EnqueueTx_cases [OF assms(2)]
proof (elim disjE exE conjE)
  fix new assume "t' = t @ new" and new: "list_all2 (enqueued_as S now sender) msgs new"
    and "distinct (map row_id t) \<longrightarrow> distinct (map row_id t')"
  moreover from new have "list_all wf_row new"
    by (induction rule: list_all2_induct) (auto dest: enqueued_as_wf)
  ultimately show ?thesis using assms(1) by (auto simp: store_inv_def)
qed (use assms(1) in auto)

lemma EnqueueTx_evolves:
  "EnqueueTx S flt ulid now sender msgs t = (t', res) \<Longrightarrow> table_evolves t t'"
  by (drule EnqueueTx_cases) auto

text \<open>C2: Enqueuing is all-or-nothing.  On every error the table is unchanged; on success exactly one
  queued row per message is appended, due at once, with attempt count 0, the marshalled payload and
  the normalised addresses, and the identifiers returned are the new rows' identifiers in message
  order.\<close>

theorem enqueue_all_or_nothing:
  "case EnqueueTx S flt ulid now sender msgs t of
     (t', Inl e) \<Rightarrow> t' = t
   | (t', Inr ids) \<Rightarrow> \<exists>new. t' = t @ new \<and> ids = map row_id new \<and>
       list_all2 (enqueued_as S now sender) msgs new"
proof (cases "EnqueueTx S flt ulid now sender msgs t")
  case (Pair t' res)
  then show ?thesis by (auto dest!: EnqueueTx_cases split: sum.splits)
qed

lemma enqueue_rows_succeeds:
  assumes "\<And>k. flt (ExecContext k) = None"
    and "\<And>m. m \<in> set ms \<Longrightarrow>
          \<exists>msg p. m = Some msg \<and> msg_recipients msg \<noteq> [] \<and> marshal_message S msg = Inr p"
    and "inj ulid" and "\<And>k. i \<le> k \<Longrightarrow> ulid k \<notin> row_id ` set t"
  shows "\<exists>r. enqueue_rows S flt ulid now sender i ms t ids = Inr r"
  using assms(2,4)
proof (induction ms arbitrary: i t ids)
  case Nil
  then show ?case by simp
next
  case (Cons m ms)
  obtain msg p rcpt rest where m: "m = Some msg" "msg_recipients msg = rcpt # rest"
      "marshal_message S msg = Inr p"
    using Cons.prems(1) [of m] by (auto simp: neq_Nil_conv)
  have fresh: "ulid i \<notin> row_id ` set t" using Cons.prems(2) by blast
  let ?row = "queued_row (ulid i) p (ToLower (unicode_lower S) (TrimSpace sender))
                (ToLower (unicode_lower S) (TrimSpace (party_email rcpt))) now"
  have "ulid k \<notin> row_id ` set (t @ [?row])" if "Suc i \<le> k" for k
    using Cons.prems(2) [of k] that injD [OF assms(3), of k i] by (auto simp: queued_row_def)
  then have "\<exists>r. enqueue_rows S flt ulid now sender (Suc i) ms (t @ [?row]) (ids @ [ulid i]) = Inr r"
    using Cons.IH Cons.prems(1) by simp
  then show ?case using m fresh assms(1) by (simp add: Let_def)
qed

text \<open>C40: When no database call fails, every message has a recipient and marshals, and the
  identifier generator never repeats an identifier, enqueuing succeeds.\<close>

theorem enqueue_succeeds:
  assumes "\<And>c. flt c = None"
    and "\<And>m. m \<in> set msgs \<Longrightarrow>
          \<exists>msg p. m = Some msg \<and> msg_recipients msg \<noteq> [] \<and> marshal_message S msg = Inr p"
    and "inj ulid" and "\<And>k. ulid k \<notin> row_id ` set t"
  shows "\<exists>ids t'. EnqueueTx S flt ulid now sender msgs t = (t', Inr ids)"
proof -
  obtain r where "enqueue_rows S flt ulid now sender 0 msgs t [] = Inr r"
    using enqueue_rows_succeeds [of flt msgs S ulid 0 t now sender "[]"] assms by blast
  then show ?thesis
    using assms(1) by (cases r) (simp add: EnqueueTx_def)
qed

section \<open>Claiming\<close>

abbreviation row_bytes :: "job_row \<Rightarrow> int" where
  "row_bytes r \<equiv> job_bytes (row_payload_json r)"

text \<open>The job built from a claimed row.\<close>

definition claimed_job :: "sqlite_store \<Rightarrow> go_time \<Rightarrow> job_row \<Rightarrow> job" where
  "claimed_job S now r = (scan_row S now r)\<lparr>job_Message :=
     (case unmarshal_message S (row_payload_json r) of Inl _ \<Rightarrow> None | Inr m \<Rightarrow> Some m)\<rparr>"

lemma claim_set_keeps [simp]:
  "row_payload_json (claim_set w now r) = row_payload_json r"
  "row_created_at (claim_set w now r) = row_created_at r"
  by (simp_all add: claim_set_def)

lemma claimed_job_simps [simp]:
  "job_ID (claimed_job S now r) = row_id r"
  "job_PayloadJSON (claimed_job S now r) = row_payload_json r"
  "job_AttemptCount (claimed_job S now r) = row_attempt_count r"
  "job_CreatedAt (claimed_job S now r) = row_created_at r"
  by (simp_all add: claimed_job_def scan_row_def datetime_def)

lemma pick_ids_prefix:
  "pick_ids flt stop i rs ids b = Inr ids' \<Longrightarrow> \<exists>k. ids' = ids @ map row_id (take k rs)"
proof (induction flt stop i rs ids b rule: pick_ids.induct)
  case (1 flt stop i ids bytes)
  then show ?case by simp
next
  case (2 flt stop i r rs ids bytes)
  show ?case
  proof (cases "ids' = ids")
    case True
    then show ?thesis by (intro exI [of _ 0]) simp
  next
    case False
    with 2 obtain k where "ids' = (ids @ [row_id r]) @ map row_id (take k rs)"
      by (force simp: Let_def split: option.splits if_splits)
    then show ?thesis by (intro exI [of _ "Suc k"]) simp
  qed
qed

lemma pick_ids_bounds:
  assumes "pick_ids flt (batch_full mc mb) i rs ids b = Inr ids'" and "1 \<le> mc"
    and "int (length ids) \<le> mc" and "length ids = 0 \<and> b = 0 \<or> b \<le> mb \<or> length ids = 1"
  shows "\<exists>k. ids' = ids @ map row_id (take k rs) \<and> int (length ids') \<le> mc \<and>
    (length ids' \<le> 1 \<or> b + (\<Sum>r\<leftarrow>take k rs. row_bytes r) \<le> mb)"
  using assms
proof (induction flt "batch_full mc mb" i rs ids b rule: pick_ids.induct)
  case (1 flt i ids bytes)
  then show ?case by (intro exI [of _ 0]) auto
next
  case (2 flt i r rs ids bytes)
  show ?case
  proof (cases "ids' = ids")
    case True
    with "2.prems" show ?thesis by (intro exI [of _ 0]) auto
  next
    case False
    with "2.prems"(1) have step: "flt (NextRow 0 i) = None" "flt (ScanRow 0 i) = None"
      "\<not> batch_full mc mb (int (length ids)) bytes (row_bytes r)"
      "pick_ids flt (batch_full mc mb) (Suc i) rs (ids @ [row_id r]) (bytes + row_bytes r) = Inr ids'"
      by (auto simp: Let_def split: option.splits if_splits)
    then have "int (length (ids @ [row_id r])) \<le> mc"
      and "bytes + row_bytes r \<le> mb \<or> length (ids @ [row_id r]) = 1"
      using "2.prems"(2,3) by (auto simp: batch_full_def)
    then obtain k where "ids' = (ids @ [row_id r]) @ map row_id (take k rs)"
        "int (length ids') \<le> mc"
        "length ids' \<le> 1 \<or> (bytes + row_bytes r) + (\<Sum>r\<leftarrow>take k rs. row_bytes r) \<le> mb"
      using "2.hyps" step "2.prems"(2) by blast
    then show ?thesis by (intro exI [of _ "Suc k"]) auto
  qed
qed

lemma visit_mset [simp]: "mset (visit S rs) = mset rs"
  by (simp add: visit_def Let_def)

lemma visit_set [simp]: "set (visit S rs) = set rs"
  by (rule mset_eq_setD [OF visit_mset])

lemma visit_Nil [simp]: "visit S [] = []"
  using visit_mset [of S "[]"] by (simp del: visit_mset)

lemma visit_distinct [simp]: "distinct (map f (visit S rs)) = distinct (map f rs)"
  by (rule mset_eq_distinct_map) simp

lemma sort_key_distinct_map [simp]: "distinct (map f (sort_key g xs)) = distinct (map f xs)"
  by (rule mset_eq_distinct_map) simp

lemma claim_candidates_due:
  "set (claim_candidates S now limit t) \<subseteq> {r \<in> set t. claimable now r}"
proof
  fix r assume "r \<in> set (claim_candidates S now limit t)"
  then have "r \<in> set (sort_key row_created_at (visit S (filter (claimable now) t)))"
    unfolding claim_candidates_def by (rule in_set_takeD)
  then show "r \<in> {r \<in> set t. claimable now r}"
    by simp
qed

lemma claim_candidates_distinct:
  assumes "distinct (map row_id t)"
  shows "distinct (map row_id (claim_candidates S now limit t))"
  unfolding claim_candidates_def
  using assms by (simp add: take_map [symmetric] distinct_map_filter)

lemma claimed_rows_eq:
  assumes "distinct (map row_id t)"
    and "set picked \<subseteq> {r \<in> set t. claimable now r}"
    and "t' = update_where (claim_guard now (map row_id picked)) (claim_set (workerID S) now) t"
  shows "set (claimed_rows S (map row_id picked) t') = claim_set (workerID S) now ` set picked"
    and "distinct (map row_id (claimed_rows S (map row_id picked) t'))"
proof -
  let ?sel = "\<lambda>r. row_status r = StatusProcessing \<and> row_worker_id r = Some (workerID S) \<and>
    row_id r \<in> set (map row_id picked)"
  have same: "r = p" if "r \<in> set t" "p \<in> set picked" "row_id r = row_id p" for r p
    using that assms(1,2) by (metis (no_types, lifting) distinct_map_filter_inj mem_Collect_eq subsetD)
  have "set (filter ?sel t') = claim_set (workerID S) now ` set picked"
  proof (intro equalityI subsetI)
    fix r' assume "r' \<in> set (filter ?sel t')"
    then obtain r p where "r \<in> set t" "p \<in> set picked" "row_id r' = row_id p"
      and r': "r' = (if claim_guard now (map row_id picked) r then claim_set (workerID S) now r else r)"
      unfolding assms(3) update_where_def by auto
    moreover from r' have "row_id r' = row_id r" by simp
    ultimately have "r = p" using same by simp
    with \<open>p \<in> set picked\<close> assms(2) r' show "r' \<in> claim_set (workerID S) now ` set picked"
      by (auto simp: claim_guard_def)
  next
    fix r' assume "r' \<in> claim_set (workerID S) now ` set picked"
    then obtain p where "p \<in> set picked" "r' = claim_set (workerID S) now p" by auto
    with assms(2) show "r' \<in> set (filter ?sel t')"
      unfolding assms(3) update_where_def by (auto simp: claim_guard_def claim_set_def image_iff)
  qed
  then show "set (claimed_rows S (map row_id picked) t') = claim_set (workerID S) now ` set picked"
    by (simp add: claimed_rows_def)
  have "distinct (map row_id t')" using assms(1,3) by simp
  then have "distinct (map row_id (filter ?sel t'))" by (rule distinct_map_filter)
  then show "distinct (map row_id (claimed_rows S (map row_id picked) t'))"
    unfolding claimed_rows_def by simp
qed

lemma scan_claimed_Inr:
  "scan_claimed S flt now i rs out = Inr out' \<Longrightarrow>
     \<exists>k. out' = out @ map (claimed_job S now) (take k rs) \<and>
       ((\<forall>n. flt (NextRow 1 n) = None) \<longrightarrow> take k rs = rs)"
proof (induction S flt now i rs out rule: scan_claimed.induct)
  case (1 S flt now i out)
  then show ?case by simp
next
  case (2 S flt now i r rs out)
  show ?case
  proof (cases "flt (NextRow 1 i)")
    case (Some e)
    with "2.prems" show ?thesis by (intro exI [of _ 0]) auto
  next
    case None
    with "2.prems" obtain m where m: "flt (ScanRow 1 i) = None"
        "unmarshal_message S (row_payload_json r) = Inr m"
        "scan_claimed S flt now (Suc i) rs (out @ [(scan_row S now r)\<lparr>job_Message := Some m\<rparr>]) = Inr out'"
      by (auto split: option.splits sum.splits)
    have job: "(scan_row S now r)\<lparr>job_Message := Some m\<rparr> = claimed_job S now r"
      by (simp add: claimed_job_def m(2))
    from "2.IH" [OF None m(1,2,3)] obtain k where
      "out' = (out @ [claimed_job S now r]) @ map (claimed_job S now) (take k rs)"
      "(\<forall>n. flt (NextRow 1 n) = None) \<longrightarrow> take k rs = rs"
      unfolding job by blast
    then show ?thesis by (intro exI [of _ "Suc k"]) simp
  qed
qed

text \<open>What a claim did, whatever it returned.\<close>

definition claim_outcome :: "sqlite_store \<Rightarrow> db_faults \<Rightarrow> go_time \<Rightarrow> int \<Rightarrow> table \<Rightarrow> job_row list \<Rightarrow>
    table \<Rightarrow> job list \<Rightarrow> bool" where
  "claim_outcome S flt now limit t picked t' jobs \<longleftrightarrow>
     (\<exists>k. picked = take k (claim_candidates S now limit t)) \<and>
     t' = update_where (claim_guard now (map row_id picked)) (claim_set (workerID S) now) t \<and>
     (\<exists>k. jobs = map (claimed_job S now) (take k (claimed_rows S (map row_id picked) t')) \<and>
        ((\<forall>n. flt (NextRow 1 n) = None) \<longrightarrow>
           take k (claimed_rows S (map row_id picked) t') = claimed_rows S (map row_id picked) t'))"

lemma claim_outcome_nothing:
  "claim_outcome S flt now limit t [] t []"
proof -
  have "update_where (claim_guard now []) (claim_set (workerID S) now) t = t"
    by (rule update_where_none) (simp add: claim_guard_def)
  moreover have "claimed_rows S [] t = []"
    by (simp add: claimed_rows_def)
  ultimately show ?thesis
    by (auto simp: claim_outcome_def intro: exI [of _ 0])
qed

lemma claimJobs_Inr:
  "claimJobs S flt now limit stop t = (t', Inr jobs) \<Longrightarrow>
     t' = t \<and> jobs = [] \<or>
     (\<exists>ids. pick_ids flt stop 0 (claim_candidates S now limit t) [] 0 = Inr ids \<and>
        t' = update_where (claim_guard now ids) (claim_set (workerID S) now) t \<and>
        scan_claimed S flt now 0 (claimed_rows S ids t') [] = Inr jobs)"
  unfolding claimJobs_def Let_def
  by (simp split: if_split_asm option.split_asm sum.split_asm)

lemma claimJobs_Inl:
  "claimJobs S flt now limit stop t = (t', Inl e) \<Longrightarrow> t' = t"
  unfolding claimJobs_def Let_def
  by (simp split: if_split_asm option.split_asm sum.split_asm)

lemma claimJobs_cases:
  assumes "claimJobs S flt now limit stop t = (t', res)"
  shows "(\<exists>e. res = Inl e \<and> t' = t) \<or>
    (\<exists>picked jobs. res = Inr jobs \<and> claim_outcome S flt now limit t picked t' jobs \<and>
       (picked = [] \<or>
        pick_ids flt stop 0 (claim_candidates S now limit t) [] 0 = Inr (map row_id picked)))"
proof (cases "res")
  case (Inl e)
  with assms claimJobs_Inl show ?thesis by blast
next
  case (Inr jobs)
  show ?thesis
  proof (cases "t' = t \<and> jobs = []")
    case True
    with Inr claim_outcome_nothing show ?thesis by blast
  next
    case False
    with claimJobs_Inr assms Inr obtain ids where
      pick: "pick_ids flt stop 0 (claim_candidates S now limit t) [] 0 = Inr ids"
      and t': "t' = update_where (claim_guard now ids) (claim_set (workerID S) now) t"
      and scan: "scan_claimed S flt now 0 (claimed_rows S ids t') [] = Inr jobs"
      by blast
    from pick_ids_prefix [OF pick] obtain k where
      ids: "ids = map row_id (take k (claim_candidates S now limit t))" by auto
    with t' scan_claimed_Inr [OF scan] pick Inr show ?thesis
      unfolding claim_outcome_def by auto
  qed
qed

lemma claim_dispatch_cases:
  assumes "ClaimDispatchBatch S flt now limit lease maxCount maxBytes t = (t', res)"
  shows "(\<exists>e. res = Inl e \<and> t' = t) \<or>
    (\<exists>picked jobs. res = Inr jobs \<and> claim_outcome S flt now limit t picked t' jobs \<and>
       (picked = [] \<or>
        pick_ids flt (batch_full (default_max_count maxCount) (default_max_bytes maxBytes)) 0
          (claim_candidates S now limit t) [] 0 = Inr (map row_id picked)))"
  by (rule claimJobs_cases [OF assms [unfolded ClaimDispatchBatch_def]])

lemma claimJobs_table:
  "claimJobs S flt now limit stop t = (t', res) \<Longrightarrow>
     t' = t \<or> (\<exists>ids. t' = update_where (claim_guard now ids) (claim_set (workerID S) now) t)"
  by (cases res) (blast dest: claimJobs_Inl claimJobs_Inr)+

lemma claimJobs_inv:
  "store_inv t \<Longrightarrow> claimJobs S flt now limit stop t = (t', res) \<Longrightarrow> store_inv t'"
  by (drule claimJobs_table) (auto intro: update_invs)

lemma claimJobs_evolves:
  "claimJobs S flt now limit stop t = (t', res) \<Longrightarrow> table_evolves t t'"
  by (drule claimJobs_table) (auto intro: updates_evolve)

lemma find_row_mem: "distinct (map row_id t) \<Longrightarrow> r \<in> set t \<Longrightarrow> find_row t (row_id r) = Some r"
  unfolding find_row_def by (induction t) force+

lemma find_row_Some: "find_row t i = Some r \<Longrightarrow> r \<in> set t \<and> row_id r = i"
  unfolding find_row_def by (induction t) (auto split: if_splits)

lemma claim_outcome_picked:
  assumes "claim_outcome S flt now limit t picked t' jobs"
    and "distinct (map row_id t)"
  shows "set picked \<subseteq> {r \<in> set t. claimable now r}" and "distinct (map row_id picked)"
proof -
  obtain k where k: "picked = take k (claim_candidates S now limit t)"
    using assms(1) by (auto simp: claim_outcome_def)
  show "set picked \<subseteq> {r \<in> set t. claimable now r}"
    unfolding k by (rule subset_trans [OF set_take_subset claim_candidates_due])
  show "distinct (map row_id picked)"
    using claim_candidates_distinct [OF assms(2)] unfolding k by (simp add: take_map [symmetric])
qed

lemma claim_outcome_find:
  assumes "claim_outcome S flt now limit t picked t' jobs"
    and "distinct (map row_id t)"
  shows "r \<in> set picked \<Longrightarrow> find_row t (row_id r) = Some r \<and> claimable now r \<and>
           find_row t' (row_id r) = Some (claim_set (workerID S) now r)"
    and "i \<notin> row_id ` set picked \<Longrightarrow> find_row t' i = find_row t i"
proof -
  have t': "t' = update_where (claim_guard now (map row_id picked)) (claim_set (workerID S) now) t"
    using assms(1) by (auto simp: claim_outcome_def)
  show "find_row t (row_id r) = Some r \<and> claimable now r \<and>
      find_row t' (row_id r) = Some (claim_set (workerID S) now r)" if "r \<in> set picked"
  proof -
    have "r \<in> set t" "claimable now r" using claim_outcome_picked(1) [OF assms] that by auto
    with that assms(2) show ?thesis
      by (auto simp: t' claim.update_find find_row_mem claim_guard_def)
  qed
  show "find_row t' i = find_row t i" if "i \<notin> row_id ` set picked"
    unfolding t' claim.update_find using that
    by (cases "find_row t i") (auto simp: claim_guard_def dest: find_row_Some)
qed

lemma claim_outcome_jobs:
  assumes "claim_outcome S flt now limit t picked t' jobs"
    and "distinct (map row_id t)"
  shows "\<exists>rs. jobs = map (claimed_job S now) rs \<and> distinct (map row_id rs) \<and>
    sorted (map row_created_at rs) \<and> set rs \<subseteq> claim_set (workerID S) now ` set picked \<and>
    ((\<forall>n. flt (NextRow 1 n) = None) \<longrightarrow> set rs = claim_set (workerID S) now ` set picked)"
proof -
  let ?rows = "claimed_rows S (map row_id picked) t'"
  have t': "t' = update_where (claim_guard now (map row_id picked)) (claim_set (workerID S) now) t"
    using assms(1) by (auto simp: claim_outcome_def)
  note rows = claimed_rows_eq [OF assms(2) claim_outcome_picked(1) [OF assms] t']
  obtain k where "jobs = map (claimed_job S now) (take k ?rows)"
      "(\<forall>n. flt (NextRow 1 n) = None) \<longrightarrow> take k ?rows = ?rows"
    using assms(1) by (auto simp: claim_outcome_def)
  moreover have "distinct (map row_id (take k ?rows))"
    using rows(2) by (simp add: take_map [symmetric])
  moreover have "sorted (map row_created_at (take k ?rows))"
    by (simp add: claimed_rows_def take_map [symmetric])
  moreover have "set (take k ?rows) \<subseteq> claim_set (workerID S) now ` set picked"
    using set_take_subset [of k ?rows] unfolding rows(1) .
  ultimately show ?thesis using rows(1) by (intro exI [of _ "take k ?rows"]) simp
qed

lemma claim_outcome_job_ids:
  assumes "claim_outcome S flt now limit t picked t' jobs"
    and "distinct (map row_id t)"
  shows "job_ID ` set jobs \<subseteq> row_id ` set picked"
proof -
  obtain rs where "jobs = map (claimed_job S now) rs"
      "set rs \<subseteq> claim_set (workerID S) now ` set picked"
    using claim_outcome_jobs [OF assms] by blast
  then show ?thesis by (auto simp: image_subset_iff)
qed

text \<open>C7: A dispatch claim that fails leaves the table unchanged.  One that succeeds leases a set of
  distinct jobs that were queued or waiting for a retry and due: each of them, and no other job, is
  now in status processing with the worker's identity and the claim's time.  Every job handed to
  the caller is leased, and unless the iteration over the claimed rows broke off, every leased job
  is handed to the caller.\<close>

theorem claim_leases_due_jobs:
  assumes "store_inv t"
    and "ClaimDispatchBatch S flt now limit lease maxCount maxBytes t = (t', res)"
  shows "case res of
      Inl e \<Rightarrow> t' = t
    | Inr jobs \<Rightarrow> \<exists>ids. distinct ids \<and> set (map job_ID jobs) \<subseteq> set ids \<and>
        ((\<forall>n. flt (NextRow 1 n) = None) \<longrightarrow> set (map job_ID jobs) = set ids) \<and>
        (\<forall>i \<in> set ids. \<exists>r. find_row t i = Some r \<and> claimable now r \<and>
           find_row t' i = Some (claim_set (workerID S) now r)) \<and>
        (\<forall>i. i \<notin> set ids \<longrightarrow> find_row t' i = find_row t i)"
proof -
  have dist: "distinct (map row_id t)" using assms(1) by (simp add: store_inv_def)
  from claim_dispatch_cases [OF assms(2)] consider
      e where "res = Inl e" "t' = t"
    | picked jobs where "res = Inr jobs" "claim_outcome S flt now limit t picked t' jobs"
    by blast
  then show ?thesis
  proof cases
    case (2 picked jobs)
    obtain rs where rs: "jobs = map (claimed_job S now) rs"
        "set rs \<subseteq> claim_set (workerID S) now ` set picked"
        "(\<forall>n. flt (NextRow 1 n) = None) \<longrightarrow> set rs = claim_set (workerID S) now ` set picked"
      using claim_outcome_jobs [OF 2(2) dist] by blast
    have "set (map job_ID jobs) = row_id ` set rs" using rs(1) by auto
    moreover have "row_id ` claim_set (workerID S) now ` set picked = row_id ` set picked"
      by (simp add: image_image)
    ultimately have "set (map job_ID jobs) \<subseteq> set (map row_id picked)"
        "(\<forall>n. flt (NextRow 1 n) = None) \<longrightarrow> set (map job_ID jobs) = set (map row_id picked)"
      using rs(2,3) by auto
    with 2(1) claim_outcome_picked(2) [OF 2(2) dist]
      claim_outcome_find [OF 2(2) dist] show ?thesis
      by (auto intro!: exI [of _ "map row_id picked"])
  qed simp
qed

lemma claim_outcome_size:
  assumes "claim_outcome S flt now limit t picked t' jobs"
    and "distinct (map row_id t)"
  shows "length jobs \<le> length picked"
    and "(\<Sum>j\<leftarrow>jobs. job_bytes (job_PayloadJSON j)) \<le> (\<Sum>r\<leftarrow>picked. row_bytes r)"
proof -
  let ?f = "claim_set (workerID S) now"
  obtain rs where rs: "jobs = map (claimed_job S now) rs" "distinct (map row_id rs)"
      "set rs \<subseteq> ?f ` set picked"
    using claim_outcome_jobs [OF assms] by blast
  have dp: "distinct (map row_id picked)" by (rule claim_outcome_picked(2) [OF assms])
  have drs: "distinct rs" using rs(2) by (rule distinct_mapD)
  have "length rs = card (set rs)" using drs by (simp add: distinct_card)
  also have "\<dots> \<le> card (?f ` set picked)" using rs(3) by (intro card_mono) auto
  also have "\<dots> \<le> card (set picked)" by (intro card_image_le) simp
  also have "\<dots> = length picked" using dp by (simp add: distinct_card distinct_mapD)
  finally show "length jobs \<le> length picked" using rs(1) by simp
  have inj: "inj_on ?f (set picked)"
    using dp by (intro inj_onI) (metis claim.set_clause_id distinct_map_filter_inj)
  have "(\<Sum>j\<leftarrow>jobs. job_bytes (job_PayloadJSON j)) = sum row_bytes (set rs)"
    using rs(1) drs by (simp add: comp_def sum_list_distinct_conv_sum_set)
  also have "\<dots> \<le> sum row_bytes (?f ` set picked)"
    using rs(3) by (intro sum_mono2) (auto simp: job_bytes_def)
  also have "\<dots> = sum row_bytes (set picked)"
    using inj by (simp add: sum.reindex comp_def)
  also have "\<dots> = (\<Sum>r\<leftarrow>picked. row_bytes r)"
    using dp by (simp add: sum_list_distinct_conv_sum_set distinct_mapD)
  finally show "(\<Sum>j\<leftarrow>jobs. job_bytes (job_PayloadJSON j)) \<le> (\<Sum>r\<leftarrow>picked. row_bytes r)" .
qed

lemma claim_bounds:
  assumes "store_inv t"
    and "ClaimDispatchBatch S flt now limit lease maxCount maxBytes t = (t', Inr jobs)"
  shows "length jobs \<le> nat limit \<and> int (length jobs) \<le> default_max_count maxCount \<and>
    (length jobs \<le> 1 \<or>
     (\<Sum>j\<leftarrow>jobs. job_bytes (job_PayloadJSON j)) \<le> default_max_bytes maxBytes)"
proof -
  let ?mc = "default_max_count maxCount" and ?mb = "default_max_bytes maxBytes"
  have dist: "distinct (map row_id t)" using assms(1) by (simp add: store_inv_def)
  have mc: "1 \<le> ?mc" by (simp add: default_max_count_def)
  obtain picked where out: "claim_outcome S flt now limit t picked t' jobs"
      and pick: "picked = [] \<or>
        pick_ids flt (batch_full ?mc ?mb) 0 (claim_candidates S now limit t) [] 0 =
          Inr (map row_id picked)"
    using claim_dispatch_cases [OF assms(2)] by blast
  note size = claim_outcome_size [OF out dist]
  obtain k where k: "picked = take k (claim_candidates S now limit t)"
    using out by (auto simp: claim_outcome_def)
  have "length picked \<le> nat limit" by (simp add: k claim_candidates_def)
  moreover have "int (length picked) \<le> ?mc \<and>
      (length picked \<le> 1 \<or> (\<Sum>r\<leftarrow>picked. row_bytes r) \<le> ?mb)"
  proof (cases "picked = []")
    case False
    with pick have "pick_ids flt (batch_full ?mc ?mb) 0 (claim_candidates S now limit t) [] 0 =
        Inr (map row_id picked)"
      by blast
    from pick_ids_bounds [OF this mc] mc obtain n where n: "map row_id picked = map row_id (take n (claim_candidates S now limit t))"
        "int (length picked) \<le> ?mc"
        "length picked \<le> 1 \<or> (\<Sum>r\<leftarrow>take n (claim_candidates S now limit t). row_bytes r) \<le> ?mb"
      by auto
    from n(1) have "length picked = length (take n (claim_candidates S now limit t))"
      by (rule map_eq_imp_length_eq)
    then have "picked = take n (claim_candidates S now limit t)"
      unfolding k by (metis length_take min_def take_all_iff take_take)
    with n show ?thesis by simp
  qed (use mc in simp)
  ultimately show ?thesis using size by linarith
qed

text \<open>C19: A dispatch batch respects its limits: at most \<open>limit\<close> and at most \<open>maxCount\<close> jobs (500
  when the configured value is not positive), and an estimated size of at most \<open>maxBytes\<close> (5 MiB by
  default) unless the batch is a single job.\<close>

theorem claim_batch_bounds:
  assumes "store_inv t"
    and "ClaimDispatchBatch S flt now limit lease maxCount maxBytes t = (t', Inr jobs)"
  shows "length jobs \<le> nat limit \<and> int (length jobs) \<le> default_max_count maxCount \<and>
    (length jobs \<le> 1 \<or>
     (\<Sum>j\<leftarrow>jobs. job_bytes (job_PayloadJSON j)) \<le> default_max_bytes maxBytes)"
  by (rule claim_bounds [OF assms])

text \<open>C22: Claims are first in, first out: the returned jobs are ordered by creation time, and no due
  job that was passed over is older than a leased one.\<close>

theorem claim_oldest_first:
  assumes "store_inv t"
    and "ClaimDispatchBatch S flt now limit lease maxCount maxBytes t = (t', Inr jobs)"
  shows "sorted (map job_CreatedAt jobs) \<and>
    (\<forall>j \<in> set jobs. \<forall>r \<in> set t. claimable now r \<and> find_row t' (row_id r) = Some r \<longrightarrow>
       job_CreatedAt j \<le> row_created_at r)"
proof -
  have dist: "distinct (map row_id t)" using assms(1) by (simp add: store_inv_def)
  obtain picked where out: "claim_outcome S flt now limit t picked t' jobs"
    using claim_dispatch_cases [OF assms(2)] by blast
  obtain rs where rs: "jobs = map (claimed_job S now) rs" "sorted (map row_created_at rs)"
      "set rs \<subseteq> claim_set (workerID S) now ` set picked"
    using claim_outcome_jobs [OF out dist] by blast
  let ?due = "visit S (filter (claimable now) t)"
  obtain k where "picked = take k (claim_candidates S now limit t)"
    using out by (auto simp: claim_outcome_def)
  then have k: "picked = take (min k (nat limit)) (sort_key row_created_at ?due)"
    by (simp add: claim_candidates_def)
  have "job_CreatedAt j \<le> row_created_at r"
    if j: "j \<in> set jobs" and r: "r \<in> set t" "claimable now r" "find_row t' (row_id r) = Some r" for j r
  proof -
    obtain p where p: "p \<in> set picked" "job_CreatedAt j = row_created_at p"
      using j rs(1,3) by (fastforce simp: claim_set_def)
    have "r \<notin> set picked"
    proof
      assume "r \<in> set picked"
      then have "find_row t' (row_id r) = Some (claim_set (workerID S) now r)"
        using claim_outcome_find(1) [OF out dist] by blast
      with r(2,3) show False by (auto simp: claimable_def claim_set_def dest: arg_cong [of _ _ row_status])
    qed
    moreover have "r \<in> set ?due" using r(1,2) by simp
    ultimately show ?thesis
      using p sort_key_take_le [of p "min k (nat limit)" row_created_at ?due r] unfolding k by simp
  qed
  moreover have "map job_CreatedAt jobs = map row_created_at rs" by (simp add: rs(1))
  ultimately show ?thesis using rs(2) by simp
qed

text \<open>C17: Leases are exclusive.  Two claims in a row, by the same or by different stores, with no
  expiry or outcome recorded in between, never hand out the same job twice.\<close>

theorem claims_are_disjoint:
  assumes "store_inv t"
    and "ClaimDispatchBatch S1 flt1 now1 limit1 lease1 maxCount1 maxBytes1 t = (t1, Inr jobs1)"
    and "ClaimDispatchBatch S2 flt2 now2 limit2 lease2 maxCount2 maxBytes2 t1 = (t2, Inr jobs2)"
  shows "job_ID ` set jobs1 \<inter> job_ID ` set jobs2 = {}"
proof -
  have inv1: "store_inv t1"
    using claimJobs_inv assms(1,2) unfolding ClaimDispatchBatch_def by blast
  have dist: "distinct (map row_id t)" "distinct (map row_id t1)"
    using assms(1) inv1 by (simp_all add: store_inv_def)
  obtain p1 where p1: "claim_outcome S1 flt1 now1 limit1 t p1 t1 jobs1"
    using claim_dispatch_cases [OF assms(2)] by blast
  obtain p2 where p2: "claim_outcome S2 flt2 now2 limit2 t1 p2 t2 jobs2"
    using claim_dispatch_cases [OF assms(3)] by blast
  have "row_id r \<noteq> row_id r'" if "r \<in> set p1" "r' \<in> set p2" for r r'
  proof
    assume "row_id r = row_id r'"
    with claim_outcome_find(1) [OF p1 dist(1) that(1)]
      claim_outcome_find(1) [OF p2 dist(2) that(2)]
    have "claimable now2 (claim_set (workerID S1) now1 r)" by (metis option.inject)
    then show False by (simp add: claimable_def claim_set_def)
  qed
  then have "row_id ` set p1 \<inter> row_id ` set p2 = {}"
    by (simp add: disjoint_iff image_iff) (metis (no_types))
  with claim_outcome_job_ids [OF p1 dist(1)] claim_outcome_job_ids [OF p2 dist(2)]
  show ?thesis by (meson disjoint_iff subsetD)
qed

section \<open>Marking refines the abstract queue\<close>

text \<open>
  The abstract effect of recording an outcome: a job in processing among \<open>ids\<close> takes the final
  status and counts one more attempt; nothing else changes.
\<close>

definition mark_jobs :: "job_status \<Rightarrow> string set \<Rightarrow> (string \<Rightarrow> (job_status \<times> int) option) \<Rightarrow>
    string \<Rightarrow> (job_status \<times> int) option" where
  "mark_jobs final ids q i =
     (case q i of
        Some (StatusProcessing, n) \<Rightarrow>
          if i \<in> ids then Some (final, n + 1) else Some (StatusProcessing, n)
      | v \<Rightarrow> v)"

lemma exec_marks_fold:
  "exec_marks flt u i js t = Inr t' \<Longrightarrow>
     t' = fold (\<lambda>i. update_where (mark_guard {i}) u) (map job_ID js) t"
  by (induction flt u i js t rule: exec_marks.induct) (auto split: option.splits)

lemma exec_marks_ok:
  "(\<And>c. flt c = None) \<Longrightarrow>
     exec_marks flt u i js t = Inr (fold (\<lambda>i. update_where (mark_guard {i}) u) (map job_ID js) t)"
  by (induction flt u i js t rule: exec_marks.induct) auto

lemma update_where_mark_empty: "update_where (mark_guard {}) u t = t"
  by (rule update_where_none) (simp add: mark_guard_def)

context mark_update
begin

lemma mark_tx_ok:
  "mark_tx flt set_clause js t = (t', None) \<Longrightarrow>
     t' = update_where (mark_guard (job_ID ` set js)) set_clause t"
  by (auto simp: mark_tx_def update_where_mark_empty mark_fold dest!: exec_marks_fold
      split: if_splits option.splits sum.splits)

lemma mark_tx_no_faults:
  "(\<And>c. flt c = None) \<Longrightarrow>
     mark_tx flt set_clause js t =
       (update_where (mark_guard (job_ID ` set js)) set_clause t, None)"
  by (simp add: mark_tx_def update_where_mark_empty exec_marks_ok mark_fold)

lemma mark_tx_refines:
  "mark_tx flt set_clause js t = (t', err) \<Longrightarrow>
     job_view t' = (if err = None then mark_jobs final (job_ID ` set js) (job_view t) else job_view t)"
proof (cases err)
  case None
  assume "mark_tx flt set_clause js t = (t', err)"
  with None have "t' = update_where (mark_guard (job_ID ` set js)) set_clause t"
    using mark_tx_ok by simp
  with None show ?thesis
    by (auto simp: fun_eq_iff mark_jobs_def mark_view)
next
  case (Some e)
  assume "mark_tx flt set_clause js t = (t', err)"
  with Some have "t' = t"
    by (auto simp: mark_tx_def split: if_splits option.splits sum.splits)
  with Some show ?thesis by simp
qed

lemma mark_tx_table:
  "mark_tx flt set_clause js t = (t', err) \<Longrightarrow>
     t' = t \<or> t' = update_where (mark_guard (job_ID ` set js)) set_clause t"
proof (cases err)
  case (Some e)
  then show "mark_tx flt set_clause js t = (t', err) \<Longrightarrow> ?thesis"
    by (auto simp: mark_tx_def split: if_splits option.splits sum.splits)
qed (simp add: mark_tx_ok)

lemma mark_tx_inv: "store_inv t \<Longrightarrow> mark_tx flt set_clause js t = (t', err) \<Longrightarrow> store_inv t'"
  by (drule mark_tx_table) (auto intro: single.update_inv)

lemma mark_tx_evolves: "mark_tx flt set_clause js t = (t', err) \<Longrightarrow> table_evolves t t'"
  by (drule mark_tx_table) (auto intro: single.update_evolves)

end

lemmas mark_defs = MarkSent_def MarkRetry_def MarkDLQ_def

text \<open>C10: Each Mark operation implements the abstract one: on success exactly the jobs of the batch
  that are still in processing take the new status with one more attempt, and on any database error
  the queue is as before.\<close>

theorem mark_refines_abstract_queue:
  "(case MarkSent flt now js bulk t of (t', err) \<Rightarrow>
      job_view t' = (if err = None then mark_jobs StatusSent (job_ID ` set js) (job_view t)
                     else job_view t)) \<and>
   (case MarkRetry flt now js next msg code t of (t', err) \<Rightarrow>
      job_view t' = (if err = None then mark_jobs StatusRetry (job_ID ` set js) (job_view t)
                     else job_view t)) \<and>
   (case MarkDLQ flt now js msg code t of (t', err) \<Rightarrow>
      job_view t' = (if err = None then mark_jobs StatusDLQ (job_ID ` set js) (job_view t)
                     else job_view t))"
  unfolding mark_defs split_def
  by (intro conjI; rule mark_sent.mark_tx_refines mark_retry.mark_tx_refines
      mark_dead.mark_tx_refines; simp)

section \<open>Recovery, dead letters and counting\<close>

lemma exec_update_table:
  "exec_update flt g u t = (t', res) \<Longrightarrow> t' = t \<or> t' = update_where g u t"
  by (auto simp: exec_update_def Let_def split: option.splits)

lemma exec_update_no_faults:
  "(\<And>c. flt c = None) \<Longrightarrow>
     exec_update flt g u t = (update_where g u t, Inr (length (filter g t)))"
  by (simp add: exec_update_def)

text \<open>C28: Recovery of expired leases.  A job in processing whose lease is older than the timeout is
  back in status retry, due immediately, with its lease cleared and its attempt count unchanged, so
  the next claim can take it; every other job is untouched, and the number of recovered jobs is
  reported.\<close>

theorem requeue_stale_recovers:
  assumes "store_inv t" and "\<And>c. flt c = None"
    and "RequeueStaleProcessing flt now leaseTimeout t = (t', res)"
  shows "res = Inr (length (filter (stale_guard (now - leaseTimeout)) t)) \<and>
    (\<forall>i. find_row t' i =
       (case find_row t i of
          None \<Rightarrow> None
        | Some r \<Rightarrow>
            if row_status r = StatusProcessing \<and>
               (\<exists>p. row_processing_started_at r = Some p \<and> p + leaseTimeout < now)
            then Some (stale_set now r) else Some r)) \<and>
    (\<forall>i r. find_row t i = Some r \<longrightarrow> stale_guard (now - leaseTimeout) r \<longrightarrow>
       (\<exists>r'. find_row t' i = Some r' \<and> claimable now r' \<and>
          row_attempt_count r' = row_attempt_count r))"
proof -
  have t': "t' = update_where (stale_guard (now - leaseTimeout)) (stale_set now) t"
    and res: "res = Inr (length (filter (stale_guard (now - leaseTimeout)) t))"
    using assms(3) exec_update_no_faults [OF assms(2)] by (auto simp: RequeueStaleProcessing_def)
  have guard: "stale_guard (now - leaseTimeout) r \<longleftrightarrow> row_status r = StatusProcessing \<and>
      (\<exists>p. row_processing_started_at r = Some p \<and> p + leaseTimeout < now)" for r
    by (auto simp: stale_guard_def split: option.splits)
  show ?thesis
    unfolding t' stale.update_find guard [symmetric]
    by (auto simp: res stale_set_def claimable_def split: option.splits)
qed

text \<open>Replaying dead letters puts exactly the named jobs that are in the dead-letter queue back
  in status retry, due at once, with the error cleared, and reports how many there were.  The
  attempt count is kept.\<close>

lemma requeue_dlq_replays:
  assumes "\<And>c. flt c = None" and "RequeueDLQIDs flt ids now t = (t', res)"
  shows "res = Inr (length (filter (dlq_guard (map TrimSpace ids)) t)) \<and>
    (\<forall>i. find_row t' i =
       (case find_row t i of
          None \<Rightarrow> None
        | Some r \<Rightarrow>
            if row_status r = StatusDLQ \<and> i \<in> TrimSpace ` set ids
            then Some (requeue_dlq_set now r) else Some r))"
proof -
  have "t' = update_where (dlq_guard (map TrimSpace ids)) (requeue_dlq_set now) t \<and>
      res = Inr (length (filter (dlq_guard (map TrimSpace ids)) t))"
  proof (cases "ids = []")
    case True
    with assms(2) show ?thesis
      by (auto simp: RequeueDLQIDs_def dlq_guard_def update_where_none)
  next
    case False
    with assms(2) exec_update_no_faults [OF assms(1)] show ?thesis
      by (auto simp: RequeueDLQIDs_def)
  qed
  then show ?thesis
    by (auto simp: replay.update_find dlq_guard_def dest: find_row_Some split: option.splits)
qed

lemma scan_counts_no_faults:
  "(\<And>c. flt c = None) \<Longrightarrow> distinct (map fst gs) \<Longrightarrow> scan_counts flt i gs out = Inr (out ++ map_of gs)"
proof (induction flt i gs out rule: scan_counts.induct)
  case (2 flt i s n gs out)
  have "scan_counts flt i ((s, n) # gs) out = scan_counts flt (Suc i) gs (out(s \<mapsto> n))"
    using "2.prems"(1) [of "NextRow 0 i"] "2.prems"(1) [of "ScanRow 0 i"] by simp
  also have "\<dots> = Inr (out(s \<mapsto> n) ++ map_of gs)"
    by (rule "2.IH") (use "2.prems" in simp_all)
  also have "out(s \<mapsto> n) ++ map_of gs = out ++ map_of ((s, n) # gs)"
    using "2.prems"(2) by (simp add: map_add_upd_left map_of_eq_None_iff dom_map_of_conv_image_fst)
  finally show ?case .
qed simp

text \<open>Grouping: one group per status that occurs, and a row counts in its own group only.\<close>

lemma count_in_group_keys: "fst ` set (count_in_group s gs) = insert s (fst ` set gs)"
  by (induction s gs rule: count_in_group.induct) auto

lemma count_in_group_distinct: "distinct (map fst gs) \<Longrightarrow> distinct (map fst (count_in_group s gs))"
  by (induction s gs rule: count_in_group.induct) (auto simp: count_in_group_keys)

lemma count_in_group_map_of:
  "map_of (count_in_group s gs) s' =
     (if s' = s then Some (case map_of gs s of None \<Rightarrow> 1 | Some n \<Rightarrow> Suc n) else map_of gs s')"
  by (induction s gs rule: count_in_group.induct) auto

lemma status_groups_distinct: "distinct (map fst (status_groups t))"
  unfolding status_groups_def by (rule fold_invariant [where Q = "\<lambda>_. True"]) (simp_all add: count_in_group_distinct)

lemma status_groups_map_of:
  "map_of (status_groups t) s =
     (case length (filter (\<lambda>r. row_status r = s) t) of 0 \<Rightarrow> None | Suc n \<Rightarrow> Some (Suc n))"
proof (induction t rule: rev_induct)
  case (snoc r t)
  have "status_groups (t @ [r]) = count_in_group (row_status r) (status_groups t)"
    by (simp add: status_groups_def)
  with snoc show ?case by (auto simp: count_in_group_map_of split: nat.splits)
qed (simp add: status_groups_def)

lemma empty_counts_total: "empty_counts s = Some 0"
  by (cases s) (simp_all add: empty_counts_def)

text \<open>C39: The queue depth by status is exact: every status is a key of the map, with the number of its
  rows, 0 for a status that does not occur, and the counts add up to the number of jobs ever
  enqueued.\<close>

theorem count_by_status_exact:
  assumes "\<And>c. flt c = None"
  shows "\<exists>counts. CountByStatus flt t = Inr counts \<and>
    (\<forall>s. counts s = Some (length (filter (\<lambda>r. row_status r = s) t))) \<and>
    (\<Sum>s \<in> UNIV. the (counts s)) = length t"
proof -
  let ?c = "\<lambda>s. length (filter (\<lambda>r. row_status r = s) t)"
  have "scan_counts flt 0 (status_groups t) empty_counts = Inr (empty_counts ++ map_of (status_groups t))"
    by (rule scan_counts_no_faults [OF assms status_groups_distinct])
  moreover have "(empty_counts ++ map_of (status_groups t)) s = Some (?c s)" for s
    by (simp add: map_add_def status_groups_map_of empty_counts_total split: nat.split)
  moreover have "(\<Sum>s \<in> UNIV. ?c s) = length t"
  proof (induction t)
    case (Cons a t)
    have "length (filter (\<lambda>r. row_status r = s) (a # t)) =
        (if row_status a = s then 1 else 0) + length (filter (\<lambda>r. row_status r = s) t)" for s
      by simp
    with Cons show ?case by (simp only: sum.distrib) simp
  qed simp
  ultimately show ?thesis using assms by (simp add: CountByStatus_def)
qed

section \<open>The store as a state machine\<close>

text \<open>
  One step is one store operation with any arguments, any identifiers, any clock readings and any
  database faults: the environment (SMTP sessions, dispatcher workers, the stale-lease loop, the
  command line) decides which operation comes next.
\<close>

inductive store_step :: "table \<Rightarrow> table \<Rightarrow> bool" where
  enqueue: "EnqueueTx S flt ulid now sender msgs t = (t', r) \<Longrightarrow> store_step t t'"
| claim_batch: "ClaimBatch S flt now limit lease t = (t', r1) \<Longrightarrow> store_step t t'"
| claim_dispatch:
    "ClaimDispatchBatch S flt now limit lease maxCount maxBytes t = (t', r1) \<Longrightarrow> store_step t t'"
| mark_sent_step: "MarkSent flt now js bulk t = (t', e) \<Longrightarrow> store_step t t'"
| mark_retry_step: "MarkRetry flt now js next msg code t = (t', e) \<Longrightarrow> store_step t t'"
| mark_dlq_step: "MarkDLQ flt now js msg code t = (t', e) \<Longrightarrow> store_step t t'"
| requeue_stale: "RequeueStaleProcessing flt now timeout t = (t', n) \<Longrightarrow> store_step t t'"
| requeue_dlq: "RequeueDLQIDs flt ids now t = (t', n) \<Longrightarrow> store_step t t'"
| retry_now: "RetryNow flt now t = (t', n) \<Longrightarrow> store_step t t'"

text \<open>The tables a relay can reach from a freshly migrated database.\<close>

inductive store_reachable :: "table \<Rightarrow> bool" where
  fresh: "store_reachable []"
| step: "store_reachable t \<Longrightarrow> store_step t t' \<Longrightarrow> store_reachable t'"

text \<open>The contract shared by all operations: the invariant is kept and the table only evolves.\<close>

definition table_ok :: "table \<Rightarrow> table \<Rightarrow> bool" where
  "table_ok t t' \<longleftrightarrow> (store_inv t \<longrightarrow> store_inv t') \<and> table_evolves t t'"

lemma exec_update_ok:
  "row_update g u \<Longrightarrow> exec_update flt g u t = (t', r) \<Longrightarrow> table_ok t t'"
  by (drule exec_update_table)
    (auto simp: table_ok_def row_update.update_inv row_update.update_evolves)

lemma claimJobs_ok: "claimJobs S flt now limit stop t = (t', r) \<Longrightarrow> table_ok t t'"
  by (auto simp: table_ok_def dest: claimJobs_inv claimJobs_evolves)

lemma store_step_ok: "store_step t t' \<Longrightarrow> table_ok t t'"
proof (induction rule: store_step.induct)
  case enqueue
  then show ?case by (auto simp: table_ok_def dest: EnqueueTx_inv EnqueueTx_evolves)
next
  case claim_batch
  then show ?case unfolding ClaimBatch_def by (rule claimJobs_ok)
next
  case claim_dispatch
  then show ?case unfolding ClaimDispatchBatch_def by (rule claimJobs_ok)
next
  case mark_sent_step
  then show ?case unfolding MarkSent_def
    by (auto simp: table_ok_def dest: mark_sent.mark_tx_inv mark_sent.mark_tx_evolves)
next
  case mark_retry_step
  then show ?case unfolding MarkRetry_def
    by (auto simp: table_ok_def dest: mark_retry.mark_tx_inv mark_retry.mark_tx_evolves)
next
  case mark_dlq_step
  then show ?case unfolding MarkDLQ_def
    by (auto simp: table_ok_def dest: mark_dead.mark_tx_inv mark_dead.mark_tx_evolves)
next
  case requeue_stale
  then show ?case unfolding RequeueStaleProcessing_def
    by (rule exec_update_ok [OF stale.row_update_axioms])
next
  case (requeue_dlq flt ids now t t' n)
  then show ?case
    by (cases "ids = []") (auto simp: RequeueDLQIDs_def table_ok_def
        dest: exec_update_ok [OF replay.row_update_axioms])
next
  case retry_now
  then show ?case unfolding RetryNow_def
    by (rule exec_update_ok [OF hurry.row_update_axioms])
qed

lemma store_steps_evolve: "store_step\<^sup>*\<^sup>* t t' \<Longrightarrow> table_evolves t t'"
proof (induction rule: rtranclp_induct)
  case (step t' t'')
  then show ?case using store_step_ok table_evolves_trans unfolding table_ok_def by blast
qed simp

text \<open>C18: In every table the relay can reach, job identifiers are unique and every row is
  well-formed: a job is in processing exactly when it has a worker and a lease start, a queued job
  has no attempts, a sent job has a bulk identifier and no error, a dead-lettered job has an error
  and at least one attempt.\<close>

theorem store_invariant: "store_reachable t \<Longrightarrow> store_inv t"
proof (induction rule: store_reachable.induct)
  case fresh
  show ?case by (simp add: store_inv_def)
next
  case (step t t')
  then show ?case using store_step_ok unfolding table_ok_def by blast
qed

text \<open>C4: No job is ever lost or altered.  Whatever operations run, with whatever faults, a job in
  the table stays in it with the same payload, addresses and creation time; its status only moves
  along the life cycle and its attempt count never decreases.  In particular a sent job stays sent
  and is never claimed again.\<close>

theorem jobs_are_never_lost:
  assumes "store_step\<^sup>*\<^sup>* t t'" and "find_row t i = Some r"
  shows "\<exists>r'. find_row t' i = Some r' \<and> row_identity r' = row_identity r \<and>
    row_attempt_count r \<le> row_attempt_count r' \<and>
    lifecycle\<^sup>*\<^sup>* (row_status r) (row_status r') \<and>
    (row_status r = StatusSent \<longrightarrow> row_status r' = StatusSent \<and> (\<forall>now. \<not> claimable now r'))"
proof -
  obtain r' where r': "find_row t' i = Some r'" and ev: "row_evolves r r'"
    using table_evolves_find [OF store_steps_evolve [OF assms(1)] assms(2)] by blast
  then have "row_status r = StatusSent \<longrightarrow> row_status r' = StatusSent"
    using sent_is_final by (auto simp: row_evolves_def)
  with r' ev show ?thesis by (auto simp: row_evolves_def claimable_def)
qed

section \<open>A sample store and table\<close>

text \<open>A concrete instance of the code outside the repository, and a table with two due jobs, on
  which the hypotheses of the properties hold.\<close>

definition sample_message :: "string \<Rightarrow> message" where
  "sample_message subject =
     \<lparr>msg_from = \<lparr>party_name = ''S'', party_email = ''s@example.com''\<rparr>,
      msg_recipients = [\<lparr>party_name = ''R'', party_email = ''R@Example.net''\<rparr>],
      msg_subject = subject, msg_text = ''hi'', msg_html = [], msg_references = [],
      msg_headers = [], msg_reply_to = no_party, msg_in_reply_to = [], msg_attachments = []\<rparr>"

definition sample_store :: sqlite_store where
  "sample_store =
     \<lparr>workerID = ''relay-1'', unicode_lower = (\<lambda>s. s),
      marshal_message = (\<lambda>m. Inr (msg_subject m)),
      unmarshal_message = (\<lambda>p. Inr (sample_message p)),
      time_parse = (\<lambda>_ _. None), visit_order = (\<lambda>rs. rs)\<rparr>"

definition sample_table :: table where
  "sample_table =
     [queued_row ''a'' ''pa'' ''s@example.com'' ''r@example.net'' 5,
      queued_row ''b'' ''pb'' ''s@example.com'' ''q@example.net'' 3]"

lemma sample_inv: "store_inv sample_table"
  by code_simp

text \<open>A claim of at most one job takes the older job \<open>b\<close>.\<close>

abbreviation sample_leased :: table where
  "sample_leased \<equiv> update_where (claim_guard 10 [''b'']) (claim_set ''relay-1'' 10) sample_table"

abbreviation sample_job :: job where
  "sample_job \<equiv> claimed_job sample_store 10 (claim_set ''relay-1'' 10 (sample_table ! 1))"

lemma sample_claim:
  "ClaimDispatchBatch sample_store no_faults 10 100 30 1 0 sample_table =
     (sample_leased, Inr [sample_job])"
  by code_simp

lemma sample_claim_again:
  "ClaimDispatchBatch sample_store no_faults 11 100 30 1 0 sample_leased =
     (update_where (claim_guard 11 [''a'']) (claim_set ''relay-1'' 11) sample_leased,
      Inr [claimed_job sample_store 11 (claim_set ''relay-1'' 11 (sample_table ! 0))])"
  by code_simp

lemma sample_step: "store_step sample_table sample_leased"
  by (rule store_step.claim_dispatch [OF sample_claim])

section \<open>The hypotheses of the properties hold together\<close>

theorem enqueue_succeeds_witness:
  "\<exists>ids t'. EnqueueTx sample_store no_faults (\<lambda>k. replicate (Suc k) CHR ''z'') 7 ''s@example.com''
     [Some (sample_message ''one''), Some (sample_message ''two'')] sample_table = (t', Inr ids)"
proof (rule enqueue_succeeds)
  show "\<exists>msg p. m = Some msg \<and> msg_recipients msg \<noteq> [] \<and> marshal_message sample_store msg = Inr p"
    if "m \<in> set [Some (sample_message ''one''), Some (sample_message ''two'')]" for m
    using that by (auto simp: sample_store_def sample_message_def)
  show "inj (\<lambda>k. replicate (Suc k) CHR ''z'')"
    by (rule injI) (metis length_replicate nat.inject)
  show "replicate (Suc k) CHR ''z'' \<notin> row_id ` set sample_table" for k
    by (auto simp: sample_table_def queued_row_def)
qed simp

theorem claim_leases_due_jobs_witness:
  "\<exists>ids. distinct ids \<and> set (map job_ID [sample_job]) = set ids \<and>
     (\<forall>i \<in> set ids. \<exists>r. find_row sample_table i = Some r \<and> claimable 10 r \<and>
        find_row sample_leased i = Some (claim_set ''relay-1'' 10 r)) \<and>
     (\<forall>i. i \<notin> set ids \<longrightarrow> find_row sample_leased i = find_row sample_table i)"
  using claim_leases_due_jobs [OF sample_inv sample_claim]
  by (simp add: sample_store_def) blast

theorem claim_batch_bounds_witness:
  "length [sample_job] \<le> nat 100 \<and> int (length [sample_job]) \<le> default_max_count 1 \<and>
     (length [sample_job] \<le> 1 \<or>
      (\<Sum>j\<leftarrow>[sample_job]. job_bytes (job_PayloadJSON j)) \<le> default_max_bytes 0)"
  by (rule claim_batch_bounds [OF sample_inv sample_claim])

theorem claim_oldest_first_witness:
  "sorted (map job_CreatedAt [sample_job]) \<and> claimable 10 (sample_table ! 0) \<and>
     job_CreatedAt sample_job \<le> row_created_at (sample_table ! 0)"
proof -
  have due: "claimable 10 (sample_table ! 0)"
    and left: "find_row sample_leased (row_id (sample_table ! 0)) = Some (sample_table ! 0)"
    and mem: "sample_table ! 0 \<in> set sample_table"
    by code_simp+
  note res = claim_oldest_first [OF sample_inv sample_claim]
  have "job_CreatedAt sample_job \<le> row_created_at (sample_table ! 0)"
    using res mem due left by (simp del: find_row_def)
  with res due show ?thesis by simp
qed

theorem claims_are_disjoint_witness:
  "job_ID ` set [sample_job] \<inter>
     job_ID ` set [claimed_job sample_store 11 (claim_set ''relay-1'' 11 (sample_table ! 0))] = {}"
  by (rule claims_are_disjoint
      [OF sample_inv sample_claim sample_claim_again])

lemma sample_leased_inv: "store_inv sample_leased"
  by code_simp

theorem requeue_stale_recovers_witness:
  "\<exists>r'. find_row (update_where (stale_guard (100 - 30)) (stale_set 100) sample_leased) ''b'' = Some r' \<and>
     claimable 100 r' \<and> row_attempt_count r' = 0"
proof -
  let ?t = "update_where (stale_guard (100 - 30)) (stale_set 100) sample_leased"
  have run: "RequeueStaleProcessing no_faults 100 30 sample_leased = (?t, Inr 1)"
    by code_simp
  let ?b = "claim_set ''relay-1'' 10 (sample_table ! 1)"
  have b: "find_row sample_leased ''b'' = Some ?b" and g: "stale_guard (100 - 30) ?b"
    and n: "row_attempt_count ?b = 0"
    by code_simp+
  have "\<forall>i r. find_row sample_leased i = Some r \<longrightarrow> stale_guard (100 - 30) r \<longrightarrow>
      (\<exists>r'. find_row ?t i = Some r' \<and> claimable 100 r' \<and> row_attempt_count r' = row_attempt_count r)"
    using requeue_stale_recovers [OF sample_leased_inv refl run] by (elim conjE)
  from this [rule_format, OF b g] show ?thesis unfolding n .
qed

theorem count_by_status_exact_witness:
  "\<exists>counts. CountByStatus no_faults sample_leased = Inr counts \<and> counts StatusProcessing = Some 1 \<and>
     counts StatusDLQ = Some 0 \<and> (\<Sum>s \<in> UNIV. the (counts s)) = 2"
proof -
  obtain counts where "CountByStatus no_faults sample_leased = Inr counts"
      "\<forall>s. counts s = Some (length (filter (\<lambda>r. row_status r = s) sample_leased))"
      "(\<Sum>s \<in> UNIV. the (counts s)) = length sample_leased"
    using count_by_status_exact [of no_faults sample_leased] by auto
  moreover have "length (filter (\<lambda>r. row_status r = StatusProcessing) sample_leased) = 1"
      "length (filter (\<lambda>r. row_status r = StatusDLQ) sample_leased) = 0"
    by code_simp+
  ultimately show ?thesis by (auto simp: sample_table_def)
qed

theorem store_invariant_witness:
  "\<exists>t. store_reachable t \<and> store_inv t \<and> length t = 1"
proof -
  let ?ulid = "\<lambda>k. replicate (Suc k) CHR ''z''"
  let ?t = "[queued_row ''z'' ''one'' ''s@example.com'' ''r@example.net'' 7]"
  have "EnqueueTx sample_store no_faults ?ulid 7 ''s@example.com'' [Some (sample_message ''one'')] [] =
      (?t, Inr [''z''])"
    by code_simp
  then have r: "store_reachable ?t"
    by (rule store_reachable.step [OF store_reachable.fresh store_step.enqueue])
  with store_invariant [OF r] show ?thesis by (intro exI [of _ ?t]) simp
qed

theorem jobs_are_never_lost_witness:
  "\<exists>r'. find_row sample_leased ''b'' = Some r' \<and>
     row_identity r' = row_identity (sample_table ! 1) \<and> lifecycle\<^sup>*\<^sup>* StatusQueued (row_status r')"
proof -
  have b: "find_row sample_table ''b'' = Some (sample_table ! 1)" by code_simp
  have "row_status (sample_table ! 1) = StatusQueued" by code_simp
  with jobs_are_never_lost [OF r_into_rtranclp [of store_step, OF sample_step] b]
  show ?thesis by auto
qed

end
