(* ===== verification/Queue_Interface.thy ===== *)
theory Queue_Interface
  imports Queue_Correct
begin

text \<open>
  The Go interface \<^verbatim>\<open>queue.QueueStore\<close> (\<^verbatim>\<open>queue/types.go\<close>) as a record of operations, through which
  the SMTP server, the dispatcher, the dead-letter service and the health endpoint use a store, and
  the contract they rely on (locale \<open>queue_store\<close>).  The SQLite store implements it
  (\<open>sqlite_queue\<close>, interpretation \<open>sqlite\<close>).
\<close>

section \<open>The interface\<close>

record 's queue_ops =
  do_EnqueueTx :: "(nat \<Rightarrow> string) \<Rightarrow> go_time \<Rightarrow> string \<Rightarrow> message option list \<Rightarrow> 's \<Rightarrow>
    's \<times> (store_error + string list)"
  do_ClaimBatch :: "go_time \<Rightarrow> int \<Rightarrow> duration \<Rightarrow> 's \<Rightarrow> 's \<times> (store_error + job list)"
  do_ClaimDispatchBatch :: "go_time \<Rightarrow> int \<Rightarrow> duration \<Rightarrow> int \<Rightarrow> int \<Rightarrow> 's \<Rightarrow>
    's \<times> (store_error + job list)"
  do_MarkSent :: "go_time \<Rightarrow> job list \<Rightarrow> string \<Rightarrow> 's \<Rightarrow> 's \<times> store_error option"
  do_MarkRetry :: "go_time \<Rightarrow> job list \<Rightarrow> go_time \<Rightarrow> string \<Rightarrow> int \<Rightarrow> 's \<Rightarrow> 's \<times> store_error option"
  do_MarkDLQ :: "go_time \<Rightarrow> job list \<Rightarrow> string \<Rightarrow> int \<Rightarrow> 's \<Rightarrow> 's \<times> store_error option"
  do_RequeueStaleProcessing :: "go_time \<Rightarrow> duration \<Rightarrow> 's \<Rightarrow> 's \<times> (store_error + nat)"
  do_CountByStatus :: "'s \<Rightarrow> store_error + (job_status \<rightharpoonup> nat)"
  do_PingContext :: "'s \<Rightarrow> string option"
  do_ListDLQ :: "go_time \<Rightarrow> int \<Rightarrow> 's \<Rightarrow> store_error + job list"
  do_GetDLQByIDs :: "go_time \<Rightarrow> string list \<Rightarrow> 's \<Rightarrow> store_error + job list"
  do_RequeueDLQIDs :: "string list \<Rightarrow> go_time \<Rightarrow> 's \<Rightarrow> 's \<times> (store_error + nat)"
  do_RetryNow :: "go_time \<Rightarrow> 's \<Rightarrow> 's \<times> (store_error + nat)"

text \<open>Which operation a database call belongs to, so that faults can differ between operations.\<close>

datatype store_op =
    OpEnqueueTx | OpClaimBatch | OpClaimDispatchBatch | OpMarkSent | OpMarkRetry | OpMarkDLQ
  | OpRequeueStaleProcessing | OpCountByStatus | OpPing | OpListDLQ | OpGetDLQByIDs
  | OpRequeueDLQIDs | OpRetryNow

definition sqlite_queue :: "sqlite_store \<Rightarrow> (store_op \<Rightarrow> db_faults) \<Rightarrow> table queue_ops" where
  "sqlite_queue S flt =
     \<lparr>do_EnqueueTx = EnqueueTx S (flt OpEnqueueTx),
      do_ClaimBatch = ClaimBatch S (flt OpClaimBatch),
      do_ClaimDispatchBatch = ClaimDispatchBatch S (flt OpClaimDispatchBatch),
      do_MarkSent = MarkSent (flt OpMarkSent),
      do_MarkRetry = MarkRetry (flt OpMarkRetry),
      do_MarkDLQ = MarkDLQ (flt OpMarkDLQ),
      do_RequeueStaleProcessing = RequeueStaleProcessing (flt OpRequeueStaleProcessing),
      do_CountByStatus = CountByStatus (flt OpCountByStatus),
      do_PingContext = (\<lambda>_. flt OpPing BeginTx),
      do_ListDLQ = ListDLQ S (flt OpListDLQ),
      do_GetDLQByIDs = GetDLQByIDs S (flt OpGetDLQByIDs),
      do_RequeueDLQIDs = RequeueDLQIDs (flt OpRequeueDLQIDs),
      do_RetryNow = RetryNow (flt OpRetryNow)\<rparr>"

lemma sqlite_queue_simps [simp]:
  "do_EnqueueTx (sqlite_queue S flt) = EnqueueTx S (flt OpEnqueueTx)"
  "do_ClaimDispatchBatch (sqlite_queue S flt) = ClaimDispatchBatch S (flt OpClaimDispatchBatch)"
  "do_MarkSent (sqlite_queue S flt) = MarkSent (flt OpMarkSent)"
  "do_MarkRetry (sqlite_queue S flt) = MarkRetry (flt OpMarkRetry)"
  "do_MarkDLQ (sqlite_queue S flt) = MarkDLQ (flt OpMarkDLQ)"
  "do_RequeueStaleProcessing (sqlite_queue S flt) =
     RequeueStaleProcessing (flt OpRequeueStaleProcessing)"
  "do_CountByStatus (sqlite_queue S flt) = CountByStatus (flt OpCountByStatus)"
  "do_RequeueDLQIDs (sqlite_queue S flt) = RequeueDLQIDs (flt OpRequeueDLQIDs)"
  "do_RetryNow (sqlite_queue S flt) = RetryNow (flt OpRetryNow)"
  "do_ListDLQ (sqlite_queue S flt) = ListDLQ S (flt OpListDLQ)"
  "do_PingContext (sqlite_queue S flt) = (\<lambda>_. flt OpPing BeginTx)"
  by (simp_all add: sqlite_queue_def)

section \<open>The contract\<close>

text \<open>
  \<open>view\<close> is the abstract queue, \<open>invar\<close> the store's own invariant.  The laws are what the clients
  rely on: an operation that reports an error has changed nothing they can see, an outcome is
  recorded for exactly the jobs of the batch still in processing, enqueuing adds new jobs only, and
  a claim hands out jobs that are in processing afterwards with their attempt count.
\<close>

locale queue_store =
  fixes st :: "'s queue_ops" and invar :: "'s \<Rightarrow> bool"
    and view :: "'s \<Rightarrow> string \<Rightarrow> (job_status \<times> int) option"
  assumes mark_sent:
      "do_MarkSent st now js bulk s = (s', err) \<Longrightarrow>
         view s' = (if err = None then mark_jobs StatusSent (job_ID ` set js) (view s) else view s)"
    and mark_retry:
      "do_MarkRetry st now js next msg code s = (s', err) \<Longrightarrow>
         view s' = (if err = None then mark_jobs StatusRetry (job_ID ` set js) (view s) else view s)"
    and mark_dlq:
      "do_MarkDLQ st now js msg code s = (s', err) \<Longrightarrow>
         view s' = (if err = None then mark_jobs StatusDLQ (job_ID ` set js) (view s) else view s)"
    and enqueue:
      "do_EnqueueTx st ulid now sender msgs s = (s', r) \<Longrightarrow>
         (case r of
            Inl e \<Rightarrow> s' = s
          | Inr ids \<Rightarrow> length ids = length msgs \<and>
              (invar s \<longrightarrow> distinct ids \<and> (\<forall>i \<in> set ids. view s i = None) \<and>
                 (\<forall>i. view s' i = (if i \<in> set ids then Some (StatusQueued, 0) else view s i))))"
    and claim:
      "invar s \<Longrightarrow> do_ClaimDispatchBatch st now limit lease mc mb s = (s', Inr js) \<Longrightarrow>
         distinct (map job_ID js) \<and>
         (\<forall>j \<in> set js. view s' (job_ID j) = Some (StatusProcessing, job_AttemptCount j))"
    and claim_frame:
      "invar s \<Longrightarrow> do_ClaimDispatchBatch st now limit lease mc mb s = (s', Inr js) \<Longrightarrow>
         \<exists>L. job_ID ` set js \<subseteq> L \<and>
           (\<forall>i \<in> L. \<exists>n. view s i \<in> {Some (StatusQueued, n), Some (StatusRetry, n)} \<and>
              view s' i = Some (StatusProcessing, n)) \<and>
           (\<forall>i. i \<notin> L \<longrightarrow> view s' i = view s i)"
    and claim_error:
      "do_ClaimDispatchBatch st now limit lease mc mb s = (s', Inl e) \<Longrightarrow> s' = s"
    and invar_claim:
      "invar s \<Longrightarrow> do_ClaimDispatchBatch st now limit lease mc mb s = (s', res) \<Longrightarrow> invar s'"
    and invar_mark:
      "invar s \<Longrightarrow> do_MarkSent st now js bulk s = (s', err) \<Longrightarrow> invar s'"
      "invar s \<Longrightarrow> do_MarkRetry st now js next msg code s = (s', err) \<Longrightarrow> invar s'"
      "invar s \<Longrightarrow> do_MarkDLQ st now js msg code s = (s', err) \<Longrightarrow> invar s'"
    and stale:
      "do_RequeueStaleProcessing st now lease s = (s', cnt) \<Longrightarrow>
         (\<forall>i. view s' i = view s i \<or>
            (\<exists>n. view s i = Some (StatusProcessing, n) \<and> view s' i = Some (StatusRetry, n)))"
    and invar_stale:
      "invar s \<Longrightarrow> do_RequeueStaleProcessing st now lease s = (s', cnt) \<Longrightarrow> invar s'"
    and invar_enqueue:
      "invar s \<Longrightarrow> do_EnqueueTx st ulid now sender msgs s = (s', r) \<Longrightarrow> invar s'"

section \<open>The SQLite store meets it\<close>

lemma find_row_append:
  "find_row (t @ new) i = (case find_row t i of None \<Rightarrow> find_row new i | Some r \<Rightarrow> Some r)"
  unfolding find_row_def by (induction t) auto

lemma find_row_None: "find_row t i = None \<longleftrightarrow> i \<notin> row_id ` set t"
  unfolding find_row_def by (auto simp: find_None_iff)

lemma enqueued_as_view: "enqueued_as S now sender m r \<Longrightarrow> row_status r = StatusQueued \<and> row_attempt_count r = 0"
  unfolding enqueued_as_def queued_row_def by (metis job_row.select_convs(2,6))

lemma EnqueueTx_view:
  assumes "EnqueueTx S flt ulid now sender msgs t = (t', Inr ids)" and "store_inv t"
  shows "length ids = length msgs"
    and "job_view t' i = (if i \<in> set ids then Some (StatusQueued, 0) else job_view t i)"
proof -
  obtain new where new: "ids = map row_id new" "t' = t @ new"
      "list_all2 (enqueued_as S now sender) msgs new"
    using EnqueueTx_cases [OF assms(1)] by auto
  show "length ids = length msgs" using new by (simp add: list_all2_lengthD)
  have dist: "distinct (map row_id (t @ new))"
    using EnqueueTx_inv [OF assms(2,1)] new(2) by (simp add: store_inv_def)
  show "job_view t' i = (if i \<in> set ids then Some (StatusQueued, 0) else job_view t i)"
  proof (cases "i \<in> set ids")
    case True
    then obtain r where r: "r \<in> set new" "row_id r = i" using new(1) by auto
    then have "find_row t' i = Some r"
      unfolding new(2) by (metis Un_iff dist find_row_mem set_append)
    moreover have "row_status r = StatusQueued \<and> row_attempt_count r = 0"
      using r(1) new(3) by (metis enqueued_as_view in_set_conv_nth list_all2_conv_all_nth)
    ultimately show ?thesis using True by (simp add: job_view_def)
  next
    case False
    then have "find_row new i = None" using new(1) by (auto simp: find_row_None)
    with False show ?thesis
      by (simp add: job_view_def new(2) find_row_append split: option.split)
  qed
qed

lemma EnqueueTx_fresh:
  assumes "store_inv t" and "EnqueueTx S flt ulid now env_from msgs t = (t', Inr ids)"
  shows "distinct ids" and "i \<in> set ids \<Longrightarrow> job_view t i = None"
proof -
  obtain new where new: "ids = map row_id new" "t' = t @ new"
    using EnqueueTx_cases [OF assms(2)] by auto
  have dist: "distinct (map row_id (t @ new))"
    using EnqueueTx_inv [OF assms] new(2) by (simp add: store_inv_def)
  then show "distinct ids" using new(1) by simp
  show "job_view t i = None" if "i \<in> set ids"
  proof -
    have "i \<notin> row_id ` set t" using dist that new(1) by auto
    then show ?thesis by (simp add: job_view_def find_row_None)
  qed
qed

lemma claim_view:
  assumes "store_inv t"
    and "ClaimDispatchBatch S flt now limit lease mc mb t = (t', Inr js)"
  shows "distinct (map job_ID js)"
    and "j \<in> set js \<Longrightarrow> job_view t' (job_ID j) = Some (StatusProcessing, job_AttemptCount j)"
proof -
  have dist: "distinct (map row_id t)" using assms(1) by (simp add: store_inv_def)
  obtain picked where out: "claim_outcome S flt now limit t picked t' js"
    using claim_dispatch_cases [OF assms(2)] by blast
  obtain rs where rs: "js = map (claimed_job S now) rs" "distinct (map row_id rs)"
      "set rs \<subseteq> claim_set (workerID S) now ` set picked"
    using claim_outcome_jobs [OF out dist] by blast
  show "distinct (map job_ID js)" using rs(1,2) by (simp add: comp_def)
  show "job_view t' (job_ID j) = Some (StatusProcessing, job_AttemptCount j)" if "j \<in> set js"
  proof -
    obtain p where p: "p \<in> set picked" "j = claimed_job S now (claim_set (workerID S) now p)"
      using \<open>j \<in> set js\<close> rs(1,3) by auto
    have "find_row t' (row_id p) = Some (claim_set (workerID S) now p)"
      using claim_outcome_find(1) [OF out dist p(1)] by blast
    then show ?thesis by (simp add: job_view_def p(2) claim_set_def)
  qed
qed

lemma claim_frame_view:
  assumes "store_inv t"
    and "ClaimDispatchBatch S flt now limit lease mc mb t = (t', Inr js)"
  shows "\<exists>L. job_ID ` set js \<subseteq> L \<and>
     (\<forall>i \<in> L. \<exists>n. job_view t i \<in> {Some (StatusQueued, n), Some (StatusRetry, n)} \<and>
        job_view t' i = Some (StatusProcessing, n)) \<and>
     (\<forall>i. i \<notin> L \<longrightarrow> job_view t' i = job_view t i)"
proof -
  have dist: "distinct (map row_id t)" using assms(1) by (simp add: store_inv_def)
  obtain picked where out: "claim_outcome S flt now limit t picked t' js"
    using claim_dispatch_cases [OF assms(2)] by blast
  have sub: "job_ID ` set js \<subseteq> row_id ` set picked"
    using claim_outcome_job_ids [OF out dist] .
  have leased: "\<exists>n. job_view t (row_id r) \<in> {Some (StatusQueued, n), Some (StatusRetry, n)} \<and>
      job_view t' (row_id r) = Some (StatusProcessing, n)" if "r \<in> set picked" for r
    using claim_outcome_find(1) [OF out dist that]
    by (auto simp: job_view_def claimable_def claim_set_def)
  have "job_view t' i = job_view t i" if "i \<notin> row_id ` set picked" for i
    using claim_outcome_find(2) [OF out dist that] by (simp add: job_view_def)
  with sub leased show ?thesis by (intro exI [of _ "row_id ` set picked"]) blast
qed

lemma stale_view:
  assumes "RequeueStaleProcessing flt now lease t = (t', cnt)"
  shows "job_view t' i = job_view t i \<or>
     (\<exists>n. job_view t i = Some (StatusProcessing, n) \<and> job_view t' i = Some (StatusRetry, n))"
proof -
  have "t' = t \<or> t' = update_where (stale_guard (now - lease)) (stale_set now) t"
    using assms exec_update_table unfolding RequeueStaleProcessing_def by fast
  then show ?thesis
    by (cases "find_row t i")
      (auto simp: job_view_def stale.update_find stale_guard_def stale_set_def)
qed

interpretation sqlite: queue_store "sqlite_queue S flt" store_inv job_view for S flt
proof (unfold_locales, goal_cases)
  case (1 now js bulk s s' err)
  then show ?case by (simp add: MarkSent_def mark_sent.mark_tx_refines)
next
  case (2 now js "next" msg code s s' err)
  then show ?case by (simp add: MarkRetry_def mark_retry.mark_tx_refines)
next
  case (3 now js msg code s s' err)
  then show ?case by (simp add: MarkDLQ_def mark_dead.mark_tx_refines)
next
  case (4 ulid now sender msgs s s' r)
  then have eq: "EnqueueTx S (flt OpEnqueueTx) ulid now sender msgs s = (s', r)" by simp
  from EnqueueTx_cases [OF eq] show ?case
  proof (elim disjE exE conjE)
    fix new assume "r = Inr (map row_id new)" "list_all2 (enqueued_as S now sender) msgs new"
    then show ?thesis
      using eq EnqueueTx_view(2) [of S _ ulid now sender msgs s s' "map row_id new"]
        EnqueueTx_fresh [of s S _ ulid now sender msgs s' "map row_id new"]
      by (auto simp: list_all2_lengthD)
  qed simp
next
  case (5 s now limit lease mc mb s' js)
  then show ?case using claim_view by simp
next
  case (6 s now limit lease mc mb s' js)
  then show ?case using claim_frame_view by simp
next
  case (7 now limit lease mc mb s s' e)
  then show ?case by (simp add: ClaimDispatchBatch_def claimJobs_Inl)
next
  case (8 s now limit lease mc mb s' res)
  then show ?case by (simp add: ClaimDispatchBatch_def claimJobs_inv)
next
  case (9 s now js bulk s' err)
  then show ?case by (simp add: MarkSent_def mark_sent.mark_tx_inv)
next
  case (10 s now js "next" msg code s' err)
  then show ?case by (simp add: MarkRetry_def mark_retry.mark_tx_inv)
next
  case (11 s now js msg code s' err)
  then show ?case by (simp add: MarkDLQ_def mark_dead.mark_tx_inv)
next
  case (12 now lease s s' cnt)
  then show ?case using stale_view by simp
next
  case (13 s now lease s' cnt)
  then show ?case
    using exec_update_ok [OF stale.row_update_axioms, of "flt OpRequeueStaleProcessing"]
    by (auto simp: RequeueStaleProcessing_def table_ok_def)
next
  case (14 s ulid now sender msgs s' r)
  then show ?case by (simp add: EnqueueTx_inv)
qed

end
