(* ===== verification/Relay_Metrics.thy ===== *)
theory Relay_Metrics
  imports Relay_Types
begin

text \<open>
  The Prometheus instruments of \<^verbatim>\<open>metrics/metrics.go\<close>: counters as natural numbers, labelled counters
  and gauges as functions from label values, histograms as the list of observed samples, newest
  first.  \<open>instruments\<close> lists what \<^verbatim>\<open>New\<close> registers, with names, help texts, labels and buckets; the
  registry itself and the exposition format are the library's.
\<close>

record metrics =
  SMTPAcceptedRecipients :: nat
  SMTPRejectedMessages :: "string \<Rightarrow> nat"
  SMTPAuthFailures :: nat
  QueueDepth :: "string \<Rightarrow> int option"
  DispatchBatchSize :: "nat list"
  DispatchLatencySeconds :: "duration list"
  DispatchAPICalls :: "string \<times> string \<Rightarrow> nat"
  DispatchRetries :: nat
  DispatchDLQ :: nat
  DispatchThrottleWaits :: nat
  DispatchThrottleWaitSeconds :: "duration list"
  RequeueStaleRecoveries :: nat
  DispatchLastSuccessUnix :: int

definition new_metrics :: metrics where
  "new_metrics =
     \<lparr>SMTPAcceptedRecipients = 0, SMTPRejectedMessages = (\<lambda>_. 0), SMTPAuthFailures = 0,
      QueueDepth = (\<lambda>_. None), DispatchBatchSize = [], DispatchLatencySeconds = [],
      DispatchAPICalls = (\<lambda>_. 0), DispatchRetries = 0, DispatchDLQ = 0,
      DispatchThrottleWaits = 0, DispatchThrottleWaitSeconds = [],
      RequeueStaleRecoveries = 0, DispatchLastSuccessUnix = 0\<rparr>"

text \<open>The instruments in the order \<^verbatim>\<open>MustRegister\<close> gets them.  \<open>DefBuckets\<close> is the library's list.\<close>

datatype buckets = DefBuckets | Buckets "int list"

datatype instrument_kind = Counter | CounterVec "string list" | GaugeVec "string list" | Histogram buckets

record instrument =
  inst_Name :: string
  inst_Help :: string
  inst_kind :: instrument_kind

definition instruments :: "instrument list" where
  "instruments =
    [\<lparr>inst_Name = ''relay_smtp_accepted_recipients_total'',
      inst_Help = ''Total number of recipient messages accepted by SMTP and queued durably.'',
      inst_kind = Counter\<rparr>,
     \<lparr>inst_Name = ''relay_smtp_rejected_messages_total'',
      inst_Help = ''Total number of rejected SMTP messages partitioned by reason.'',
      inst_kind = CounterVec [''reason'']\<rparr>,
     \<lparr>inst_Name = ''relay_smtp_auth_failures_total'',
      inst_Help = ''Total SMTP authentication failures.'',
      inst_kind = Counter\<rparr>,
     \<lparr>inst_Name = ''relay_queue_depth'',
      inst_Help = ''Current queue depth by status.'',
      inst_kind = GaugeVec [''status'']\<rparr>,
     \<lparr>inst_Name = ''relay_dispatch_batch_size'',
      inst_Help = ''Number of messages per outbound bulk API call.'',
      inst_kind = Histogram (Buckets [1, 10, 25, 50, 100, 250, 500])\<rparr>,
     \<lparr>inst_Name = ''relay_dispatch_latency_seconds'',
      inst_Help = ''Latency of MailerSend bulk API calls.'',
      inst_kind = Histogram DefBuckets\<rparr>,
     \<lparr>inst_Name = ''relay_dispatch_api_calls_total'',
      inst_Help = ''Outbound API calls by result class and status code.'',
      inst_kind = CounterVec [''result'', ''status_code'']\<rparr>,
     \<lparr>inst_Name = ''relay_dispatch_retries_total'',
      inst_Help = ''Total retry transitions.'',
      inst_kind = Counter\<rparr>,
     \<lparr>inst_Name = ''relay_dispatch_dlq_total'',
      inst_Help = ''Total DLQ transitions.'',
      inst_kind = Counter\<rparr>,
     \<lparr>inst_Name = ''relay_dispatch_throttle_waits_total'',
      inst_Help = ''Total outbound dispatch waits caused by the local MailerSend rate limiter.'',
      inst_kind = Counter\<rparr>,
     \<lparr>inst_Name = ''relay_dispatch_throttle_wait_seconds'',
      inst_Help = ''Time spent waiting on the local MailerSend rate limiter before claiming a batch.'',
      inst_kind = Histogram DefBuckets\<rparr>,
     \<lparr>inst_Name = ''relay_requeue_stale_recoveries_total'',
      inst_Help = ''Total stale processing recoveries on startup/runtime.'',
      inst_kind = Counter\<rparr>]"

text \<open>\<^verbatim>\<open>MustRegister\<close> panics on a second instrument of the same name; there is none.\<close>

lemma instruments_register: "distinct (map inst_Name instruments)"
  by code_simp

text \<open>\<^verbatim>\<open>SMTPRejectedMessages.WithLabelValues(reason).Inc()\<close>\<close>

definition inc_rejected :: "string \<Rightarrow> metrics \<Rightarrow> metrics" where
  "inc_rejected reason m =
     m\<lparr>SMTPRejectedMessages :=
         (SMTPRejectedMessages m)(reason := Suc (SMTPRejectedMessages m reason))\<rparr>"

text \<open>\<^verbatim>\<open>DispatchAPICalls.WithLabelValues(result, status).Inc()\<close>\<close>

definition inc_api_calls :: "string \<Rightarrow> string \<Rightarrow> metrics \<Rightarrow> metrics" where
  "inc_api_calls result status m =
     m\<lparr>DispatchAPICalls :=
         (DispatchAPICalls m)((result, status) := Suc (DispatchAPICalls m (result, status)))\<rparr>"

lemma inc_rejected_frame [frame_simps]:
  "SMTPAcceptedRecipients (inc_rejected r m) = SMTPAcceptedRecipients m"
  "SMTPAuthFailures (inc_rejected r m) = SMTPAuthFailures m"
  by (simp_all add: inc_rejected_def)

lemma inc_api_calls_frame [frame_simps]:
  "SMTPAcceptedRecipients (inc_api_calls r c m) = SMTPAcceptedRecipients m"
  "DispatchRetries (inc_api_calls r c m) = DispatchRetries m"
  "DispatchDLQ (inc_api_calls r c m) = DispatchDLQ m"
  by (simp_all add: inc_api_calls_def)

end
