(* ===== verification/Bulk_Sender.thy ===== *)
theory Bulk_Sender
  imports Relay_Types
begin

text \<open>
  The client of the MailerSend bulk API (\<^verbatim>\<open>dispatch/sender.go\<close>): the error type, the request, the
  reading of the answer and the transport that rewrites the target of a request.  JSON encoding,
  URL parsing and printing, the redirect and time-out policy of \<^verbatim>\<open>http.Client\<close> and the network are
  fields of the sender.  The contract the dispatcher relies on is the locale \<open>bulk_sender\<close>.
\<close>

section \<open>Results and errors\<close>

record SendResult =
  BulkEmailID :: string
  HTTPStatus :: int

record SenderError =
  StatusCode :: int
  Err :: string

text \<open>
  The dynamic type of a Go \<^verbatim>\<open>error\<close> the dispatcher tells apart: a pointer to a \<^verbatim>\<open>SenderError\<close> (which
  may be nil), or any other error, by its text.  The wrapped error is given by its text as well.
\<close>

datatype go_error = SenderErr "SenderError option" | OtherErr string

fun SenderError_Error :: "SenderError option \<Rightarrow> string" where
  "SenderError_Error None = []"
| "SenderError_Error (Some e) =
     (if StatusCode e > 0 then ''status='' @ Itoa (StatusCode e) @ '': '' @ Err e else Err e)"

fun SenderError_Unwrap :: "SenderError option \<Rightarrow> string option" where
  "SenderError_Unwrap None = None"
| "SenderError_Unwrap (Some e) = Some (Err e)"

fun error_text :: "go_error \<Rightarrow> string" where
  "error_text (SenderErr e) = SenderError_Error e"
| "error_text (OtherErr t) = t"

definition sender_error :: "int \<Rightarrow> string \<Rightarrow> go_error option" where
  "sender_error code text = Some (SenderErr (Some \<lparr>StatusCode = code, Err = text\<rparr>))"

section \<open>Requests and the rewriting transport\<close>

record url =
  Scheme :: string
  Host :: string
  Path :: string
  Rest :: string

record http_request =
  Method :: string
  URL :: url
  Header :: "(string \<times> string) list"
  Body :: string

record http_response =
  Response_Status :: string
  Response_StatusCode :: int
  Response_Body :: reader

type_synonym round_tripper = "http_request \<Rightarrow> string + http_response"

definition rewrite_path :: "string \<Rightarrow> string \<Rightarrow> string" where
  "rewrite_path base path =
     (if base \<noteq> [] \<and> \<not> HasPrefix path base
      then TrimSuffix base ''/'' @ ''/'' @ TrimPrefix path ''/'' else path)"

definition rewrite_url :: "url \<Rightarrow> url \<Rightarrow> url" where
  "rewrite_url base u =
     u\<lparr>Scheme := Scheme base, Host := Host base, Path := rewrite_path (Path base) (Path u)\<rparr>"

definition RoundTrip :: "url \<Rightarrow> round_tripper \<Rightarrow> round_tripper" where
  "RoundTrip base next_trip req = next_trip (req\<lparr>URL := rewrite_url base (URL req)\<rparr>)"

section \<open>The sender\<close>

text \<open>
  \<open>http_client\<close> is \<^verbatim>\<open>http.Client.Do\<close> over a transport and with a time-out (its redirect policy and
  deadline), \<open>default_transport\<close> the network.  \<open>decode_bulk_id\<close> is the value of the
  \<^verbatim>\<open>bulk_email_id\<close> field after \<^verbatim>\<open>json.Unmarshal\<close>, whose error the code discards.
\<close>

record http_externals =
  url_parse :: "string \<Rightarrow> string + url"
  url_string :: "url \<Rightarrow> string"
  http_client :: "duration \<Rightarrow> round_tripper \<Rightarrow> round_tripper"
  default_transport :: round_tripper
  marshal_bulk :: "message option list \<Rightarrow> string + string"
  decode_bulk_id :: "string \<Rightarrow> string"

record MailerSendSender =
  httpClient :: round_tripper
  apiKey :: string
  baseURL :: string

definition TrimRight_slash :: "string \<Rightarrow> string" where
  "TrimRight_slash s = rev (dropWhile (\<lambda>c. c = CHR ''/'') (rev s))"

definition NewMailerSendSender :: "http_externals \<Rightarrow> string \<Rightarrow> string \<Rightarrow> duration \<Rightarrow>
    string + MailerSendSender" where
  "NewMailerSendSender X key base timeout =
     (case url_parse X (TrimSpace base) of
        Inl e \<Rightarrow> Inl (''parse MAILERSEND_BASE_URL: '' @ e)
      | Inr parsed \<Rightarrow>
          Inr \<lparr>httpClient = http_client X timeout (RoundTrip parsed (default_transport X)),
               apiKey = TrimSpace key,
               baseURL = TrimRight_slash (url_string X parsed)\<rparr>)"

definition bulk_request :: "MailerSendSender \<Rightarrow> url \<Rightarrow> string \<Rightarrow> http_request" where
  "bulk_request S u payload =
     \<lparr>Method = ''POST'', URL = u,
      Header = [(''Content-Type'', ''application/json''), (''Accept'', ''application/json''),
                (''Authorization'', ''Bearer '' @ apiKey S)],
      Body = payload\<rparr>"

definition response_limit :: int where "response_limit = 1048576"

text \<open>The message of a failed call: the trimmed body or the status line, cut to 400 bytes.\<close>

definition api_error_text :: "http_response \<Rightarrow> string \<Rightarrow> string" where
  "api_error_text resp body =
     (let msg = TrimSpace body;
          msg = (if msg = [] then Response_Status resp else msg)
      in ''mailersend bulk api error: '' @ (if length msg > 400 then take 400 msg else msg))"

definition read_response :: "http_externals \<Rightarrow> http_response \<Rightarrow> SendResult \<times> go_error option" where
  "read_response X resp =
     (let code = Response_StatusCode resp; result = \<lparr>BulkEmailID = [], HTTPStatus = code\<rparr>
      in case read_limited response_limit (Response_Body resp) of
           Inl e \<Rightarrow> (result, sender_error code (''read bulk response: '' @ e))
         | Inr body \<Rightarrow>
             if code \<ge> 200 \<and> code \<le> 299
             then (result\<lparr>BulkEmailID := (if length body > 0 then decode_bulk_id X body else [])\<rparr>, None)
             else (result, sender_error code (api_error_text resp body)))"

definition Send :: "http_externals \<Rightarrow> MailerSendSender \<Rightarrow> message option list \<Rightarrow>
    SendResult \<times> go_error option" where
  "Send X S messages =
     (let none = \<lparr>BulkEmailID = [], HTTPStatus = 0\<rparr>
      in case marshal_bulk X messages of
           Inl e \<Rightarrow> (none, sender_error 0 (''marshal bulk payload: '' @ e))
         | Inr payload \<Rightarrow>
             (case url_parse X (baseURL S @ ''/bulk-email'') of
                Inl e \<Rightarrow> (none, sender_error 0 (''create bulk request: '' @ e))
              | Inr u \<Rightarrow>
                  (case httpClient S (bulk_request S u payload) of
                     Inl e \<Rightarrow> (none, sender_error 0 e)
                   | Inr resp \<Rightarrow> read_response X resp)))"

section \<open>The contract of a bulk sender\<close>

text \<open>
  What the dispatcher relies on: no error means a 2xx answer, and an error is a \<^verbatim>\<open>SenderError\<close> that
  carries the status of the answer, 0 when there was none.
\<close>

locale bulk_sender =
  fixes send :: "message option list \<Rightarrow> SendResult \<times> go_error option"
  assumes send_ok: "send msgs = (res, None) \<Longrightarrow> 200 \<le> HTTPStatus res \<and> HTTPStatus res \<le> 299"
    and send_error: "send msgs = (res, Some err) \<Longrightarrow>
        \<exists>se. err = SenderErr (Some se) \<and> StatusCode se = HTTPStatus res"

lemma read_response_ok:
  "read_response X resp = (res, None) \<longleftrightarrow>
     200 \<le> Response_StatusCode resp \<and> Response_StatusCode resp \<le> 299 \<and>
     (\<exists>body. read_limited response_limit (Response_Body resp) = Inr body \<and>
        res = \<lparr>BulkEmailID = (if body = [] then [] else decode_bulk_id X body),
               HTTPStatus = Response_StatusCode resp\<rparr>)"
  by (auto simp: read_response_def Let_def sender_error_def split: sum.splits)

lemma read_response_error:
  "read_response X resp = (res, Some err) \<Longrightarrow>
     \<exists>text. err = SenderErr (Some \<lparr>StatusCode = HTTPStatus res, Err = text\<rparr>) \<and>
       HTTPStatus res = Response_StatusCode resp"
  by (auto simp: read_response_def Let_def sender_error_def split: sum.splits if_splits)

lemma Send_ok:
  "Send X S msgs = (res, None) \<longleftrightarrow>
     (\<exists>payload u resp. marshal_bulk X msgs = Inr payload \<and>
        url_parse X (baseURL S @ ''/bulk-email'') = Inr u \<and>
        httpClient S (bulk_request S u payload) = Inr resp \<and>
        read_response X resp = (res, None))"
  by (auto simp: Send_def Let_def sender_error_def split: sum.split)

lemma Send_error:
  "Send X S msgs = (res, Some err) \<Longrightarrow>
     \<exists>text. err = SenderErr (Some \<lparr>StatusCode = HTTPStatus res, Err = text\<rparr>)"
  by (auto simp: Send_def Let_def sender_error_def split: sum.splits dest: read_response_error)

interpretation mailersend: bulk_sender "Send X S" for X S
proof
  fix msgs res
  assume "Send X S msgs = (res, None)"
  then show "200 \<le> HTTPStatus res \<and> HTTPStatus res \<le> 299"
    by (auto simp: Send_ok read_response_ok)
next
  fix msgs res err
  assume "Send X S msgs = (res, Some err)"
  from Send_error [OF this] show "\<exists>se. err = SenderErr (Some se) \<and> StatusCode se = HTTPStatus res"
    by force
qed

section \<open>Properties\<close>

text \<open>C21: A batch counts as accepted by MailerSend exactly when the payload was marshalled, the
  request was answered with a 2xx status and the answer could be read; the bulk id is what the
  (bounded) body decodes to, empty for an empty body.  In every other case the error is a
  SenderError with the same status as the result, so the dispatcher classifies the answer it got.\<close>

theorem send_accepts_exactly_2xx:
  "case Send X S msgs of
     (res, None) \<Rightarrow>
       (\<exists>payload u resp body.
          marshal_bulk X msgs = Inr payload \<and>
          url_parse X (baseURL S @ ''/bulk-email'') = Inr u \<and>
          httpClient S (bulk_request S u payload) = Inr resp \<and>
          200 \<le> Response_StatusCode resp \<and> Response_StatusCode resp \<le> 299 \<and>
          read_limited response_limit (Response_Body resp) = Inr body \<and>
          int (length body) \<le> response_limit \<and>
          res = \<lparr>BulkEmailID = (if body = [] then [] else decode_bulk_id X body),
                 HTTPStatus = Response_StatusCode resp\<rparr>)
   | (res, Some err) \<Rightarrow>
       (\<exists>text. err = SenderErr (Some \<lparr>StatusCode = HTTPStatus res, Err = text\<rparr>)) \<and>
       \<not> (\<exists>payload u resp body.
          marshal_bulk X msgs = Inr payload \<and>
          url_parse X (baseURL S @ ''/bulk-email'') = Inr u \<and>
          httpClient S (bulk_request S u payload) = Inr resp \<and>
          200 \<le> Response_StatusCode resp \<and> Response_StatusCode resp \<le> 299 \<and>
          read_limited response_limit (Response_Body resp) = Inr body)"
proof -
  obtain res err where r: "Send X S msgs = (res, err)" by fastforce
  show ?thesis
  proof (cases err)
    case None
    with r Send_ok obtain payload u resp where ok: "marshal_bulk X msgs = Inr payload"
        "url_parse X (baseURL S @ ''/bulk-email'') = Inr u"
        "httpClient S (bulk_request S u payload) = Inr resp" "read_response X resp = (res, None)"
      by metis
    from ok(4) obtain body where "read_limited response_limit (Response_Body resp) = Inr body"
      "res = \<lparr>BulkEmailID = (if body = [] then [] else decode_bulk_id X body),
              HTTPStatus = Response_StatusCode resp\<rparr>"
      "200 \<le> Response_StatusCode resp" "Response_StatusCode resp \<le> 299"
      by (auto simp: read_response_ok)
    with ok None r read_limited_length [of response_limit "Response_Body resp" body]
    show ?thesis by (force simp: response_limit_def)
  next
    case (Some e)
    with r Send_ok [of X S msgs] have "\<not> (\<exists>payload u resp res. marshal_bulk X msgs = Inr payload \<and>
        url_parse X (baseURL S @ ''/bulk-email'') = Inr u \<and>
        httpClient S (bulk_request S u payload) = Inr resp \<and> read_response X resp = (res, None))"
      by (metis Pair_inject option.distinct(1))
    then show ?thesis
      using r Some Send_error [of X S msgs res e] by (fastforce simp: read_response_ok)
  qed
qed

lemma TrimSuffix_slash: "\<exists>t. TrimSuffix base ''/'' @ ''/'' = base @ t"
proof (cases base rule: rev_cases)
  case (snoc b c)
  show ?thesis
  proof (cases "c = CHR ''/''")
    case True
    with snoc TrimSuffix_append [of b "''/''"] show ?thesis by simp
  next
    case False
    with snoc show ?thesis by (simp add: TrimSuffix_def TrimPrefix_def HasPrefix_def)
  qed
qed simp

lemma rewrite_path_prefix: "HasPrefix (rewrite_path base path) base"
proof (cases "base \<noteq> [] \<and> \<not> HasPrefix path base")
  case True
  obtain t where "TrimSuffix base ''/'' @ ''/'' = base @ t" using TrimSuffix_slash by blast
  with True have "rewrite_path base path = base @ t @ TrimPrefix path ''/''"
    unfolding rewrite_path_def by (metis append.assoc)
  then show ?thesis by simp
qed (auto simp: rewrite_path_def HasPrefix_def)

text \<open>Whatever request the client hands to the transport (a redirected one included), what
  leaves goes to the configured scheme and host, under the configured base path; the method, the
  headers and the body are untouched, and rewriting an already rewritten request changes nothing.\<close>

lemma transport_targets_base_url:
  "\<exists>req'. RoundTrip base next_trip req = next_trip req' \<and>
     Scheme (URL req') = Scheme base \<and> Host (URL req') = Host base \<and>
     HasPrefix (Path (URL req')) (Path base) \<and>
     Method req' = Method req \<and> Header req' = Header req \<and> Body req' = Body req \<and>
     RoundTrip base next_trip req' = next_trip req'"
proof -
  let ?r = "req\<lparr>URL := rewrite_url base (URL req)\<rparr>"
  have again: "rewrite_url base (rewrite_url base (URL req)) = rewrite_url base (URL req)"
    using rewrite_path_prefix [of "Path base" "Path (URL req)"]
    by (simp add: rewrite_url_def rewrite_path_def [of _ "rewrite_path _ _"])
  show ?thesis
    by (intro exI [of _ ?r])
      (simp add: RoundTrip_def again rewrite_path_prefix, simp add: rewrite_url_def rewrite_path_prefix)
qed

end
