(* ===== verification/Backoff.thy ===== *)
theory Backoff
  imports Complex_Main Relay_Prelude
begin

text \<open>
  The retry delay of the dispatcher (\<^verbatim>\<open>backoffSchedule\<close> and \<^verbatim>\<open>jitteredBackoff\<close> of
  \<^verbatim>\<open>dispatch/dispatcher.go\<close>), with its floating-point arithmetic: a \<^verbatim>\<open>float64\<close> is the rational number
  it denotes and every operation rounds to the nearest binary64 number, ties to even.  Overflow to
  infinity is left out: no value here comes near \<open>2 ^ 1024\<close>.
\<close>

section \<open>Rounding to binary64\<close>

function bit_length :: "int \<Rightarrow> nat" where
  "bit_length n = (if n \<le> 0 then 0 else Suc (bit_length (n div 2)))"
  by pat_completeness auto
termination
  by (relation "measure nat") auto

declare bit_length.simps [simp del]

definition round_half_even :: "rat \<Rightarrow> int" where
  "round_half_even x =
     (let f = \<lfloor>x\<rfloor>; d = x - of_int f
      in if d < 1 / 2 then f else if d > 1 / 2 then f + 1 else if even f then f else f + 1)"

text \<open>
  The distance of neighbouring binary64 numbers around \<open>x\<close>: a 53-bit significand, and not below
  the smallest subnormal number \<open>2 ^ -1074\<close>.
\<close>

definition float64_grid :: "rat \<Rightarrow> rat" where
  "float64_grid x = 2 ^ (bit_length \<lfloor>\<bar>x\<bar> * 2 ^ 1074\<rfloor> - 53) / 2 ^ 1074"

definition float64 :: "rat \<Rightarrow> rat" where
  "float64 x = of_int (round_half_even (x / float64_grid x)) * float64_grid x"

lemma bit_length_lower: "0 < n \<Longrightarrow> 2 ^ (bit_length n - 1) \<le> n"
proof (induction n rule: bit_length.induct)
  case (1 n)
  show ?case
  proof (cases "n = 1")
    case True
    then show ?thesis by (simp add: bit_length.simps)
  next
    case False
    with 1(2) have "0 < n div 2" by auto
    with 1 have IH: "2 ^ (bit_length (n div 2) - 1) \<le> n div 2" by simp
    have "bit_length (n div 2) = Suc (bit_length (n div 2) - 1)"
      using \<open>0 < n div 2\<close> by (subst bit_length.simps) (simp add: bit_length.simps [of "n div 2"])
    then have "2 ^ (bit_length n - 1) = 2 * (2 :: int) ^ (bit_length (n div 2) - 1)"
      using 1(2) by (metis bit_length.simps diff_Suc_1 not_le power_Suc)
    also have "\<dots> \<le> n" using IH by linarith
    finally show ?thesis .
  qed
qed

lemma round_half_even_error: "\<bar>of_int (round_half_even x) - x\<bar> \<le> 1 / 2"
proof -
  define f where "f = \<lfloor>x\<rfloor>"
  have "of_int f \<le> x" "x < of_int f + 1" unfolding f_def by linarith+
  then show ?thesis unfolding round_half_even_def Let_def f_def [symmetric] by auto
qed

lemma float64_grid_pos: "0 < float64_grid x"
  by (simp add: float64_grid_def)

lemma float64_grid_bound: "float64_grid x \<le> \<bar>x\<bar> / 2 ^ 52 + 1 / 2 ^ 1074"
proof (cases "bit_length \<lfloor>\<bar>x\<bar> * 2 ^ 1074\<rfloor> > 53")
  case True
  let ?m = "\<lfloor>\<bar>x\<bar> * 2 ^ 1074\<rfloor>" and ?k = "bit_length \<lfloor>\<bar>x\<bar> * 2 ^ 1074\<rfloor>"
  have "0 < ?m" using True by (rule contrapos_pp) (simp add: bit_length.simps [of "\<lfloor>_\<rfloor>"])
  then have "(2 :: int) ^ (?k - 1) \<le> ?m" by (rule bit_length_lower)
  then have "of_int (2 ^ (?k - 1)) \<le> \<bar>x\<bar> * 2 ^ 1074" by (simp only: le_floor_iff)
  moreover have "?k - 1 = (?k - 53) + 52" using True by linarith
  then have "(2 :: rat) ^ (?k - 1) = 2 ^ (?k - 53) * 2 ^ 52" by (simp only: power_add)
  ultimately have "(2 :: rat) ^ (?k - 53) * 2 ^ 52 \<le> \<bar>x\<bar> * 2 ^ 1074"
    by (metis of_int_numeral of_int_power)
  then have "(2 :: rat) ^ (?k - 53) / 2 ^ 1074 \<le> \<bar>x\<bar> / 2 ^ 52"
    by (simp add: pos_divide_le_eq pos_le_divide_eq mult.commute)
  then show ?thesis
    unfolding float64_grid_def by (rule order_trans) simp
next
  case False
  then have "float64_grid x = 1 / 2 ^ 1074" by (simp add: float64_grid_def)
  then show ?thesis by simp
qed

lemma float64_error: "\<bar>float64 x - x\<bar> \<le> \<bar>x\<bar> / 2 ^ 53 + 1 / 2 ^ 1075"
proof -
  let ?g = "float64_grid x"
  have g: "0 < ?g" by (rule float64_grid_pos)
  have "float64 x - x = (of_int (round_half_even (x / ?g)) - x / ?g) * ?g"
    using g by (simp add: float64_def algebra_simps)
  then have "\<bar>float64 x - x\<bar> = \<bar>of_int (round_half_even (x / ?g)) - x / ?g\<bar> * ?g"
    using g by (simp add: abs_mult)
  also have "\<dots> \<le> 1 / 2 * ?g"
    by (rule mult_right_mono [OF round_half_even_error]) (use g in simp)
  also have "\<dots> \<le> 1 / 2 * (\<bar>x\<bar> / 2 ^ 52 + 1 / 2 ^ 1074)"
    by (rule mult_left_mono [OF float64_grid_bound]) simp
  finally show ?thesis by (simp add: field_simps)
qed

lemma float64_error_le:
  assumes "\<bar>x\<bar> \<le> 2 ^ k"
  shows "\<bar>float64 x - x\<bar> \<le> 2 ^ k / 2 ^ 52"
proof -
  have "\<bar>x\<bar> / 2 ^ 53 \<le> 2 ^ k / 2 ^ 53" using assms by (simp add: divide_right_mono)
  moreover have "(1 :: rat) / 2 ^ 1075 \<le> 2 ^ k / 2 ^ 53"
    by (rule frac_le) (simp_all add: power_increasing)
  moreover have "(2 :: rat) ^ k / 2 ^ 53 + 2 ^ k / 2 ^ 53 = 2 ^ k / 2 ^ 52" by (simp add: field_simps)
  ultimately show ?thesis using float64_error [of x] by linarith
qed


section \<open>The schedule and the jitter\<close>

definition backoffSchedule :: "duration list" where
  "backoffSchedule =
     [1 * second, 5 * second, 15 * second, 1 * minute, 5 * minute, 15 * minute, 1 * hour, 6 * hour]"

definition backoff_base :: "int \<Rightarrow> duration" where
  "backoff_base attemptNumber =
     (let n = (if attemptNumber < 1 then 1 else attemptNumber);
          idx = n - 1;
          idx = (if idx \<ge> int (length backoffSchedule) then int (length backoffSchedule) - 1 else idx)
      in backoffSchedule ! nat idx)"

text \<open>
  \<open>draw\<close> is the result of \<^verbatim>\<open>rand.Float64()\<close>, a number in the half-open unit interval.  A Go compiler
  may fuse the multiplication and the addition of the jitter into one operation with a single
  rounding (\<open>fused\<close>); the conversion to \<^verbatim>\<open>time.Duration\<close> drops the fraction.
\<close>

definition jitter :: "bool \<Rightarrow> rat \<Rightarrow> rat" where
  "jitter fused draw =
     (if fused then float64 (float64 (8 / 10) + draw * float64 (4 / 10))
      else float64 (float64 (8 / 10) + float64 (draw * float64 (4 / 10))))"

definition jitteredBackoff :: "bool \<Rightarrow> rat \<Rightarrow> int \<Rightarrow> duration" where
  "jitteredBackoff fused draw attemptNumber =
     \<lfloor>float64 (float64 (of_int (backoff_base attemptNumber)) * jitter fused draw)\<rfloor>"

lemma float64_near:
  assumes "\<bar>x - y\<bar> \<le> d" and "\<bar>x\<bar> \<le> 2 ^ k"
  shows "\<bar>float64 x - y\<bar> \<le> d + 2 ^ k / 2 ^ 52"
  using float64_error_le [OF assms(2)] assms(1) by linarith

lemma unit_product_near:
  fixes u a b :: rat
  assumes "0 \<le> u" "u < 1" "\<bar>a - b\<bar> \<le> d"
  shows "\<bar>u * a - u * b\<bar> \<le> d"
proof -
  have "\<bar>u * a - u * b\<bar> = u * \<bar>a - b\<bar>"
    using assms(1) by (simp add: abs_mult flip: right_diff_distrib)
  also have "\<dots> \<le> 1 * \<bar>a - b\<bar>" by (rule mult_right_mono) (use assms(2) in simp_all)
  finally show ?thesis using assms(3) by simp
qed

lemma near_bound: "\<bar>x - y\<bar> \<le> d \<Longrightarrow> 0 \<le> y \<Longrightarrow> y + d \<le> c \<Longrightarrow> d \<le> c \<Longrightarrow> \<bar>x\<bar> \<le> (c :: rat)"
  by linarith

lemma jitter_near:
  assumes "0 \<le> u" "u < 1"
  shows "\<bar>jitter fused u - (8 / 10 + u * (4 / 10))\<bar> \<le> 5 / 2 ^ 51"
proof -
  have c8: "\<bar>float64 (8 / 10) - 8 / 10\<bar> \<le> 1 / 2 ^ 52"
    and c4: "\<bar>float64 (4 / 10) - 4 / 10\<bar> \<le> 1 / 2 ^ 52"
    using float64_error_le [of "8 / 10" 0] float64_error_le [of "4 / 10" 0] by simp_all
  have p: "\<bar>u * float64 (4 / 10) - u * (4 / 10)\<bar> \<le> 1 / 2 ^ 52"
    by (rule unit_product_near [OF assms c4])
  have small: "0 \<le> u * (4 / 10)" "u * (4 / 10) \<le> 4 / 10" using assms by auto
  then have "\<bar>u * float64 (4 / 10)\<bar> \<le> 2 ^ 0" by (intro near_bound [OF p]) simp_all
  then have q: "\<bar>float64 (u * float64 (4 / 10)) - u * (4 / 10)\<bar> \<le> 1 / 2 ^ 52 + 1 / 2 ^ 52"
    using float64_near [OF p, of 0] by simp
  show ?thesis
  proof (cases fused)
    case True
    have s: "\<bar>float64 (8 / 10) + u * float64 (4 / 10) - (8 / 10 + u * (4 / 10))\<bar> \<le> 2 / 2 ^ 52"
      using c8 p by linarith
    have "\<bar>float64 (8 / 10) + u * float64 (4 / 10)\<bar> \<le> 2 ^ 1"
      using small by (intro near_bound [OF s]) simp_all
    from float64_near [OF s this] True show ?thesis by (simp add: jitter_def)
  next
    case False
    have s: "\<bar>float64 (8 / 10) + float64 (u * float64 (4 / 10)) - (8 / 10 + u * (4 / 10))\<bar> \<le> 3 / 2 ^ 52"
      using c8 q by linarith
    have "\<bar>float64 (8 / 10) + float64 (u * float64 (4 / 10))\<bar> \<le> 2 ^ 1"
      using small by (intro near_bound [OF s]) simp_all
    from float64_near [OF s this] False show ?thesis by (simp add: jitter_def)
  qed
qed

lemma backoff_base_mem: "backoff_base n \<in> set backoffSchedule"
proof -
  have "length backoffSchedule = 8" by (simp add: backoffSchedule_def)
  then show ?thesis unfolding backoff_base_def Let_def by (intro nth_mem) auto
qed

lemma backoff_base_range:
  "1 * second \<le> backoff_base n \<and> backoff_base n \<le> 6 * hour \<and> 5 dvd backoff_base n"
  using backoff_base_mem [of n] by (auto simp: backoffSchedule_def)

lemma backoff_product_near:
  fixes b u :: rat
  assumes "0 \<le> b" "b \<le> 2 ^ 45" "0 \<le> u" "u < 1"
  shows "\<bar>float64 (float64 b * jitter fused u) - b * (8 / 10 + u * (4 / 10))\<bar> < 1"
proof -
  let ?x = "8 / 10 + u * (4 / 10)" and ?j = "jitter fused u"
  have x: "0 \<le> ?x" "?x \<le> 12 / 10" using assms(3,4) by auto
  have j: "\<bar>?j - ?x\<bar> \<le> 5 / 2 ^ 51" by (rule jitter_near [OF assms(3,4)])
  have j2: "\<bar>?j\<bar> \<le> 2" by (rule near_bound [OF j]) (use x in simp_all)
  have "\<bar>b\<bar> \<le> 2 ^ 45" using assms(1,2) by simp
  then have fb: "\<bar>float64 b - b\<bar> \<le> 1 / 2 ^ 7" using float64_error_le [of b 45] by simp
  have "\<bar>float64 b * ?j - b * ?j\<bar> = \<bar>float64 b - b\<bar> * \<bar>?j\<bar>"
    by (simp add: abs_mult flip: left_diff_distrib)
  also have "\<dots> \<le> 1 / 2 ^ 7 * 2" by (rule mult_mono [OF fb j2]) simp_all
  finally have d1: "\<bar>float64 b * ?j - b * ?j\<bar> \<le> 1 / 2 ^ 6" by simp
  have "\<bar>b * ?j - b * ?x\<bar> = b * \<bar>?j - ?x\<bar>"
    using assms(1) by (simp add: abs_mult flip: right_diff_distrib)
  also have "\<dots> \<le> 2 ^ 45 * (5 / 2 ^ 51)" by (rule mult_mono [OF assms(2) j]) simp_all
  finally have d2: "\<bar>b * ?j - b * ?x\<bar> \<le> 5 / 2 ^ 6" by simp
  have d: "\<bar>float64 b * ?j - b * ?x\<bar> \<le> 6 / 2 ^ 6" using d1 d2 by linarith
  have bx: "0 \<le> b * ?x" "b * ?x \<le> 2 ^ 45 * (12 / 10)"
    using mult_nonneg_nonneg [OF assms(1) x(1)] mult_mono [OF assms(2) x(2) _ x(1)] by simp_all
  have "\<bar>float64 b * ?j\<bar> \<le> 2 ^ 46"
    by (rule near_bound [OF d bx(1)]) (use bx(2) in simp_all)
  from float64_near [OF d this] show ?thesis by simp
qed

lemma jitteredBackoff_window:
  assumes "0 \<le> u" "u < 1"
  shows "4 * backoff_base n - 5 \<le> 5 * jitteredBackoff fused u n \<and>
    5 * jitteredBackoff fused u n \<le> 6 * backoff_base n"
proof -
  define b where "b = backoff_base n"
  obtain k where k: "b = 5 * k" using backoff_base_range [of n] b_def by blast
  let ?B = "of_int b :: rat"
  define v where "v = float64 (float64 ?B * jitter fused u)"
  have "0 \<le> b" "b \<le> 2 ^ 45" using backoff_base_range [of n] by (simp_all add: b_def)
  then have B: "0 \<le> ?B" "?B \<le> 2 ^ 45" by (simp, metis of_int_le_iff of_int_numeral of_int_power)
  have near: "\<bar>v - ?B * (8 / 10 + u * (4 / 10))\<bar> < 1"
    unfolding v_def by (rule backoff_product_near [OF B assms])
  have "?B * u \<le> ?B * 1" "0 \<le> ?B * u"
    using mult_left_mono [of u 1 ?B] mult_nonneg_nonneg [OF B(1)] B assms by auto
  with near have "?B * (8 / 10) - 1 < v" "v < ?B * (12 / 10) + 1"
    by (simp_all add: algebra_simps abs_less_iff)
  with k have "of_int (4 * k - 1) < v" "v < of_int (6 * k + 1)" by simp_all
  then have "4 * k - 1 \<le> \<lfloor>v\<rfloor>" "\<lfloor>v\<rfloor> \<le> 6 * k" by linarith+
  then show ?thesis
    unfolding jitteredBackoff_def b_def [symmetric] v_def [symmetric] using k by linarith
qed

section \<open>Properties\<close>

text \<open>C29: The retry delay stays in its window: whatever the random draw and however the compiler
  rounds, it is within a nanosecond of 80 to 120 percent of the schedule's entry, hence positive
  and at most 7.2 hours, for every attempt number.\<close>

theorem backoff_in_window:
  assumes "0 \<le> draw" "draw < 1"
  shows "4 * backoff_base n - 5 \<le> 5 * jitteredBackoff fused draw n \<and>
    5 * jitteredBackoff fused draw n \<le> 6 * backoff_base n \<and>
    0 < jitteredBackoff fused draw n \<and> jitteredBackoff fused draw n \<le> 432 * minute"
  using jitteredBackoff_window [OF assms, of n fused] backoff_base_range [of n] by simp

theorem backoff_in_window_witness:
  "0 < jitteredBackoff False (1 / 2) 3 \<and> jitteredBackoff False (1 / 2) 3 \<le> 432 * minute"
  using backoff_in_window [of "1 / 2" 3 False] by simp

end
