(* ===== verification/Dispatcher.thy ===== *)
theory Dispatcher
  imports Queue_Interface Relay_Metrics Bulk_Sender Backoff
begin

text \<open>
  The dispatcher (\<^verbatim>\<open>dispatch/dispatcher.go\<close>, \<^verbatim>\<open>dispatch/limiter.go\<close>): worker loops that claim a batch, send
  it and record the outcome, the loop that recovers expired leases, the loop that polls the queue
  depth, and the readiness test.  The store is any value of the interface \<^typ>\<open>'s queue_ops\<close>, the
  sender any function of its type.  What a goroutine reads from its surroundings while it runs
  (clock, random numbers, context, limiter) is given per iteration by an environment record.
  Logging is left out.
\<close>

section \<open>Configuration and construction\<close>

record dispatch_config =
  Workers :: int
  QueueClaimLimit :: int
  QueueLeaseTimeout :: duration
  BatchMaxCount :: int
  BatchMaxBytes :: int
  BatchFlushInterval :: duration
  RetryMaxAttempts :: int
  RequeueStaleEvery :: duration
  QueueDepthPollEvery :: duration

text \<open>A rate limiter is its interval between requests and its burst.\<close>

datatype request_limiter = NoopLimiter | RateLimiter duration nat

definition NewRequestLimiter :: "int \<Rightarrow> request_limiter" where
  "NewRequestLimiter requestsPerMin =
     (if requestsPerMin \<le> 0 then NoopLimiter else RateLimiter (minute div requestsPerMin) 1)"

text \<open>\<^verbatim>\<open>Wait\<close>: the rate limiter is a library's, its answer comes from the environment.\<close>

fun limiter_Wait :: "request_limiter \<Rightarrow> string option \<Rightarrow> string option" where
  "limiter_Wait NoopLimiter answer = None"
| "limiter_Wait (RateLimiter interval burst) answer = answer"

record 's dispatcher =
  cfg :: dispatch_config
  store :: "'s queue_ops"
  sender :: "message option list \<Rightarrow> SendResult \<times> go_error option"
  limiter :: request_limiter

definition New :: "dispatch_config \<Rightarrow> 's queue_ops \<Rightarrow>
    (message option list \<Rightarrow> SendResult \<times> go_error option) \<Rightarrow> request_limiter option \<Rightarrow>
    's dispatcher" where
  "New c st send lmt =
     \<lparr>cfg = c, store = st, sender = send,
      limiter = (case lmt of None \<Rightarrow> NoopLimiter | Some l \<Rightarrow> l)\<rparr>"

text \<open>What the goroutines share: the store, the metrics and the heartbeat (an \<^verbatim>\<open>atomic.Int64\<close>).\<close>

record 's dispatch_state =
  store_state :: 's
  metrics_state :: metrics
  lastHeartbeat :: int

definition Ready :: "dispatch_config \<Rightarrow> go_time \<Rightarrow> int \<Rightarrow> bool" where
  "Ready c now last_beat =
     (if last_beat = 0 then False
      else let maxAge = wrap64 (3 * BatchFlushInterval c);
               maxAge = (if maxAge < 5 * second then 5 * second else maxAge)
           in now - last_beat * second \<le> maxAge)"

section \<open>Splitting a list of jobs into batches\<close>

fun split_loop :: "int \<Rightarrow> int \<Rightarrow> job list \<Rightarrow> job list list \<Rightarrow> job list \<Rightarrow> int \<Rightarrow> job list list" where
  "split_loop maxCount maxBytes [] out cur curBytes = (if cur \<noteq> [] then out @ [cur] else out)"
| "split_loop maxCount maxBytes (j # jobs) out cur curBytes =
     (let est = int (length (job_PayloadJSON j)) + 128
      in if length cur > 0 \<and> (int (length cur) \<ge> maxCount \<or> curBytes + est > maxBytes)
         then split_loop maxCount maxBytes jobs (out @ [cur]) [j] est
         else split_loop maxCount maxBytes jobs out (cur @ [j]) (curBytes + est))"

definition splitBatches :: "job list \<Rightarrow> int \<Rightarrow> int \<Rightarrow> job list list" where
  "splitBatches jobs maxCount maxBytes =
     (if jobs = [] then []
      else let maxCount = (if maxCount \<le> 0 then 500 else maxCount);
               maxBytes = (if maxBytes \<le> 0 then 5 * 1024 * 1024 else maxBytes)
           in split_loop maxCount maxBytes jobs [] [] 0)"

section \<open>Failures\<close>

definition classifyFailure :: "int \<Rightarrow> go_error option \<Rightarrow> string" where
  "classifyFailure statusCode err =
     (if err = None then ''success''
      else if statusCode = 0 then ''retry''
      else if statusCode = 408 \<or> statusCode = 425 \<or> statusCode = 429 \<or> statusCode \<ge> 500
           then ''retry''
      else if statusCode \<in> {400, 401, 403, 404, 405, 409, 410, 413, 422} then ''dlq''
      else if statusCode \<ge> 400 \<and> statusCode < 500 then ''dlq''
      else ''retry'')"

definition safeErr :: "go_error option \<Rightarrow> string" where
  "safeErr err =
     (case err of
        None \<Rightarrow> []
      | Some e \<Rightarrow> let msg = error_text e in if length msg > 1024 then take 1024 msg else msg)"

section \<open>Processing a batch\<close>

record batch_env =
  latency :: duration
  success_time :: go_time
  retry_time :: go_time
  sent_mark_time :: go_time
  retry_mark_time :: go_time
  dlq_mark_time :: go_time
  fused :: bool
  draw :: rat

datatype dispatch_error = StoreErr store_error | MarkRetryErr store_error | MarkDlqErr store_error

definition status_code :: "SendResult \<Rightarrow> go_error option \<Rightarrow> int" where
  "status_code result err =
     (if HTTPStatus result = 0
      then (case err of Some (SenderErr (Some se)) \<Rightarrow> StatusCode se | _ \<Rightarrow> 0)
      else HTTPStatus result)"

definition status_label :: "int \<Rightarrow> string" where
  "status_label statusCode = (if statusCode = 0 then ''network'' else Itoa statusCode)"

text \<open>The loop that divides a failed batch by the attempts the jobs have left.\<close>

definition exhausted :: "dispatch_config \<Rightarrow> job \<Rightarrow> bool" where
  "exhausted c j \<longleftrightarrow> job_AttemptCount j + 1 \<ge> RetryMaxAttempts c"

definition mark_dead_batch :: "'s dispatcher \<Rightarrow> batch_env \<Rightarrow> job list \<Rightarrow> go_error option \<Rightarrow> int \<Rightarrow>
    's \<times> metrics \<Rightarrow> ('s \<times> metrics) \<times> dispatch_error option" where
  "mark_dead_batch D env jobs err statusCode sm =
     (case sm of (s, m) \<Rightarrow>
       (case do_MarkDLQ (store D) (dlq_mark_time env) jobs (safeErr err) statusCode s of
          (s', Some e) \<Rightarrow> ((s', m), Some (MarkDlqErr e))
        | (s', None) \<Rightarrow> ((s', m\<lparr>DispatchDLQ := DispatchDLQ m + length jobs\<rparr>), None)))"

definition retry_batch :: "'s dispatcher \<Rightarrow> batch_env \<Rightarrow> job list \<Rightarrow> go_error option \<Rightarrow> int \<Rightarrow>
    's \<times> metrics \<Rightarrow> ('s \<times> metrics) \<times> dispatch_error option" where
  "retry_batch D env jobs err statusCode sm =
     (let dlqJobs = filter (exhausted (cfg D)) jobs;
          retryJobs = filter (\<lambda>j. \<not> exhausted (cfg D) j) jobs;
          after_retry =
            (case sm of (s, m) \<Rightarrow>
              if length retryJobs > 0
              then (let nxt = retry_time env +
                          jitteredBackoff (fused env) (draw env) (job_AttemptCount (hd retryJobs) + 1)
                    in case do_MarkRetry (store D) (retry_mark_time env) retryJobs nxt (safeErr err)
                              statusCode s of
                         (s', Some e) \<Rightarrow> ((s', m), Some (MarkRetryErr e))
                       | (s', None) \<Rightarrow>
                           ((s', m\<lparr>DispatchRetries := DispatchRetries m + length retryJobs\<rparr>), None))
              else ((s, m), None))
      in case after_retry of
           (sm', Some e) \<Rightarrow> (sm', Some e)
         | (sm', None) \<Rightarrow>
             if length dlqJobs > 0 then mark_dead_batch D env dlqJobs err statusCode sm'
             else (sm', None))"

definition processBatch :: "'s dispatcher \<Rightarrow> batch_env \<Rightarrow> job list \<Rightarrow> 's \<times> metrics \<Rightarrow>
    ('s \<times> metrics) \<times> dispatch_error option" where
  "processBatch D env jobs sm =
     (if length jobs = 0 then (sm, None)
      else case sm of (s, m) \<Rightarrow>
        (let messages = map job_Message jobs;
             (result, err) = sender D messages;
             m = m\<lparr>DispatchBatchSize := length jobs # DispatchBatchSize m,
                   DispatchLatencySeconds := latency env # DispatchLatencySeconds m\<rparr>;
             statusCode = status_code result err;
             statusLabel = status_label statusCode
         in if err = None
            then (let m = inc_api_calls ''success'' statusLabel m;
                      m = m\<lparr>DispatchLastSuccessUnix := unix_seconds (success_time env)\<rparr>
                  in case do_MarkSent (store D) (sent_mark_time env) jobs (BulkEmailID result) s of
                       (s', e) \<Rightarrow> ((s', m), map_option StoreErr e))
            else (let class_name = classifyFailure statusCode err;
                      m = inc_api_calls class_name statusLabel m
                  in if class_name = ''retry'' then retry_batch D env jobs err statusCode (s, m)
                     else if class_name = ''dlq'' then mark_dead_batch D env jobs err statusCode (s, m)
                     else (case do_MarkDLQ (store D) (dlq_mark_time env) jobs (safeErr err) statusCode s of
                             (s', e) \<Rightarrow> ((s', m), map_option StoreErr e)))))"

section \<open>The goroutines\<close>

text \<open>
  One pass through the loop of a worker.  \<open>ctx_done\<close>, \<open>limiter_done\<close>, \<open>claim_done\<close> and \<open>idle_done\<close>
  say which branch the \<^verbatim>\<open>select\<close> statements took.  The second component of the result is false when
  the worker returns.
\<close>

record iteration_env =
  ctx_done :: bool
  heartbeat_time :: go_time
  waited :: duration
  limiter_answer :: "string option"
  limiter_done :: bool
  claim_time :: go_time
  claim_done :: bool
  idle_done :: bool
  batch :: batch_env

definition worker_iteration :: "'s dispatcher \<Rightarrow> iteration_env \<Rightarrow> 's dispatch_state \<Rightarrow>
    's dispatch_state \<times> bool" where
  "worker_iteration D env w =
     (if ctx_done env then (w, False)
      else let w = w\<lparr>lastHeartbeat := unix_seconds (heartbeat_time env)\<rparr>
           in case limiter_Wait (limiter D) (limiter_answer env) of
                Some e \<Rightarrow> (w, \<not> limiter_done env)
              | None \<Rightarrow>
                  (let m = metrics_state w;
                       m = (if waited env > 0
                            then m\<lparr>DispatchThrottleWaits := Suc (DispatchThrottleWaits m),
                                   DispatchThrottleWaitSeconds :=
                                     waited env # DispatchThrottleWaitSeconds m\<rparr>
                            else m);
                       w = w\<lparr>metrics_state := m\<rparr>;
                       c = cfg D
                   in case do_ClaimDispatchBatch (store D) (claim_time env) (QueueClaimLimit c)
                             (QueueLeaseTimeout c) (BatchMaxCount c) (BatchMaxBytes c) (store_state w) of
                        (s', Inl e) \<Rightarrow> (w\<lparr>store_state := s'\<rparr>, \<not> claim_done env)
                      | (s', Inr jobs) \<Rightarrow>
                          if length jobs = 0 then (w\<lparr>store_state := s'\<rparr>, \<not> idle_done env)
                          else (case processBatch D (batch env) jobs (s', m) of
                                  ((s'', m'), _) \<Rightarrow>
                                    (w\<lparr>store_state := s'', metrics_state := m'\<rparr>, True))))"

fun worker_iterations :: "'s dispatcher \<Rightarrow> iteration_env list \<Rightarrow> 's dispatch_state \<Rightarrow>
    's dispatch_state \<times> bool" where
  "worker_iterations D [] w = (w, True)"
| "worker_iterations D (env # envs) w =
     (case worker_iteration D env w of
        (w', True) \<Rightarrow> worker_iterations D envs w'
      | (w', False) \<Rightarrow> (w', False))"

text \<open>\<^verbatim>\<open>time.NewTicker\<close> panics on an interval that is not positive; \<open>None\<close> is the panic.\<close>

definition NewTicker :: "duration \<Rightarrow> unit option" where
  "NewTicker d = (if d \<le> 0 then None else Some ())"

definition workerLoop :: "'s dispatcher \<Rightarrow> iteration_env list \<Rightarrow> 's dispatch_state \<Rightarrow>
    ('s dispatch_state \<times> bool) option" where
  "workerLoop D envs w =
     map_option (\<lambda>_. worker_iterations D envs w) (NewTicker (BatchFlushInterval (cfg D)))"

datatype tick = CtxDone | Tick go_time

definition stale_tick :: "'s dispatcher \<Rightarrow> go_time \<Rightarrow> 's dispatch_state \<Rightarrow> 's dispatch_state" where
  "stale_tick D now w =
     (case do_RequeueStaleProcessing (store D) now (QueueLeaseTimeout (cfg D)) (store_state w) of
        (s', Inl e) \<Rightarrow> w\<lparr>store_state := s'\<rparr>
      | (s', Inr n) \<Rightarrow>
          let w = w\<lparr>store_state := s'\<rparr>
          in if n > 0
             then w\<lparr>metrics_state := (metrics_state w)\<lparr>RequeueStaleRecoveries :=
                    RequeueStaleRecoveries (metrics_state w) + n\<rparr>\<rparr>
             else w)"

definition depth_tick :: "'s dispatcher \<Rightarrow> 's dispatch_state \<Rightarrow> 's dispatch_state" where
  "depth_tick D w =
     (case do_CountByStatus (store D) (store_state w) of
        Inl e \<Rightarrow> w
      | Inr counts \<Rightarrow>
          w\<lparr>metrics_state := (metrics_state w)\<lparr>QueueDepth :=
              fold (\<lambda>st g. case counts st of None \<Rightarrow> g | Some n \<Rightarrow> g(status_text st \<mapsto> int n))
                enum_class.enum (QueueDepth (metrics_state w))\<rparr>\<rparr>)"

fun tick_loop :: "(go_time \<Rightarrow> 's dispatch_state \<Rightarrow> 's dispatch_state) \<Rightarrow> tick list \<Rightarrow>
    's dispatch_state \<Rightarrow> 's dispatch_state \<times> bool" where
  "tick_loop body [] w = (w, True)"
| "tick_loop body (CtxDone # ts) w = (w, False)"
| "tick_loop body (Tick now # ts) w = tick_loop body ts (body now w)"

definition requeueStaleLoop :: "'s dispatcher \<Rightarrow> tick list \<Rightarrow> 's dispatch_state \<Rightarrow>
    ('s dispatch_state \<times> bool) option" where
  "requeueStaleLoop D ts w =
     map_option (\<lambda>_. tick_loop (stale_tick D) ts w) (NewTicker (RequeueStaleEvery (cfg D)))"

definition queueDepthLoop :: "'s dispatcher \<Rightarrow> tick list \<Rightarrow> 's dispatch_state \<Rightarrow>
    ('s dispatch_state \<times> bool) option" where
  "queueDepthLoop D ts w =
     map_option (\<lambda>_. tick_loop (\<lambda>_. depth_tick D) ts w) (NewTicker (QueueDepthPollEvery (cfg D)))"

datatype goroutine = WorkerLoop nat | RequeueStaleLoop | QueueDepthLoop

text \<open>\<^verbatim>\<open>Start\<close> launches these goroutines; each first creates its ticker.\<close>

definition Start :: "dispatch_config \<Rightarrow> goroutine list" where
  "Start c = map WorkerLoop [0..<nat (Workers c)] @ [RequeueStaleLoop, QueueDepthLoop]"

end
