(* ===== verification/Dispatch_Correct.thy ===== *)
theory Dispatch_Correct
  imports Dispatcher
begin

text \<open>
  What a dispatched batch does to the queue.  The lemmas are proved once against the contracts of
  the store and of the sender (locale \<open>dispatching\<close>) and hold for the SQLite store and the
  MailerSend sender (interpretation \<open>relay\<close>).
\<close>

section \<open>Classification\<close>

text \<open>The specification: the statuses that will not succeed when the request is repeated.\<close>

definition permanent_status :: "int \<Rightarrow> bool" where
  "permanent_status code \<longleftrightarrow> 400 \<le> code \<and> code \<le> 499 \<and> code \<noteq> 408 \<and> code \<noteq> 425 \<and> code \<noteq> 429"

lemma classify_error:
  "classifyFailure code (Some e) = (if permanent_status code then ''dlq'' else ''retry'')"
  by (auto simp: classifyFailure_def permanent_status_def)

text \<open>What becomes of a job when the sender answers with \<open>code\<close> and \<open>err\<close>.\<close>

definition job_outcome :: "dispatch_config \<Rightarrow> int \<Rightarrow> go_error option \<Rightarrow> job \<Rightarrow> job_status" where
  "job_outcome c code err j =
     (if err = None then StatusSent
      else if permanent_status code \<or> exhausted c j then StatusDLQ
      else StatusRetry)"

section \<open>Marking, as the dispatcher uses it\<close>

text \<open>A batch a worker holds: distinct jobs in processing, with their current attempt count.\<close>

definition held :: "(string \<Rightarrow> (job_status \<times> int) option) \<Rightarrow> job list \<Rightarrow> bool" where
  "held v jobs \<longleftrightarrow> distinct (map job_ID jobs) \<and>
     (\<forall>j \<in> set jobs. v (job_ID j) = Some (StatusProcessing, job_AttemptCount j))"

text \<open>The jobs of the batch that satisfy \<open>P\<close> are settled with the status \<open>F\<close> gives; no other job changes.\<close>

definition settles :: "(job \<Rightarrow> job_status) \<Rightarrow> job list \<Rightarrow> (string \<Rightarrow> (job_status \<times> int) option) \<Rightarrow>
    (string \<Rightarrow> (job_status \<times> int) option) \<Rightarrow> bool" where
  "settles F jobs v v' \<longleftrightarrow>
     (\<forall>j \<in> set jobs. v' (job_ID j) = Some (F j, job_AttemptCount j + 1)) \<and>
     (\<forall>i. i \<notin> job_ID ` set jobs \<longrightarrow> v' i = v i)"

lemma held_filter: "held v jobs \<Longrightarrow> held v (filter P jobs)"
  by (simp add: held_def distinct_map_filter)

lemma held_frame: "held v jobs \<Longrightarrow> (\<And>j. j \<in> set jobs \<Longrightarrow> v' (job_ID j) = v (job_ID j)) \<Longrightarrow> held v' jobs"
  by (simp add: held_def)

lemma mark_jobs_settles: "held v jobs \<Longrightarrow> settles (\<lambda>_. F) jobs v (mark_jobs F (job_ID ` set jobs) v)"
  by (auto simp: held_def settles_def mark_jobs_def split: option.split prod.split job_status.split)

lemma settles_cong: "settles F jobs v v' \<Longrightarrow> (\<And>j. j \<in> set jobs \<Longrightarrow> F j = G j) \<Longrightarrow> settles G jobs v v'"
  by (simp add: settles_def)

lemma settles_nil [simp]: "settles F [] v v' \<longleftrightarrow> v' = v"
  by (auto simp: settles_def)

lemma settles_outside: "settles F jobs v v' \<Longrightarrow> i \<notin> job_ID ` set jobs \<Longrightarrow> v' i = v i"
  by (simp add: settles_def)

lemma filter_ids_disjoint:
  assumes "distinct (map job_ID jobs)" and "j \<in> set jobs" and "\<not> P j"
  shows "job_ID j \<notin> job_ID ` set (filter P jobs)"
proof
  assume "job_ID j \<in> job_ID ` set (filter P jobs)"
  then obtain k where "k \<in> set jobs" "P k" "job_ID k = job_ID j" by auto
  with assms show False by (metis distinct_map_filter_inj)
qed

lemma settles_split:
  assumes "held v jobs" and "settles F (filter (\<lambda>j. \<not> P j) jobs) v u" and "settles G (filter P jobs) u w"
  shows "settles (\<lambda>j. if P j then G j else F j) jobs v w"
proof -
  have dist: "distinct (map job_ID jobs)" using assms(1) by (simp add: held_def)
  have "w (job_ID j) = Some (if P j then G j else F j, job_AttemptCount j + 1)" if "j \<in> set jobs" for j
  proof (cases "P j")
    case True
    with that assms(3) show ?thesis by (simp add: settles_def)
  next
    case False
    from settles_outside [OF assms(3) filter_ids_disjoint [OF dist that, of P]] False
    have "w (job_ID j) = u (job_ID j)" by simp
    with that assms(2) False show ?thesis by (simp add: settles_def)
  qed
  moreover have "w i = v i" if "i \<notin> job_ID ` set jobs" for i
  proof -
    have "i \<notin> job_ID ` set (filter Q jobs)" for Q using that by auto
    then show ?thesis using settles_outside [OF assms(2)] settles_outside [OF assms(3)] by metis
  qed
  ultimately show ?thesis by (simp add: settles_def)
qed

section \<open>Batches against the contracts\<close>

locale dispatching = queue_store "store D" invar view + bulk_sender "sender D"
  for D :: "'s dispatcher" and invar :: "'s \<Rightarrow> bool"
    and view :: "'s \<Rightarrow> string \<Rightarrow> (job_status \<times> int) option"
begin

lemma mark_dead_batch_view:
  assumes "mark_dead_batch D env jobs err code (s, m) = ((s', m'), e)" and "held (view s) jobs"
  shows "if e = None then settles (\<lambda>_. StatusDLQ) jobs (view s) (view s') else view s' = view s"
proof -
  obtain s1 r where r: "do_MarkDLQ (store D) (dlq_mark_time env) jobs (safeErr err) code s = (s1, r)"
    by fastforce
  then have "s' = s1" "e = map_option MarkDlqErr r"
    using assms(1) by (auto simp: mark_dead_batch_def split: option.splits)
  with mark_dlq [OF r] mark_jobs_settles [OF assms(2)] show ?thesis by simp
qed

lemma retry_batch_view:
  assumes "retry_batch D env jobs err code (s, m) = ((s', m'), e)" and "held (view s) jobs"
  shows "if e = None
    then settles (\<lambda>j. if exhausted (cfg D) j then StatusDLQ else StatusRetry) jobs (view s) (view s')
    else view s' = view s \<or>
      settles (\<lambda>_. StatusRetry) (filter (\<lambda>j. \<not> exhausted (cfg D) j) jobs) (view s) (view s')"
proof -
  let ?P = "exhausted (cfg D)"
  let ?r = "filter (\<lambda>j. \<not> ?P j) jobs" and ?d = "filter ?P jobs"
  let ?next = "retry_time env +
      jitteredBackoff (fused env) (draw env) (job_AttemptCount (hd ?r) + 1)"
  have dist: "distinct (map job_ID jobs)" using assms(2) by (simp add: held_def)
  have dead: "if e = None
      then settles (\<lambda>j. if ?P j then StatusDLQ else StatusRetry) jobs (view s) (view s')
      else view s' = view u"
    if u: "settles (\<lambda>_. StatusRetry) ?r (view s) (view u)"
      and run: "(if length ?d > 0 then mark_dead_batch D env ?d err code (u, n) else ((u, n), None)) =
        ((s', m'), e)" for u n
  proof (cases "?d = []")
    case True
    with run u settles_split [OF assms(2) u, of "\<lambda>_. StatusDLQ" "view u"] show ?thesis by simp
  next
    case False
    have "held (view u) ?d"
    proof (rule held_frame [OF held_filter [OF assms(2)]])
      fix j assume "j \<in> set ?d"
      then show "view u (job_ID j) = view s (job_ID j)"
        using settles_outside [OF u] filter_ids_disjoint [OF dist, of j "\<lambda>j. \<not> ?P j"] by simp
    qed
    from mark_dead_batch_view [OF _ this] run False settles_split [OF assms(2) u] show ?thesis
      by simp
  qed
  show ?thesis
  proof (cases "?r = []")
    case True
    with dead [of s m] assms(1) show ?thesis by (auto simp: retry_batch_def Let_def)
  next
    case False
    obtain u r where ur: "do_MarkRetry (store D) (retry_mark_time env) ?r ?next (safeErr err) code s = (u, r)"
      by fastforce
    show ?thesis
    proof (cases r)
      case (Some x)
      then have "s' = u" "e = Some (MarkRetryErr x)"
        using assms(1) False ur by (simp_all add: retry_batch_def Let_def)
      with Some mark_retry [OF ur] show ?thesis by simp
    next
      case None
      then have u: "settles (\<lambda>_. StatusRetry) ?r (view s) (view u)"
        using mark_retry [OF ur] mark_jobs_settles [OF held_filter [OF assms(2)]] by simp
      from None assms(1) False ur have "(if length ?d > 0
          then mark_dead_batch D env ?d err code (u, m\<lparr>DispatchRetries := DispatchRetries m + length ?r\<rparr>)
          else ((u, m\<lparr>DispatchRetries := DispatchRetries m + length ?r\<rparr>), None)) = ((s', m'), e)"
        by (simp add: retry_batch_def Let_def)
      from dead [OF u this] u show ?thesis by (auto split: if_splits)
    qed
  qed
qed

lemma processBatch_view:
  assumes "processBatch D env jobs (s, m) = ((s', m'), e)" and "held (view s) jobs"
    and "sender D (map job_Message jobs) = (result, err)"
  shows "if e = None
    then settles (job_outcome (cfg D) (HTTPStatus result) err) jobs (view s) (view s')
    else view s' = view s \<or>
      err \<noteq> None \<and> \<not> permanent_status (HTTPStatus result) \<and>
      settles (\<lambda>_. StatusRetry) (filter (\<lambda>j. \<not> exhausted (cfg D) j) jobs) (view s) (view s')"
proof (cases "jobs = []")
  case False
  let ?code = "HTTPStatus result"
  let ?m = "m\<lparr>DispatchBatchSize := length jobs # DispatchBatchSize m,
              DispatchLatencySeconds := latency env # DispatchLatencySeconds m\<rparr>"
  show ?thesis
  proof (cases err)
    case None
    obtain s1 r where r: "do_MarkSent (store D) (sent_mark_time env) jobs (BulkEmailID result) s = (s1, r)"
      by fastforce
    with None assms(1,3) False have "s' = s1" "e = map_option StoreErr r"
      by (simp_all add: processBatch_def Let_def)
    with mark_sent [OF r] mark_jobs_settles [OF assms(2), of StatusSent] None show ?thesis
      by (auto simp: job_outcome_def elim: settles_cong)
  next
    case (Some x)
    then obtain se where "err = Some (SenderErr (Some se))" "StatusCode se = ?code"
      using send_error assms(3) by blast
    then have code: "status_code result err = ?code" by (simp add: status_code_def)
    define class_name where "class_name = classifyFailure ?code err"
    define m1 where "m1 = inc_api_calls class_name (status_label ?code) ?m"
    have cls: "class_name = (if permanent_status ?code then ''dlq'' else ''retry'')"
      by (simp add: class_name_def classify_error Some)
    show ?thesis
    proof (cases "permanent_status ?code")
      case True
      then have "mark_dead_batch D env jobs err ?code (s, m1) = ((s', m'), e)"
        using assms(1,3) False Some cls code
        by (simp add: processBatch_def Let_def m1_def class_name_def)
      from mark_dead_batch_view [OF this assms(2)] True Some show ?thesis
        by (auto simp: job_outcome_def elim: settles_cong split: if_splits)
    next
      case temporary: False
      then have "retry_batch D env jobs err ?code (s, m1) = ((s', m'), e)"
        using assms(1,3) False Some cls code
        by (simp add: processBatch_def Let_def m1_def class_name_def)
      from retry_batch_view [OF this assms(2)] temporary Some show ?thesis
        by (auto simp: job_outcome_def elim: settles_cong split: if_splits)
    qed
  qed
qed (use assms in \<open>simp add: processBatch_def\<close>)

lemma processBatch_invar:
  assumes "processBatch D env jobs (s, m) = ((s', m'), e)" and "invar s"
  shows "invar s'"
  using assms
  by (auto simp: processBatch_def retry_batch_def mark_dead_batch_def Let_def
      split: if_splits prod.splits option.splits dest: invar_mark)

end

lemma New_simps [simp]:
  "store (New c st send l) = st" "sender (New c st send l) = send" "cfg (New c st send l) = c"
  by (simp_all add: New_def)

text \<open>The dispatcher as \<^verbatim>\<open>cmd/relay\<close> builds it meets the contracts.\<close>

interpretation relay: dispatching "New c (sqlite_queue S flt) (Send X M) l" store_inv job_view
  for c S flt X M l
  unfolding dispatching_def New_simps
  by (intro conjI sqlite.queue_store_axioms mailersend.bulk_sender_axioms)

text \<open>A store that does not fail never makes a batch fail.\<close>

lemma mark_no_faults:
  "MarkSent no_faults now jobs b t =
     (update_where (mark_guard (job_ID ` set jobs)) (sent_set b now) t, None)"
  "MarkRetry no_faults now jobs nx msg code t =
     (update_where (mark_guard (job_ID ` set jobs)) (retry_set nx msg code now) t, None)"
  "MarkDLQ no_faults now jobs msg code t =
     (update_where (mark_guard (job_ID ` set jobs)) (dlq_set msg code now) t, None)"
  by (simp_all add: mark_defs mark_sent.mark_tx_no_faults mark_retry.mark_tx_no_faults
      mark_dead.mark_tx_no_faults)

lemma processBatch_no_faults:
  "snd (processBatch (New c (sqlite_queue S (\<lambda>_. no_faults)) send l) env jobs sm) = None"
proof -
  let ?D = "New c (sqlite_queue S (\<lambda>_. no_faults)) send l"
  have dead: "snd (mark_dead_batch ?D env js err code tm) = None" for js err code tm
    by (simp add: mark_dead_batch_def mark_no_faults split: prod.split)
  then have "snd (retry_batch ?D env js err code tm) = None" for js err code tm
    by (simp add: retry_batch_def Let_def mark_no_faults split: prod.split)
  with dead show ?thesis
    by (simp add: processBatch_def Let_def mark_no_faults split: prod.split)
qed

section \<open>Properties\<close>

text \<open>The failure classification is total and is exactly this: a client error (400 to 499) other
  than 408, 425 and 429 is permanent and goes to the dead-letter queue, everything else, network
  failures, redirects and server errors included, is retried.\<close>

lemma classification_exact:
  "classifyFailure code err =
     (if err = None then ''success''
      else if 400 \<le> code \<and> code \<le> 499 \<and> code \<notin> {408, 425, 429} then ''dlq''
      else ''retry'')"
  by (cases err) (auto simp: classifyFailure_def)

text \<open>C6: The outcome of a batch.  When \<open>processBatch\<close> returns without an error, every job of the batch
  has left processing with one more attempt: sent if MailerSend accepted the batch, dead-lettered
  on a permanent failure or when its attempts are used up, waiting for a retry otherwise; no other
  job has changed.  When it returns an error, the only jobs that changed are, possibly, the
  retryable ones, which are waiting for a retry: no job is marked sent or dead-lettered wrongly, and
  the others keep their lease until it expires.\<close>

theorem batch_outcome:
  assumes "processBatch (New c (sqlite_queue S flt) (Send X M) l) env jobs (t, m) = ((t', m'), e)"
    and "held (job_view t) jobs"
    and "Send X M (map job_Message jobs) = (result, err)"
  shows "if e = None
    then settles (job_outcome c (HTTPStatus result) err) jobs (job_view t) (job_view t')
    else job_view t' = job_view t \<or>
      err \<noteq> None \<and> \<not> permanent_status (HTTPStatus result) \<and>
      settles (\<lambda>_. StatusRetry) (filter (\<lambda>j. \<not> exhausted c j) jobs) (job_view t) (job_view t')"
  using relay.processBatch_view [OF assms(1,2), unfolded New_simps, OF assms(3)] .

text \<open>C33: An accepted batch whose answer cannot be read is sent again: when MailerSend answers 2xx and
  the connection breaks while the body is read, every job of the batch goes to retry (to the
  dead-letter queue when its attempts are used up) although it was accepted.\<close>

theorem unreadable_success_is_repeated:
  assumes "marshal_bulk X (map job_Message jobs) = Inr payload"
    and "url_parse X (baseURL M @ ''/bulk-email'') = Inr u"
    and "httpClient M (bulk_request M u payload) = Inr resp"
    and "200 \<le> Response_StatusCode resp" and "Response_StatusCode resp \<le> 299"
    and "read_limited response_limit (Response_Body resp) = Inl readErr"
    and "held (job_view t) jobs"
    and "processBatch (New c (sqlite_queue S flt) (Send X M) l) env jobs (t, m) = ((t', m'), None)"
  shows "settles (\<lambda>j. if exhausted c j then StatusDLQ else StatusRetry) jobs (job_view t) (job_view t')"
proof -
  let ?code = "Response_StatusCode resp"
  have send: "Send X M (map job_Message jobs) =
      (\<lparr>BulkEmailID = [], HTTPStatus = ?code\<rparr>, sender_error ?code (''read bulk response: '' @ readErr))"
    using assms(1-6) by (simp add: Send_def read_response_def Let_def)
  have "settles (job_outcome c ?code (sender_error ?code (''read bulk response: '' @ readErr))) jobs
      (job_view t) (job_view t')"
    using relay.processBatch_view [OF assms(8,7), unfolded New_simps, OF send] by simp
  then show ?thesis
    by (rule settles_cong) (use assms(4,5) in \<open>simp add: job_outcome_def sender_error_def permanent_status_def\<close>)
qed

section \<open>A concrete batch\<close>

definition sample_config :: dispatch_config where
  "sample_config =
     \<lparr>Workers = 2, QueueClaimLimit = 100, QueueLeaseTimeout = 30 * second, BatchMaxCount = 1,
      BatchMaxBytes = 0, BatchFlushInterval = second, RetryMaxAttempts = 3,
      RequeueStaleEvery = minute, QueueDepthPollEvery = 5 * second\<rparr>"

definition sample_http :: http_externals where
  "sample_http =
     \<lparr>url_parse = (\<lambda>s. Inr \<lparr>Scheme = ''https'', Host = ''api.example.com'', Path = ''/v1'', Rest = s\<rparr>),
      url_string = Rest, http_client = (\<lambda>_ trip. trip),
      default_transport = (\<lambda>_. Inl ''unreachable''), marshal_bulk = (\<lambda>_. Inr ''[]''),
      decode_bulk_id = (\<lambda>b. b)\<rparr>"

definition sample_sender :: "int \<Rightarrow> reader \<Rightarrow> MailerSendSender" where
  "sample_sender code body =
     \<lparr>httpClient = (\<lambda>_. Inr \<lparr>Response_Status = Itoa code, Response_StatusCode = code,
        Response_Body = body\<rparr>), apiKey = ''key'', baseURL = ''https://api.example.com/v1''\<rparr>"

definition sample_env :: batch_env where
  "sample_env =
     \<lparr>latency = 5, success_time = 20 * second, retry_time = 20, sent_mark_time = 20,
      retry_mark_time = 20, dlq_mark_time = 20, fused = False, draw = 1 / 2\<rparr>"

abbreviation sample_dispatcher :: "int \<Rightarrow> reader \<Rightarrow> table dispatcher" where
  "sample_dispatcher code body \<equiv>
     New sample_config (sqlite_queue sample_store (\<lambda>_. no_faults)) (Send sample_http (sample_sender code body)) None"

lemma sample_held: "held (job_view sample_leased) [sample_job]"
  unfolding held_def by code_simp

lemma sample_send_accepted:
  "Send sample_http (sample_sender 202 (''id'', None)) (map job_Message [sample_job]) =
     (\<lparr>BulkEmailID = ''id'', HTTPStatus = 202\<rparr>, None)"
  by code_simp

theorem batch_outcome_witness:
  "\<exists>t' m'. processBatch (sample_dispatcher 202 (''id'', None)) sample_env [sample_job]
       (sample_leased, new_metrics) = ((t', m'), None) \<and>
     job_view t' ''b'' = Some (StatusSent, 1)"
proof -
  let ?run = "processBatch (sample_dispatcher 202 (''id'', None)) sample_env [sample_job]
    (sample_leased, new_metrics)"
  obtain t' m' e where run: "?run = ((t', m'), e)" by (metis surj_pair)
  have "snd ?run = None" by code_simp
  with run have e: "e = None" by simp
  have "settles (job_outcome sample_config 202 None) [sample_job] (job_view sample_leased) (job_view t')"
    using batch_outcome [OF run sample_held sample_send_accepted] e by simp
  moreover have "job_ID sample_job = ''b''" "job_AttemptCount sample_job = 0" by code_simp+
  ultimately have "job_view t' ''b'' = Some (StatusSent, 1)"
    by (simp add: settles_def job_outcome_def)
  with run e show ?thesis by auto
qed

theorem unreadable_success_is_repeated_witness:
  "\<exists>t'. fst (fst (processBatch (sample_dispatcher 202 (''{'', Some ''reset'')) sample_env [sample_job]
       (sample_leased, new_metrics))) = t' \<and>
     job_view t' ''b'' = Some (StatusRetry, 1)"
proof -
  let ?D = "sample_dispatcher 202 (''{'', Some ''reset'')"
  let ?run = "processBatch ?D sample_env [sample_job] (sample_leased, new_metrics)"
  obtain t' m' e where run: "?run = ((t', m'), e)" by (metis surj_pair)
  have n: "job_AttemptCount sample_job = 0" and i: "job_ID sample_job = ''b''" by code_simp+
  have "e = None"
    using processBatch_no_faults [of sample_config sample_store
        "Send sample_http (sample_sender 202 (''{'', Some ''reset''))" None] run
    by (metis snd_conv)
  then have run: "?run = ((t', m'), None)" using run by simp
  have "settles (\<lambda>j. if exhausted sample_config j then StatusDLQ else StatusRetry) [sample_job]
      (job_view sample_leased) (job_view t')"
    by (rule unreadable_success_is_repeated [where resp = "\<lparr>Response_Status = Itoa 202,
            Response_StatusCode = 202, Response_Body = (''{'', Some ''reset'')\<rparr>" and readErr = "''reset''",
          OF _ _ _ _ _ _ sample_held run])
      (simp_all add: sample_http_def sample_sender_def response_limit_def)
  then have "job_view t' ''b'' = Some (StatusRetry, 1)"
    using n i by (simp add: settles_def exhausted_def sample_config_def)
  with run show ?thesis by simp
qed

end
