(* ===== verification/Dispatch_System.thy ===== *)
theory Dispatch_System
  imports Dispatch_Correct
begin

text \<open>
  The dispatcher's goroutines together.  Workers claim, send and mark at different times, while the
  SMTP server enqueues, the recovery loop releases expired leases and the maintenance commands
  replay dead letters or hurry retries: each database transaction is one step of a transition system
  whose state is the jobs table and, per worker, the jobs of its batch that it has not marked yet.
  Every iteration of a worker is a sequence of such steps.  Every interleaving of the steps keeps the
  two invariants below for every job that the recovery loop has not taken from a worker that still
  held it; a lease that expires while its worker is sending lets two workers hold a job, each with
  its own idea of the attempt count.
\<close>

section \<open>The transition system\<close>

text \<open>
  Two ghost fields count, per job, what the store itself does not record: how often a dead letter
  was replayed, and how often the recovery loop took the job from a worker that still held it.
\<close>

record relay_state =
  jobs_table :: table
  holding :: "nat \<Rightarrow> job list"
  replayed :: "string \<Rightarrow> nat"
  overtaken :: "string \<Rightarrow> nat"

definition is_held :: "relay_state \<Rightarrow> string \<Rightarrow> bool" where
  "is_held x i \<longleftrightarrow> (\<exists>w. i \<in> job_ID ` set (holding x w))"

text \<open>The jobs an operation that leaves the table \<open>t'\<close> changed the status or the count of.\<close>

definition moved :: "relay_state \<Rightarrow> table \<Rightarrow> string \<Rightarrow> bool" where
  "moved x t' i \<longleftrightarrow> job_view t' i \<noteq> job_view (jobs_table x) i"

definition count_up :: "(string \<Rightarrow> bool) \<Rightarrow> (string \<Rightarrow> nat) \<Rightarrow> string \<Rightarrow> nat" where
  "count_up P f i = (if P i then Suc (f i) else f i)"

inductive relay_step :: "sqlite_store \<Rightarrow> dispatch_config \<Rightarrow> relay_state \<Rightarrow> relay_state \<Rightarrow> bool"
  for S :: sqlite_store and c :: dispatch_config where
  claim: "holding x w = [] \<Longrightarrow>
    ClaimDispatchBatch S flt now (QueueClaimLimit c) (QueueLeaseTimeout c) (BatchMaxCount c)
      (BatchMaxBytes c) (jobs_table x) = (t', Inr js) \<Longrightarrow>
    relay_step S c x (x\<lparr>jobs_table := t', holding := (holding x)(w := js)\<rparr>)"
| sent: "MarkSent flt now (holding x w) bulk (jobs_table x) = (t', None) \<Longrightarrow>
    relay_step S c x (x\<lparr>jobs_table := t', holding := (holding x)(w := [])\<rparr>)"
| retry: "MarkRetry flt now (filter (\<lambda>j. \<not> exhausted c j) (holding x w)) nx msg code (jobs_table x) =
      (t', None) \<Longrightarrow>
    relay_step S c x
      (x\<lparr>jobs_table := t', holding := (holding x)(w := filter (exhausted c) (holding x w))\<rparr>)"
| dead: "MarkDLQ flt now (holding x w) msg code (jobs_table x) = (t', None) \<Longrightarrow>
    relay_step S c x (x\<lparr>jobs_table := t', holding := (holding x)(w := [])\<rparr>)"
| give_up: "relay_step S c x (x\<lparr>holding := (holding x)(w := [])\<rparr>)"
| enqueue: "EnqueueTx S flt ulid now env_from msgs (jobs_table x) = (t', r) \<Longrightarrow>
    relay_step S c x (x\<lparr>jobs_table := t'\<rparr>)"
| stale: "RequeueStaleProcessing flt now (QueueLeaseTimeout c) (jobs_table x) = (t', n) \<Longrightarrow>
    relay_step S c x
      (x\<lparr>jobs_table := t', overtaken := count_up (\<lambda>i. moved x t' i \<and> is_held x i) (overtaken x)\<rparr>)"
| replay: "RequeueDLQIDs flt ids now (jobs_table x) = (t', n) \<Longrightarrow>
    relay_step S c x (x\<lparr>jobs_table := t', replayed := count_up (moved x t') (replayed x)\<rparr>)"
| retry_now: "RetryNow flt now (jobs_table x) = (t', n) \<Longrightarrow>
    relay_step S c x (x\<lparr>jobs_table := t'\<rparr>)"

text \<open>The relay before anything happened, on a database with the jobs \<open>t\<close>.\<close>

definition relay_start :: "table \<Rightarrow> relay_state" where
  "relay_start t = \<lparr>jobs_table = t, holding = (\<lambda>_. []), replayed = (\<lambda>_. 0), overtaken = (\<lambda>_. 0)\<rparr>"

lemma relay_start_simps [simp]:
  "jobs_table (relay_start t) = t" "holding (relay_start t) w = []"
  "replayed (relay_start t) i = 0" "overtaken (relay_start t) i = 0"
  by (simp_all add: relay_start_def)

text \<open>While the leases of the held jobs have not expired, the recovery loop overtakes nobody.\<close>

definition leases_valid :: "go_time \<Rightarrow> relay_state \<Rightarrow> bool" where
  "leases_valid cutoff x \<longleftrightarrow>
     (\<forall>w. \<forall>j \<in> set (holding x w). \<forall>r. find_row (jobs_table x) (job_ID j) = Some r \<longrightarrow>
        \<not> stale_guard cutoff r)"

lemma valid_leases_not_overtaken:
  assumes "RequeueStaleProcessing flt now lease (jobs_table x) = (t', n)" and "leases_valid (now - lease) x"
  shows "count_up (\<lambda>i. moved x t' i \<and> is_held x i) (overtaken x) = overtaken x"
proof -
  have "t' = jobs_table x \<or> t' = update_where (stale_guard (now - lease)) (stale_set now) (jobs_table x)"
    using assms(1) exec_update_table unfolding RequeueStaleProcessing_def by fast
  then have "\<not> moved x t' (job_ID j)" if "j \<in> set (holding x w)" for w j
    using that assms(2)
    by (cases "find_row (jobs_table x) (job_ID j)")
      (auto simp: moved_def job_view_def stale.update_find leases_valid_def)
  then show ?thesis by (auto simp: count_up_def is_held_def fun_eq_iff)
qed

section \<open>What a step does to one job\<close>

text \<open>The entries of job \<open>i\<close> in the batch of worker \<open>w\<close>.\<close>

definition entries :: "relay_state \<Rightarrow> nat \<Rightarrow> string \<Rightarrow> job list" where
  "entries x w i = filter (\<lambda>j. job_ID j = i) (holding x w)"

definition unheld :: "relay_state \<Rightarrow> string \<Rightarrow> bool" where
  "unheld x i \<longleftrightarrow> (\<forall>w. entries x w i = [])"

definition owned_by :: "relay_state \<Rightarrow> string \<Rightarrow> nat \<Rightarrow> job \<Rightarrow> bool" where
  "owned_by x i w j \<longleftrightarrow> entries x w i = [j] \<and> (\<forall>w'. w' \<noteq> w \<longrightarrow> entries x w' i = []) \<and>
     job_view (jobs_table x) i = Some (StatusProcessing, job_AttemptCount j)"

definition owner_ok :: "relay_state \<Rightarrow> string \<Rightarrow> bool" where
  "owner_ok x i \<longleftrightarrow> unheld x i \<or> (\<exists>w j. owned_by x i w j)"

lemma entries_simps [simp]:
  "entries (x\<lparr>jobs_table := t\<rparr>) = entries x"
  "entries (x\<lparr>replayed := f\<rparr>) = entries x"
  "entries (x\<lparr>overtaken := f\<rparr>) = entries x"
  "entries (x\<lparr>holding := (holding x)(w := js)\<rparr>) w' i =
     (if w' = w then filter (\<lambda>j. job_ID j = i) js else entries x w' i)"
  "entries (x\<lparr>jobs_table := t, holding := (holding x)(w := js)\<rparr>) w' i =
     (if w' = w then filter (\<lambda>j. job_ID j = i) js else entries x w' i)"
  by (simp_all add: entries_def fun_eq_iff)

lemma is_held_entries: "is_held x i \<longleftrightarrow> (\<exists>w. entries x w i \<noteq> [])"
  by (auto simp: is_held_def entries_def filter_empty_conv image_iff)

text \<open>Ownership depends on the batches and on the job's view only.\<close>

lemma owner_ok_frame:
  assumes "owner_ok x i" and "\<And>w. entries x' w i = entries x w i"
    and "is_held x i \<Longrightarrow> job_view (jobs_table x') i = job_view (jobs_table x) i"
  shows "owner_ok x' i"
  using assms by (fastforce simp: owner_ok_def unheld_def owned_by_def is_held_entries)

lemma owner_ok_view:
  "owner_ok x i \<Longrightarrow> is_held x i \<Longrightarrow> \<exists>n. job_view (jobs_table x) i = Some (StatusProcessing, n)"
  by (auto simp: owner_ok_def unheld_def owned_by_def is_held_entries)

lemma owner_ok_entry:
  assumes "owner_ok x i" and "j \<in> set (entries x w i)"
  shows "owned_by x i w j"
proof -
  obtain w0 j0 where o: "owned_by x i w0 j0" using assms by (auto simp: owner_ok_def unheld_def)
  with assms(2) have "w = w0" by (metis owned_by_def empty_iff list.set(1))
  with o assms(2) show ?thesis by (auto simp: owned_by_def)
qed

lemma filter_ids_one:
  assumes "distinct (map job_ID js)" and "j \<in> set js"
  shows "filter (\<lambda>j'. job_ID j' = job_ID j) js = [j]"
  using assms by (induction js) (auto simp: filter_empty_conv rev_image_eqI)

lemma claim_job:
  assumes "owner_ok x i" and "store_inv (jobs_table x)" and "holding x w = []"
    and "ClaimDispatchBatch S flt now limit lease mc mb (jobs_table x) = (t', Inr js)"
  shows "owner_ok (x\<lparr>jobs_table := t', holding := (holding x)(w := js)\<rparr>) i"
    and "job_view t' i = job_view (jobs_table x) i \<or>
      (\<exists>n. job_view (jobs_table x) i \<in> {Some (StatusQueued, n), Some (StatusRetry, n)} \<and>
         job_view t' i = Some (StatusProcessing, n))"
proof -
  note run = assms(4) [folded sqlite_queue_simps(2) [of S "\<lambda>_. flt"]]
  obtain L where L: "job_ID ` set js \<subseteq> L"
      "\<forall>i \<in> L. \<exists>n. job_view (jobs_table x) i \<in> {Some (StatusQueued, n), Some (StatusRetry, n)} \<and>
         job_view t' i = Some (StatusProcessing, n)"
      "\<forall>i. i \<notin> L \<longrightarrow> job_view t' i = job_view (jobs_table x) i"
    using sqlite.claim_frame [OF assms(2) run] by blast
  then show "job_view t' i = job_view (jobs_table x) i \<or>
      (\<exists>n. job_view (jobs_table x) i \<in> {Some (StatusQueued, n), Some (StatusRetry, n)} \<and>
         job_view t' i = Some (StatusProcessing, n))" by blast
  have none: "entries x w i = []" by (simp add: entries_def assms(3))
  have free: "i \<notin> L" if "is_held x i"
    using owner_ok_view [OF assms(1) that] L(2) by fastforce
  show "owner_ok (x\<lparr>jobs_table := t', holding := (holding x)(w := js)\<rparr>) i" (is "owner_ok ?x i")
  proof (cases "i \<in> job_ID ` set js")
    case True
    then obtain j where j: "j \<in> set js" "job_ID j = i" by auto
    with sqlite.claim [OF assms(2) run] have "filter (\<lambda>j. job_ID j = i) js = [j]"
        "job_view t' i = Some (StatusProcessing, job_AttemptCount j)"
      using filter_ids_one by auto
    moreover have "\<not> is_held x i" using free True L(1) by auto
    ultimately have "owned_by ?x i w j" by (simp add: owned_by_def is_held_entries)
    then show ?thesis by (auto simp: owner_ok_def)
  next
    case False
    then have "filter (\<lambda>j. job_ID j = i) js = []" by (auto simp: filter_empty_conv)
    with none free L(3) show ?thesis by (intro owner_ok_frame [OF assms(1)]) auto
  qed
qed

text \<open>A mark of the jobs of worker \<open>w\<close> that are not in \<open>P\<close>, which then holds those in \<open>P\<close>.\<close>

lemma mark_job:
  assumes "owner_ok x i" and "js = filter (\<lambda>j. \<not> P j) (holding x w)"
    and "job_view t' = mark_jobs F (job_ID ` set js) (job_view (jobs_table x))"
  shows "owner_ok (x\<lparr>jobs_table := t', holding := (holding x)(w := filter P (holding x w))\<rparr>) i"
    and "job_view t' i = job_view (jobs_table x) i \<or>
      (\<exists>j \<in> set js. job_view (jobs_table x) i = Some (StatusProcessing, job_AttemptCount j) \<and>
         job_view t' i = Some (F, job_AttemptCount j + 1))"
proof -
  let ?x = "x\<lparr>jobs_table := t', holding := (holding x)(w := filter P (holding x w))\<rparr>"
  have ent: "entries ?x w' i = (if w' = w then filter P (entries x w i) else entries x w' i)" for w'
    by (simp add: entries_def conj_commute)
  have mem: "i \<in> job_ID ` set js \<longleftrightarrow> (\<exists>j \<in> set (entries x w i). \<not> P j)"
    by (auto simp: assms(2) entries_def)
  have same: "job_view t' i = job_view (jobs_table x) i" if "i \<notin> job_ID ` set js"
    using that by (auto simp: assms(3) mark_jobs_def split: option.splits prod.splits job_status.splits)
  have "owner_ok ?x i \<and> (job_view t' i = job_view (jobs_table x) i \<or>
      (\<exists>j \<in> set js. job_view (jobs_table x) i = Some (StatusProcessing, job_AttemptCount j) \<and>
         job_view t' i = Some (F, job_AttemptCount j + 1)))"
  proof (cases "i \<in> job_ID ` set js")
    case False
    then have "filter P (entries x w i) = entries x w i" using mem by (simp add: filter_id_conv)
    with same [OF False] ent show ?thesis by (auto intro: owner_ok_frame [OF assms(1)])
  next
    case True
    then obtain j where "j \<in> set (entries x w i)" "\<not> P j" using mem by blast
    moreover from this have "owned_by x i w j" by (intro owner_ok_entry [OF assms(1)])
    ultimately have "entries x w i = [j]" "\<forall>w'. w' \<noteq> w \<longrightarrow> entries x w' i = []" "j \<in> set js"
        "job_view (jobs_table x) i = Some (StatusProcessing, job_AttemptCount j)" "\<not> P j"
      by (auto simp: owned_by_def assms(2) entries_def)
    with True ent show ?thesis by (auto simp: owner_ok_def unheld_def assms(3) mark_jobs_def)
  qed
  then show "owner_ok ?x i" "job_view t' i = job_view (jobs_table x) i \<or>
      (\<exists>j \<in> set js. job_view (jobs_table x) i = Some (StatusProcessing, job_AttemptCount j) \<and>
         job_view t' i = Some (F, job_AttemptCount j + 1))" by blast+
qed

lemmas mark_job_all = mark_job [where P = "\<lambda>_. False", simplified]

text \<open>The other transactions: what they may do to the view of a job.\<close>

lemma enqueue_job:
  assumes "EnqueueTx S flt ulid now env_from msgs t = (t', r)" and "store_inv t"
  shows "job_view t' i = job_view t i \<or> job_view t i = None \<and> job_view t' i = Some (StatusQueued, 0)"
proof -
  note run = assms(1) [folded sqlite_queue_simps(1) [of S "\<lambda>_. flt"]]
  show ?thesis using sqlite.enqueue [OF run] assms(2) by (cases r) auto
qed

lemma stale_job:
  assumes "RequeueStaleProcessing flt now lease t = (t', n)"
  shows "job_view t' i = job_view t i \<or>
    (\<exists>n. job_view t i = Some (StatusProcessing, n) \<and> job_view t' i = Some (StatusRetry, n))"
  using sqlite.stale [OF assms [folded sqlite_queue_simps(6) [of S "\<lambda>_. flt"]]] by blast

lemma replay_job:
  assumes "RequeueDLQIDs flt ids now t = (t', n)"
  shows "job_view t' i = job_view t i \<or>
    (\<exists>n. job_view t i = Some (StatusDLQ, n) \<and> job_view t' i = Some (StatusRetry, n))"
proof -
  have "t' = t \<or> t' = update_where (dlq_guard (map TrimSpace ids)) (requeue_dlq_set now) t"
    using assms exec_update_table by (auto simp: RequeueDLQIDs_def split: if_splits)
  then show ?thesis
    by (cases "find_row t i") (auto simp: job_view_def replay.update_find dlq_guard_def requeue_dlq_set_def)
qed

lemma retry_now_job:
  assumes "RetryNow flt now t = (t', n)"
  shows "job_view t' i = job_view t i"
proof -
  have "t' = t \<or> t' = update_where retry_now_guard (retry_now_set now) t"
    using assms exec_update_table by (auto simp: RetryNow_def)
  then show ?thesis
    by (cases "find_row t i") (auto simp: job_view_def hurry.update_find retry_now_set_def)
qed

lemma marks_refine:
  "MarkSent flt now js bulk t = (t', None) \<Longrightarrow> job_view t' = mark_jobs StatusSent (job_ID ` set js) (job_view t)"
  "MarkRetry flt now js nx msg code t = (t', None) \<Longrightarrow>
     job_view t' = mark_jobs StatusRetry (job_ID ` set js) (job_view t)"
  "MarkDLQ flt now js msg code t = (t', None) \<Longrightarrow> job_view t' = mark_jobs StatusDLQ (job_ID ` set js) (job_view t)"
  using mark_sent.mark_tx_refines mark_retry.mark_tx_refines mark_dead.mark_tx_refines
  unfolding mark_defs by fastforce+

section \<open>The invariants\<close>

lemmas store_step_inv = store_step.intros [THEN store_step_ok, unfolded table_ok_def, THEN conjunct1, rule_format]

lemma relay_step_store: "relay_step S c x x' \<Longrightarrow> store_inv (jobs_table x) \<Longrightarrow> store_inv (jobs_table x')"
  by (induction rule: relay_step.induct) (simp_all, (erule (1) store_step_inv)+)

definition owner_inv :: "relay_state \<Rightarrow> bool" where
  "owner_inv x \<longleftrightarrow> store_inv (jobs_table x) \<and> (\<forall>i. overtaken x i = 0 \<longrightarrow> owner_ok x i)"

lemma relay_step_owner:
  assumes "relay_step S c x x'" and "owner_inv x" and "overtaken x' i = 0"
  shows "owner_ok x' i"
  using assms
proof (induction rule: relay_step.induct)
  case (claim x w flt now t' js)
  then have ok: "owner_ok x i" and inv: "store_inv (jobs_table x)" by (simp_all add: owner_inv_def)
  show ?case by (rule claim_job(1) [OF ok inv claim(1,2)])
next
  case (sent flt now x w bulk t')
  then have ok: "owner_ok x i" by (simp add: owner_inv_def)
  show ?case by (rule mark_job_all(1) [OF ok refl marks_refine(1) [OF sent(1)]])
next
  case (retry flt now x w nx msg code t')
  then have ok: "owner_ok x i" by (simp add: owner_inv_def)
  show ?case by (rule mark_job(1) [OF ok refl marks_refine(2) [OF retry(1)]])
next
  case (dead flt now x w msg code t')
  then have ok: "owner_ok x i" by (simp add: owner_inv_def)
  show ?case by (rule mark_job_all(1) [OF ok refl marks_refine(3) [OF dead(1)]])
next
  case (give_up x w)
  then have "owner_ok x i" by (simp add: owner_inv_def)
  then consider "unheld x i" | w0 j where "owned_by x i w0 j" by (auto simp: owner_ok_def)
  then show ?case
  proof cases
    case 2
    then show ?thesis by (cases "w = w0") (auto simp: owner_ok_def unheld_def owned_by_def)
  qed (simp add: owner_ok_def unheld_def)
next
  case (enqueue flt ulid now env_from msgs x t' r)
  then have ok: "owner_ok x i" and inv: "store_inv (jobs_table x)" by (simp_all add: owner_inv_def)
  have "job_view t' i = job_view (jobs_table x) i" if "is_held x i"
    using enqueue_job [OF enqueue(1) inv, of i] owner_ok_view [OF ok that] by auto
  then show ?case by (intro owner_ok_frame [OF ok]) simp_all
next
  case (stale flt now x t' n)
  then have ok: "owner_ok x i" and "is_held x i \<Longrightarrow> \<not> moved x t' i"
    by (auto simp: owner_inv_def count_up_def split: if_splits)
  then show ?case by (intro owner_ok_frame [OF ok]) (simp_all add: moved_def)
next
  case (replay flt ids now x t' n)
  then have ok: "owner_ok x i" by (simp add: owner_inv_def)
  have "job_view t' i = job_view (jobs_table x) i" if "is_held x i"
    using replay_job [OF replay(1), of i] owner_ok_view [OF ok that] by auto
  then show ?case by (intro owner_ok_frame [OF ok]) simp_all
next
  case (retry_now flt now x t' n)
  then have ok: "owner_ok x i" by (simp add: owner_inv_def)
  show ?case by (intro owner_ok_frame [OF ok]) (simp_all add: retry_now_job [OF retry_now(1)])
qed

lemma relay_step_owner_inv: "relay_step S c x x' \<Longrightarrow> owner_inv x \<Longrightarrow> owner_inv x'"
  using relay_step_owner relay_step_store unfolding owner_inv_def by blast

lemma relay_start_owner: "store_inv t \<Longrightarrow> owner_inv (relay_start t)"
  by (simp add: owner_inv_def owner_ok_def unheld_def entries_def)

lemma relay_steps_owner:
  "(relay_step S c)\<^sup>*\<^sup>* (relay_start t) x \<Longrightarrow> store_inv t \<Longrightarrow> owner_inv x"
  by (induction rule: rtranclp_induct) (auto intro: relay_start_owner relay_step_owner_inv)

text \<open>A job that can still be tried has an attempt left, of RETRY_MAX_ATTEMPTS and one more for each
  replay; none is tried more often.\<close>

definition job_budget :: "dispatch_config \<Rightarrow> nat \<Rightarrow> (job_status \<times> int) option \<Rightarrow> bool" where
  "job_budget c k v \<longleftrightarrow>
     (case v of None \<Rightarrow> True
      | Some (st, n) \<Rightarrow> n \<le> RetryMaxAttempts c + int k \<and>
          (st \<noteq> StatusSent \<and> st \<noteq> StatusDLQ \<longrightarrow> n < RetryMaxAttempts c + int k))"

definition within_budget :: "dispatch_config \<Rightarrow> (string \<Rightarrow> (job_status \<times> int) option) \<Rightarrow> bool" where
  "within_budget c v \<longleftrightarrow> (\<forall>i. job_budget c 0 (v i))"

abbreviation budget_at :: "dispatch_config \<Rightarrow> relay_state \<Rightarrow> string \<Rightarrow> bool" where
  "budget_at c x i \<equiv> job_budget c (replayed x i) (job_view (jobs_table x) i)"

lemma mark_budget:
  assumes "job_budget c k v"
    and "v' = v \<or> (\<exists>j \<in> set js. v = Some (StatusProcessing, job_AttemptCount j) \<and> v' = Some (F, job_AttemptCount j + 1))"
    and "F = StatusSent \<or> F = StatusDLQ \<or> list_all (\<lambda>j. \<not> exhausted c j) js"
  shows "job_budget c k v'"
  using assms by (auto simp: job_budget_def exhausted_def list_all_iff)

lemma relay_step_budget:
  assumes "relay_step S c x x'" and "owner_inv x" and "overtaken x' i = 0" and "budget_at c x i"
    and "1 \<le> RetryMaxAttempts c"
  shows "budget_at c x' i"
  using assms
proof (induction rule: relay_step.induct)
  case (claim x w flt now t' js)
  then have "owner_ok x i" "store_inv (jobs_table x)" by (simp_all add: owner_inv_def)
  from claim_job(2) [OF this claim(1,2)] claim(5) show ?case by (auto simp: job_budget_def)
next
  case (sent flt now x w bulk t')
  then have "owner_ok x i" by (simp add: owner_inv_def)
  from mark_budget [OF sent(4) mark_job_all(2) [OF this refl marks_refine(1) [OF sent(1)]]] show ?case by simp
next
  case (retry flt now x w nx msg code t')
  then have "owner_ok x i" by (simp add: owner_inv_def)
  from mark_budget [OF retry(4) mark_job(2) [OF this refl marks_refine(2) [OF retry(1)]]] show ?case
    by (simp add: list_all_iff)
next
  case (dead flt now x w msg code t')
  then have "owner_ok x i" by (simp add: owner_inv_def)
  from mark_budget [OF dead(4) mark_job_all(2) [OF this refl marks_refine(3) [OF dead(1)]]] show ?case by simp
next
  case (give_up x w)
  then show ?case by simp
next
  case (enqueue flt ulid now env_from msgs x t' r)
  then have "store_inv (jobs_table x)" by (simp add: owner_inv_def)
  from enqueue_job [OF enqueue(1) this, of i] enqueue(4,5) show ?case by (auto simp: job_budget_def)
next
  case (stale flt now x t' n)
  from stale_job [OF stale(1), of i] stale(4) show ?case by (auto simp: job_budget_def)
next
  case (replay flt ids now x t' n)
  from replay_job [OF replay(1), of i] replay(4) show ?case
    by (auto simp: job_budget_def count_up_def moved_def)
next
  case (retry_now flt now x t' n)
  then show ?case using retry_now_job [OF retry_now(1)] by simp
qed

lemma overtaken_mono: "relay_step S c x x' \<Longrightarrow> overtaken x i \<le> overtaken x' i"
  by (induction rule: relay_step.induct) (auto simp: count_up_def)

lemma relay_steps_budget:
  assumes "(relay_step S c)\<^sup>*\<^sup>* (relay_start t) x" and "store_inv t" and "within_budget c (job_view t)"
    and "1 \<le> RetryMaxAttempts c"
  shows "overtaken x i = 0 \<Longrightarrow> budget_at c x i"
  using assms(1)
proof (induction rule: rtranclp_induct)
  case base
  then show ?case using assms(3) by (simp add: within_budget_def)
next
  case (step y z)
  have "overtaken y i = 0" using overtaken_mono [OF step(2), of i] step(4) by simp
  from relay_step_budget [OF step(2) relay_steps_owner [OF step(1) assms(2)] step(4) step(3) [OF this] assms(4)]
  show ?case .
qed

section \<open>Worker iterations are sequences of steps\<close>

lemma mark_error:
  "MarkSent flt now js b t = (t', Some e) \<Longrightarrow> t' = t"
  "MarkRetry flt now js nx msg code t = (t', Some e) \<Longrightarrow> t' = t"
  "MarkDLQ flt now js msg code t = (t', Some e) \<Longrightarrow> t' = t"
  by (auto simp: mark_defs mark_tx_def split: if_splits option.splits sum.splits)

lemma give_up_step: "relay_step S c x (x\<lparr>jobs_table := jobs_table x, holding := (holding x)(w := [])\<rparr>)"
  using relay_step.give_up [of S c x w] by simp

lemma sent_steps:
  assumes "MarkSent flt now (holding x w) b (jobs_table x) = (t', e)"
  shows "relay_step S c x (x\<lparr>jobs_table := t', holding := (holding x)(w := [])\<rparr>)"
proof (cases e)
  case None
  with assms show ?thesis by (blast intro: relay_step.sent)
next
  case (Some a)
  with assms mark_error(1) have "t' = jobs_table x" by blast
  then show ?thesis using give_up_step by simp
qed

lemma dead_steps:
  assumes "MarkDLQ flt now (holding x w) msg code (jobs_table x) = (t', e)"
  shows "relay_step S c x (x\<lparr>jobs_table := t', holding := (holding x)(w := [])\<rparr>)"
proof (cases e)
  case None
  with assms show ?thesis by (blast intro: relay_step.dead)
next
  case (Some a)
  with assms mark_error(3) have "t' = jobs_table x" by blast
  then show ?thesis using give_up_step by simp
qed

lemma mark_dead_batch_steps:
  assumes "mark_dead_batch (New c (sqlite_queue S flt) send l) env (holding x w) err code
      (jobs_table x, m) = ((t', m'), e)"
  shows "relay_step S c x (x\<lparr>jobs_table := t', holding := (holding x)(w := [])\<rparr>)"
proof -
  obtain t1 e1 where r: "MarkDLQ (flt OpMarkDLQ) (dlq_mark_time env) (holding x w) (safeErr err) code
      (jobs_table x) = (t1, e1)" by fastforce
  then have "t' = t1" using assms by (simp add: mark_dead_batch_def split: option.splits)
  with dead_steps [OF r] show ?thesis by simp
qed

lemma retry_batch_steps:
  assumes "retry_batch (New c (sqlite_queue S flt) send l) env (holding x w) err code
      (jobs_table x, m) = ((t', m'), e)"
  shows "(relay_step S c)\<^sup>*\<^sup>* x (x\<lparr>jobs_table := t', holding := (holding x)(w := [])\<rparr>)"
proof -
  let ?D = "New c (sqlite_queue S flt) send l"
  let ?r = "filter (\<lambda>j. \<not> exhausted c j) (holding x w)" and ?d = "filter (exhausted c) (holding x w)"
  let ?y = "\<lambda>u. x\<lparr>jobs_table := u, holding := (holding x)(w := ?d)\<rparr>"
  have dead: "(relay_step S c)\<^sup>*\<^sup>* (?y u) (x\<lparr>jobs_table := t', holding := (holding x)(w := [])\<rparr>)"
    if "(if length ?d > 0 then mark_dead_batch ?D env ?d err code (u, n) else ((u, n), None)) =
        ((t', m'), e)" for u n
  proof (cases "?d = []")
    case True
    with that show ?thesis by (simp add: fun_upd_idem)
  next
    case False
    with that mark_dead_batch_steps [of c S flt send l env "?y u" w err code n t' m' e]
    show ?thesis by (auto intro: r_into_rtranclp)
  qed
  show ?thesis
  proof (cases "?r = []")
    case True
    then have "?d = holding x w" by (simp add: filter_empty_conv filter_id_conv)
    then have "?y (jobs_table x) = x" by (simp add: fun_upd_idem)
    with dead [of "jobs_table x" m] assms True show ?thesis by (simp add: retry_batch_def Let_def)
  next
    case False
    let ?next = "retry_time env +
        jitteredBackoff (fused env) (draw env) (job_AttemptCount (hd ?r) + 1)"
    obtain u r where ur: "MarkRetry (flt OpMarkRetry) (retry_mark_time env) ?r ?next (safeErr err) code
        (jobs_table x) = (u, r)"
      by fastforce
    show ?thesis
    proof (cases r)
      case (Some a)
      then have "t' = u" using assms False ur by (simp add: retry_batch_def Let_def)
      moreover have "u = jobs_table x" using mark_error(2) ur Some by blast
      ultimately show ?thesis using give_up_step by (auto intro: r_into_rtranclp)
    next
      case None
      then have "relay_step S c x (?y u)" using ur relay_step.retry by blast
      moreover have "(relay_step S c)\<^sup>*\<^sup>* (?y u) (x\<lparr>jobs_table := t', holding := (holding x)(w := [])\<rparr>)"
        by (rule dead [of u "m\<lparr>DispatchRetries := DispatchRetries m + length ?r\<rparr>"])
          (use assms False ur None in \<open>simp add: retry_batch_def Let_def\<close>)
      ultimately show ?thesis by (rule converse_rtranclp_into_rtranclp)
    qed
  qed
qed

lemma processBatch_steps:
  assumes "processBatch (New c (sqlite_queue S flt) send l) env (holding x w) (jobs_table x, m) =
      ((t', m'), e)"
  shows "(relay_step S c)\<^sup>*\<^sup>* x (x\<lparr>jobs_table := t', holding := (holding x)(w := [])\<rparr>)"
proof (cases "holding x w = []")
  case True
  with assms show ?thesis by (auto simp: processBatch_def fun_upd_idem)
next
  case False
  obtain result err where send: "send (map job_Message (holding x w)) = (result, err)" by fastforce
  show ?thesis
  proof (cases err)
    case None
    obtain t1 r where r: "MarkSent (flt OpMarkSent) (sent_mark_time env) (holding x w) (BulkEmailID result)
        (jobs_table x) = (t1, r)" by fastforce
    then have "t' = t1" using assms False send None by (simp add: processBatch_def Let_def)
    with sent_steps [OF r] show ?thesis by blast
  next
    case (Some y)
    define cd where "cd = status_code result err"
    obtain m1 where "(if classifyFailure cd err = ''retry''
          then retry_batch (New c (sqlite_queue S flt) send l) env (holding x w) err cd (jobs_table x, m1)
          else mark_dead_batch (New c (sqlite_queue S flt) send l) env (holding x w) err cd (jobs_table x, m1)) =
        ((t', m'), e)"
      using assms False send Some
      by (simp add: processBatch_def Let_def classify_error cd_def split: if_splits)
    then show ?thesis
      using retry_batch_steps mark_dead_batch_steps by (auto split: if_splits intro: r_into_rtranclp)
  qed
qed

section \<open>Properties\<close>

text \<open>C9: One pass of a worker through its loop, as the code runs it, is a sequence of the steps of
  the transition system: what is shown of all interleavings of the steps holds of the workers.\<close>

theorem worker_iteration_refines_steps:
  assumes "worker_iteration (New c (sqlite_queue S flt) send l) env s = (s', cont)"
    and "jobs_table x = store_state s" and "holding x w = []"
  shows "(relay_step S c)\<^sup>*\<^sup>* x (x\<lparr>jobs_table := store_state s'\<rparr>)"
proof -
  let ?D = "New c (sqlite_queue S flt) send l"
  obtain t1 res where claim: "ClaimDispatchBatch S (flt OpClaimDispatchBatch) (claim_time env)
      (QueueClaimLimit c) (QueueLeaseTimeout c) (BatchMaxCount c) (BatchMaxBytes c) (jobs_table x) = (t1, res)"
    by fastforce
  consider (idle) "store_state s' = store_state s"
    | (failed) e where "res = Inl e" "store_state s' = t1"
    | (empty) "res = Inr []" "store_state s' = t1"
    | (batch) js m m' e where "res = Inr js" "processBatch ?D (batch env) js (t1, m) = ((store_state s', m'), e)"
    using assms(1,2) claim unfolding worker_iteration_def
    by (auto simp: Let_def split: if_splits option.splits sum.splits prod.splits)
  then show ?thesis
  proof cases
    case idle
    then have "x\<lparr>jobs_table := store_state s'\<rparr> = x" using assms(2) by simp
    then show ?thesis by simp
  next
    case failed
    then have "t1 = jobs_table x" using claim unfolding ClaimDispatchBatch_def by (blast dest: claimJobs_Inl)
    then have "x\<lparr>jobs_table := store_state s'\<rparr> = x" using failed(2) by simp
    then show ?thesis by simp
  next
    case empty
    then have "relay_step S c x (x\<lparr>jobs_table := t1, holding := (holding x)(w := [])\<rparr>)"
      using relay_step.claim [OF assms(3)] claim by blast
    then show ?thesis using assms(3) empty(2) by (auto simp: fun_upd_idem intro: r_into_rtranclp)
  next
    case (batch js m m' e)
    let ?y = "x\<lparr>jobs_table := t1, holding := (holding x)(w := js)\<rparr>"
    have "relay_step S c x ?y" using relay_step.claim [OF assms(3)] claim batch(1) by blast
    also have "(relay_step S c)\<^sup>*\<^sup>* ?y (?y\<lparr>jobs_table := store_state s', holding := (holding ?y)(w := [])\<rparr>)"
      by (rule processBatch_steps) (use batch(2) in simp)
    finally show ?thesis using assms(3) by (simp add: fun_upd_idem)
  qed
qed

text \<open>C5: Exclusive ownership.  However the transactions of the workers, of the SMTP server, of the
  recovery loop and of the maintenance commands interleave, and whenever leases expire: as long as
  the recovery loop has never taken a job from a worker that still held it, no two workers hold that
  job, no worker holds it twice, and when it is held it is in processing with the attempt count its
  worker knows.  (While no lease of a held job has expired, the recovery loop takes no held job.)\<close>

theorem exclusive_ownership:
  assumes "(relay_step S c)\<^sup>*\<^sup>* (relay_start t) x" and "store_inv t" and "overtaken x i = 0"
  shows "(\<forall>w w'. w \<noteq> w' \<longrightarrow> i \<notin> job_ID ` set (holding x w) \<inter> job_ID ` set (holding x w')) \<and>
    (\<forall>w. length (filter (\<lambda>j. job_ID j = i) (holding x w)) \<le> 1 \<and>
       (\<forall>j \<in> set (holding x w). job_ID j = i \<longrightarrow>
          job_view (jobs_table x) i = Some (StatusProcessing, job_AttemptCount j)))"
proof -
  have "owner_ok x i" using relay_steps_owner [OF assms(1,2)] assms(3) by (simp add: owner_inv_def)
  then consider "unheld x i" | w j where "owned_by x i w j" unfolding owner_ok_def by blast
  then show ?thesis
  proof cases
    case 1
    then show ?thesis by (fastforce simp: unheld_def entries_def filter_empty_conv)
  next
    case 2
    then have one: "filter (\<lambda>j. job_ID j = i) (holding x w') = (if w' = w then [j] else [])" for w'
      by (simp add: owned_by_def entries_def)
    then have mem: "j' \<in> set (holding x w') \<Longrightarrow> job_ID j' = i \<Longrightarrow> w' = w \<and> j' = j" for w' j'
    proof -
      assume "j' \<in> set (holding x w')" "job_ID j' = i"
      then have "j' \<in> set (filter (\<lambda>j. job_ID j = i) (holding x w'))" by simp
      then show ?thesis unfolding one by (auto split: if_splits)
    qed
    then have "w1 = w2" if "i \<in> job_ID ` set (holding x w1)" "i \<in> job_ID ` set (holding x w2)" for w1 w2
      using that by (metis imageE)
    moreover have "job_view (jobs_table x) i = Some (StatusProcessing, job_AttemptCount j)"
      using 2 by (simp add: owned_by_def)
    ultimately show ?thesis using one mem by auto
  qed
qed

text \<open>C12: The attempt budget.  Under every interleaving of all transactions of the relay, the replay of
  dead letters and \<^verbatim>\<open>queue retry-now\<close> included, a job that the recovery loop has never taken from a
  worker that still held it has at most RETRY_MAX_ATTEMPTS attempts recorded plus one for each time
  it was replayed, and one attempt less while it is queued, in processing or waiting for a retry.
  (A replay keeps the attempt count, so a replayed job is tried once and goes back to the dead
  letters when that fails.)\<close>

theorem attempts_within_budget:
  assumes "(relay_step S c)\<^sup>*\<^sup>* (relay_start t) x"
    and "store_inv t" and "within_budget c (job_view t)" and "1 \<le> RetryMaxAttempts c"
    and "overtaken x i = 0" and "find_row (jobs_table x) i = Some r"
  shows "row_attempt_count r \<le> RetryMaxAttempts c + int (replayed x i) \<and>
    (row_status r \<in> {StatusQueued, StatusProcessing, StatusRetry} \<longrightarrow>
       row_attempt_count r < RetryMaxAttempts c + int (replayed x i))"
  using relay_steps_budget [OF assms(1-5)] assms(6) by (auto simp: job_view_def job_budget_def)

section \<open>A concrete run\<close>

lemma within_budget_rows:
  assumes "list_all (\<lambda>r. row_attempt_count r < RetryMaxAttempts c) t"
  shows "within_budget c (job_view t)"
  using assms unfolding within_budget_def job_view_def job_budget_def
  by (fastforce simp: list_all_iff dest: find_row_Some split: option.split)

lemma sample_budget: "within_budget sample_config (job_view sample_table)"
  by (rule within_budget_rows) code_simp

abbreviation sample_start :: relay_state where
  "sample_start \<equiv> relay_start sample_table"

abbreviation other_job :: job where
  "other_job \<equiv> claimed_job sample_store 11 (claim_set ''relay-1'' 11 (sample_table ! 0))"

definition sample_two_holders :: relay_state where
  "sample_two_holders = sample_start
     \<lparr>jobs_table := update_where (claim_guard 11 [''a'']) (claim_set ''relay-1'' 11) sample_leased,
      holding := (\<lambda>_. [])(0 := [sample_job], 1 := [other_job])\<rparr>"

abbreviation sample_one_holder :: relay_state where
  "sample_one_holder \<equiv> sample_start\<lparr>jobs_table := sample_leased, holding := (\<lambda>_. [])(0 := [sample_job])\<rparr>"

lemma sample_first_claim: "relay_step sample_store sample_config sample_start sample_one_holder"
proof -
  have "relay_step sample_store sample_config sample_start
      (sample_start\<lparr>jobs_table := sample_leased, holding := (holding sample_start)(0 := [sample_job])\<rparr>)"
    by (rule relay_step.claim [where flt = no_faults and now = 10])
      (use sample_claim in \<open>simp_all add: sample_config_def ClaimDispatchBatch_def\<close>)
  then show ?thesis by (simp add: relay_start_def)
qed

lemma sample_two_claims: "(relay_step sample_store sample_config)\<^sup>*\<^sup>* sample_start sample_two_holders"
proof -
  have "relay_step sample_store sample_config sample_one_holder
      (sample_one_holder\<lparr>jobs_table := jobs_table sample_two_holders,
         holding := (holding sample_one_holder)(1 := [other_job])\<rparr>)"
    by (rule relay_step.claim [where flt = no_faults and now = 11])
      (use sample_claim_again in \<open>simp_all add: sample_config_def ClaimDispatchBatch_def sample_two_holders_def\<close>)
  then have "relay_step sample_store sample_config sample_one_holder sample_two_holders"
    by (simp add: sample_two_holders_def)
  with sample_first_claim show ?thesis by (meson rtranclp.simps)
qed

lemma sample_attempts: "1 \<le> RetryMaxAttempts sample_config"
  by (simp add: sample_config_def)

theorem exclusive_ownership_witness:
  "''b'' \<notin> job_ID ` set (holding sample_two_holders 0) \<inter> job_ID ` set (holding sample_two_holders 1) \<and>
   holding sample_two_holders 0 = [sample_job] \<and> holding sample_two_holders 1 = [other_job]"
proof -
  have "overtaken sample_two_holders ''b'' = 0" by (simp add: sample_two_holders_def)
  from exclusive_ownership [OF sample_two_claims sample_inv this, THEN conjunct1]
  have "''b'' \<notin> job_ID ` set (holding sample_two_holders 0) \<inter> job_ID ` set (holding sample_two_holders 1)"
    by (metis zero_neq_one)
  then show ?thesis by (simp add: sample_two_holders_def)
qed

text \<open>The job of worker 0 goes to the dead letters and is replayed.\<close>

definition sample_replayed :: relay_state where
  "sample_replayed = sample_start
     \<lparr>jobs_table := fst (RequeueDLQIDs no_faults [''b''] 13
        (fst (MarkDLQ no_faults 12 [sample_job] ''rejected'' 422 sample_leased))),
      replayed := (\<lambda>_. 0)(''b'' := 1)\<rparr>"

lemma sample_replay: "(relay_step sample_store sample_config)\<^sup>*\<^sup>* sample_start sample_replayed"
proof -
  define t where "t = fst (MarkDLQ no_faults 12 [sample_job] ''rejected'' 422 sample_leased)"
  let ?x = "sample_one_holder\<lparr>jobs_table := t, holding := (holding sample_one_holder)(0 := [])\<rparr>"
  obtain n where n: "RequeueDLQIDs no_faults [''b''] 13 t = (jobs_table sample_replayed, n)"
    unfolding t_def by (simp add: sample_replayed_def prod_eq_iff)
  have "snd (MarkDLQ no_faults 12 [sample_job] ''rejected'' 422 sample_leased) = None" by code_simp
  then have "relay_step sample_store sample_config sample_one_holder ?x"
    by (intro relay_step.dead [where flt = no_faults and now = 12 and msg = "''rejected''" and code = 422])
      (simp add: prod_eq_iff t_def)
  moreover have "relay_step sample_store sample_config ?x
      (?x\<lparr>jobs_table := jobs_table sample_replayed, replayed := count_up (moved ?x (jobs_table sample_replayed)) (replayed ?x)\<rparr>)"
    by (rule relay_step.replay [where flt = no_faults]) (use n in simp)
  moreover have "moved ?x (jobs_table sample_replayed) i \<longleftrightarrow> i = ''b''" for i
  proof (cases "i = ''b'' \<or> i = ''a''")
    case True
    have "job_view (jobs_table sample_replayed) ''b'' \<noteq> job_view t ''b''"
        "job_view (jobs_table sample_replayed) ''a'' = job_view t ''a''"
      unfolding sample_replayed_def t_def by code_simp+
    with True show ?thesis by (auto simp: moved_def)
  next
    case False
    have "map row_id t = [''a'', ''b'']" "map row_id (jobs_table sample_replayed) = [''a'', ''b'']"
      unfolding sample_replayed_def t_def by code_simp+
    then have "i \<notin> row_id ` set t" "i \<notin> row_id ` set (jobs_table sample_replayed)"
      using False by (simp_all flip: set_map)
    then have "find_row t i = None" "find_row (jobs_table sample_replayed) i = None" by (simp_all add: find_row_None)
    then show ?thesis using False by (simp add: moved_def job_view_def)
  qed
  then have "?x\<lparr>jobs_table := jobs_table sample_replayed, replayed := count_up (moved ?x (jobs_table sample_replayed)) (replayed ?x)\<rparr> =
      sample_replayed"
    by (auto simp: sample_replayed_def relay_start_def count_up_def fun_eq_iff)
  ultimately show ?thesis using sample_first_claim by (metis (no_types, lifting) rtranclp.simps)
qed

theorem attempts_within_budget_witness:
  "\<exists>r. find_row (jobs_table sample_replayed) ''b'' = Some r \<and> row_status r = StatusRetry \<and>
     row_attempt_count r < RetryMaxAttempts sample_config + 1"
proof -
  have "case find_row (jobs_table sample_replayed) ''b'' of Some r \<Rightarrow> row_status r = StatusRetry | None \<Rightarrow> False"
    unfolding sample_replayed_def by code_simp
  then obtain r where r: "find_row (jobs_table sample_replayed) ''b'' = Some r" "row_status r = StatusRetry"
    by (auto split: option.splits)
  have "overtaken sample_replayed ''b'' = 0" "replayed sample_replayed ''b'' = 1"
    by (simp_all add: sample_replayed_def)
  with attempts_within_budget [OF sample_replay sample_inv sample_budget sample_attempts _ r(1)] r
  show ?thesis by simp
qed

definition sample_iteration :: iteration_env where
  "sample_iteration =
     \<lparr>ctx_done = False, heartbeat_time = 10, waited = 3, limiter_answer = None, limiter_done = False,
      claim_time = 10, claim_done = False, idle_done = False, batch = sample_env\<rparr>"

theorem worker_iteration_refines_steps_witness:
  "\<exists>s' cont. worker_iteration (sample_dispatcher 202 (''id'', None)) sample_iteration
       \<lparr>store_state = sample_table, metrics_state = new_metrics, lastHeartbeat = 0\<rparr> = (s', cont) \<and>
     (relay_step sample_store sample_config)\<^sup>*\<^sup>* sample_start (sample_start\<lparr>jobs_table := store_state s'\<rparr>) \<and>
     job_view (store_state s') ''b'' = Some (StatusSent, 1)"
proof -
  let ?w = "\<lparr>store_state = sample_table, metrics_state = new_metrics, lastHeartbeat = 0\<rparr>"
  let ?run = "worker_iteration (sample_dispatcher 202 (''id'', None)) sample_iteration ?w"
  obtain s' cont where run: "?run = (s', cont)" by fastforce
  have "job_view (store_state (fst ?run)) ''b'' = Some (StatusSent, 1)" by code_simp
  with run worker_iteration_refines_steps [OF run, of sample_start 0] show ?thesis by simp
qed

end
