(* ===== verification/Dispatch_Batches.thy ===== *)
theory Dispatch_Batches
  imports Dispatcher
begin

text \<open>
  Batches.  \<^const>\<open>splitBatches\<close> cuts a list of jobs into consecutive batches within the limits, and
  the batch a worker claims from the store is the first of them: the stop rule of
  \<^const>\<open>ClaimDispatchBatch\<close> and the splitting loop implement the same greedy rule.
\<close>

section \<open>The splitting loop\<close>

definition batch_bytes :: "job list \<Rightarrow> int" where
  "batch_bytes js = (\<Sum>j\<leftarrow>js. job_bytes (job_PayloadJSON j))"

lemma batch_bytes_simps [simp]:
  "batch_bytes [] = 0"
  "batch_bytes (j # js) = job_bytes (job_PayloadJSON j) + batch_bytes js"
  "batch_bytes (js @ ks) = batch_bytes js + batch_bytes ks"
  by (simp_all add: batch_bytes_def)

definition batch_ok :: "int \<Rightarrow> int \<Rightarrow> job list \<Rightarrow> bool" where
  "batch_ok mc mb b \<longleftrightarrow> b \<noteq> [] \<and> int (length b) \<le> mc \<and> (length b = 1 \<or> batch_bytes b \<le> mb)"

lemma split_loop_concat: "concat (split_loop mc mb jobs out cur n) = concat out @ cur @ jobs"
  by (induction mc mb jobs out cur n rule: split_loop.induct) (auto simp: Let_def)

lemma split_loop_ok:
  assumes "1 \<le> mc" and "\<forall>b \<in> set out. batch_ok mc mb b" and "cur = [] \<or> batch_ok mc mb cur"
    and "n = batch_bytes cur"
  shows "\<forall>b \<in> set (split_loop mc mb jobs out cur n). batch_ok mc mb b"
  using assms
proof (induction mc mb jobs out cur n rule: split_loop.induct)
  case (2 mc mb j jobs out cur n)
  have one: "batch_ok mc mb [j]" using "2.prems"(1) by (simp add: batch_ok_def)
  let ?est = "int (length (job_PayloadJSON j)) + 128"
  show ?case
  proof (cases "length cur > 0 \<and> (int (length cur) \<ge> mc \<or> n + ?est > mb)")
    case True
    then have eq: "split_loop mc mb (j # jobs) out cur n = split_loop mc mb jobs (out @ [cur]) [j] ?est"
      by (simp add: Let_def)
    from True have "batch_ok mc mb cur" using "2.prems"(3) by simp
    then show ?thesis unfolding eq
      using "2.prems" one True by (intro "2.IH"(1)) (simp_all add: job_bytes_def)
  next
    case False
    then have eq: "split_loop mc mb (j # jobs) out cur n = split_loop mc mb jobs out (cur @ [j]) (n + ?est)"
      by (auto simp: Let_def)
    have "batch_ok mc mb (cur @ [j])"
    proof (cases "cur = []")
      case True
      then show ?thesis using one by simp
    next
      case nonempty: False
      with False "2.prems"(4) show ?thesis by (simp add: batch_ok_def job_bytes_def not_le not_less)
    qed
    then show ?thesis unfolding eq
      using "2.prems" False by (intro "2.IH"(2)) (simp_all add: job_bytes_def)
  qed
qed auto

text \<open>The first batch on its own: the prefix that the greedy rule takes.\<close>

fun first_run :: "int \<Rightarrow> int \<Rightarrow> job list \<Rightarrow> job list \<Rightarrow> int \<Rightarrow> job list" where
  "first_run mc mb [] cur n = cur"
| "first_run mc mb (j # js) cur n =
     (let est = job_bytes (job_PayloadJSON j)
      in if batch_full mc mb (int (length cur)) n est then cur
         else first_run mc mb js (cur @ [j]) (n + est))"

lemma split_loop_prefix: "\<exists>rest. split_loop mc mb jobs out cur n = out @ rest"
  by (induction mc mb jobs out cur n rule: split_loop.induct) (auto simp: Let_def)

lemma split_loop_first:
  "cur \<noteq> [] \<or> jobs \<noteq> [] \<Longrightarrow>
     \<exists>rest. split_loop mc mb jobs [] cur n = first_run mc mb jobs cur n # rest"
proof (induction mc mb jobs cur n rule: first_run.induct)
  case (2 mc mb j js cur n)
  show ?case
  proof (cases "batch_full mc mb (int (length cur)) n (job_bytes (job_PayloadJSON j))")
    case True
    then show ?thesis
      using split_loop_prefix [of mc mb js "[cur]" "[j]" "job_bytes (job_PayloadJSON j)"]
      by (auto simp: batch_full_def job_bytes_def Let_def)
  next
    case False
    with "2.IH" show ?thesis by (auto simp: batch_full_def job_bytes_def Let_def)
  qed
qed simp

lemma first_run_extends: "\<exists>k. first_run mc mb js cur n = cur @ take k js"
proof (induction mc mb js cur n rule: first_run.induct)
  case (2 mc mb j js cur n)
  show ?case
  proof (cases "batch_full mc mb (int (length cur)) n (job_bytes (job_PayloadJSON j))")
    case True
    then show ?thesis by (intro exI [of _ 0]) (simp add: Let_def)
  next
    case False
    with "2.IH" obtain k where
      "first_run mc mb js (cur @ [j]) (n + job_bytes (job_PayloadJSON j)) = (cur @ [j]) @ take k js"
      by blast
    with False show ?thesis by (intro exI [of _ "Suc k"]) (simp add: Let_def)
  qed
qed simp

lemma scan_row_simps [simp]:
  "job_ID (scan_row S now r) = row_id r"
  "job_PayloadJSON (scan_row S now r) = row_payload_json r"
  by (simp_all add: scan_row_def)

lemma pick_ids_first_run:
  "pick_ids no_faults (batch_full mc mb) i rs (map job_ID cur) n =
     Inr (map job_ID (first_run mc mb (map (scan_row S now) rs) cur n))"
proof (induction rs arbitrary: i cur n)
  case (Cons r rs)
  have "map job_ID cur @ [row_id r] = map job_ID (cur @ [scan_row S now r])" by simp
  then show ?case
    using Cons [of "Suc i" "cur @ [scan_row S now r]" "n + job_bytes (row_payload_json r)"]
    by (simp add: Let_def)
qed simp

section \<open>Properties\<close>

text \<open>Splitting loses, repeats and reorders nothing, and every batch is within the limits: never
  empty, at most the maximal number of jobs, and at most the maximal estimated size unless a single
  job is larger.\<close>

lemma split_batches_correct:
  "concat (splitBatches jobs maxCount maxBytes) = jobs \<and>
   list_all (\<lambda>b. b \<noteq> [] \<and> int (length b) \<le> default_max_count maxCount \<and>
       (length b = 1 \<or> batch_bytes b \<le> default_max_bytes maxBytes))
     (splitBatches jobs maxCount maxBytes)"
proof (cases "jobs = []")
  case False
  then have "splitBatches jobs maxCount maxBytes =
      split_loop (default_max_count maxCount) (default_max_bytes maxBytes) jobs [] [] 0"
    by (simp add: splitBatches_def default_max_count_def default_max_bytes_def Let_def)
  moreover have "1 \<le> default_max_count maxCount" by (simp add: default_max_count_def)
  ultimately show ?thesis
    using split_loop_ok [of "default_max_count maxCount" "[]" "default_max_bytes maxBytes" "[]" 0 jobs]
    by (simp add: split_loop_concat batch_ok_def list_all_iff)
qed (simp add: splitBatches_def)

lemma claimJobs_no_faults:
  assumes "claimJobs S no_faults now limit stop t = (t', Inr jobs)" and "0 < limit"
    and "pick_ids no_faults stop 0 (claim_candidates S now limit t) [] 0 = Inr ids"
  shows "ids = [] \<Longrightarrow> jobs = []"
    and "ids \<noteq> [] \<Longrightarrow> t' = update_where (claim_guard now ids) (claim_set (workerID S) now) t"
    and "ids \<noteq> [] \<Longrightarrow> scan_claimed S no_faults now 0 (claimed_rows S ids t') [] = Inr jobs"
  using assms unfolding claimJobs_def Let_def
  by (simp_all split: if_split_asm sum.split_asm)

lemma first_run_ids:
  "\<exists>k. map job_ID (first_run mc mb (map (scan_row S now) rs) [] 0) = map row_id (take k rs)"
proof -
  obtain k where "first_run mc mb (map (scan_row S now) rs) [] 0 = take k (map (scan_row S now) rs)"
    using first_run_extends [of mc mb "map (scan_row S now) rs" "[]" 0] by auto
  then show ?thesis by (intro exI [of _ k]) (simp add: take_map scan_row_def comp_def)
qed

text \<open>C20: What a worker claims is the first batch of the split: without database faults the jobs
  handed out are, up to the order of jobs created at the same time, the first batch that
  splitBatches cuts from the due jobs in claim order; nothing is handed out only when nothing is
  due.\<close>

theorem claim_takes_first_split_batch:
  assumes "store_inv t" and "0 < limit"
    and "ClaimDispatchBatch S no_faults now limit lease maxCount maxBytes t = (t', Inr jobs)"
  shows "let due = map (scan_row S now) (claim_candidates S now limit t)
    in if due = [] then jobs = []
       else mset (map job_ID jobs) = mset (map job_ID (hd (splitBatches due maxCount maxBytes)))"
proof -
  let ?mc = "default_max_count maxCount" and ?mb = "default_max_bytes maxBytes"
  let ?rs = "claim_candidates S now limit t"
  let ?due = "map (scan_row S now) ?rs"
  let ?ids = "map job_ID (first_run ?mc ?mb ?due [] 0)"
  have dist: "distinct (map row_id t)" using assms(1) by (simp add: store_inv_def)
  have pick: "pick_ids no_faults (batch_full ?mc ?mb) 0 ?rs [] 0 = Inr ?ids"
    using pick_ids_first_run [of ?mc ?mb 0 ?rs "[]" 0 S now] by simp
  note run = claimJobs_no_faults [OF assms(3) [unfolded ClaimDispatchBatch_def] assms(2) pick]
  show ?thesis
  proof (cases "?due = []")
    case True
    then show ?thesis using run(1) by simp
  next
    case False
    have "splitBatches ?due maxCount maxBytes = split_loop ?mc ?mb ?due [] [] 0"
      using False by (simp add: splitBatches_def default_max_count_def default_max_bytes_def Let_def)
    then have split: "hd (splitBatches ?due maxCount maxBytes) = first_run ?mc ?mb ?due [] 0"
      using False split_loop_first [of "[]" ?due ?mc ?mb 0] by auto
    obtain r rs where "?rs = r # rs" using False by (cases ?rs) auto
    then have "?ids \<noteq> []"
      using first_run_extends [of ?mc ?mb "map (scan_row S now) rs" "[scan_row S now r]"
          "job_bytes (job_PayloadJSON (scan_row S now r))"]
      by (auto simp: batch_full_def Let_def)
    note t' = run(2) [OF this] and scan = run(3) [OF this]
    obtain k where k: "?ids = map row_id (take k ?rs)" using first_run_ids by blast
    have out: "claim_outcome S no_faults now limit t (take k ?rs) t' jobs"
      using t' scan_claimed_Inr [OF scan] unfolding claim_outcome_def k by auto
    obtain cs where cs: "jobs = map (claimed_job S now) cs" "distinct (map row_id cs)"
        "set cs = claim_set (workerID S) now ` set (take k ?rs)"
      using claim_outcome_jobs [OF out dist] by auto
    have "set (map job_ID jobs) = set ?ids" unfolding k using cs(1,3) by (auto simp: image_iff)
    moreover have "distinct (map job_ID jobs)" using cs(1,2) by (simp add: comp_def)
    moreover have "distinct ?ids" unfolding k by (rule claim_outcome_picked(2) [OF out dist])
    ultimately have "mset (map job_ID jobs) = mset ?ids" by (metis set_eq_iff_mset_eq_distinct)
    with False split show ?thesis by simp
  qed
qed

theorem claim_takes_first_split_batch_witness:
  "mset (map job_ID [sample_job]) =
     mset (map job_ID (hd (splitBatches
       (map (scan_row sample_store 10) (claim_candidates sample_store 10 100 sample_table)) 1 0)))"
proof -
  have "map (scan_row sample_store 10) (claim_candidates sample_store 10 100 sample_table) \<noteq> []"
    by code_simp
  with claim_takes_first_split_batch [OF sample_inv _ sample_claim] show ?thesis
    by (simp add: Let_def)
qed

end
