(* ===== verification/Relay_Config.thy ===== *)
theory Relay_Config
  imports Backoff
begin

text \<open>
  Configuration (\<^verbatim>\<open>config/config.go\<close>): reading the environment, the defaults, the limits of the MailerSend
  plans and the two validations.  The environment is a function from names to values, empty for a
  variable that is not set.  The parsers of \<^verbatim>\<open>strconv\<close> and \<^verbatim>\<open>time\<close> the code calls are modelled here;
  the Unicode case tables are the parameter \<open>U\<close>.
\<close>

section \<open>strconv.ParseBool and time.ParseDuration\<close>

definition ParseBool :: "string \<Rightarrow> bool option" where
  "ParseBool s =
     (if s \<in> {''1'', ''t'', ''T'', ''TRUE'', ''true'', ''True''} then Some True
      else if s \<in> {''0'', ''f'', ''F'', ''FALSE'', ''false'', ''False''} then Some False
      else None)"

definition is_digit :: "char \<Rightarrow> bool" where
  "is_digit c \<longleftrightarrow> 48 \<le> (of_char c :: int) \<and> (of_char c :: int) \<le> 57"

fun leadingInt :: "int \<Rightarrow> string \<Rightarrow> (int \<times> string) option" where
  "leadingInt x [] = Some (x, [])"
| "leadingInt x (c # s) =
     (if \<not> is_digit c then Some (x, c # s)
      else if x > 2 ^ 63 div 10 then None
      else let x' = x * 10 + (of_char c - 48)
           in if x' > 2 ^ 63 then None else leadingInt x' s)"

fun leadingFraction :: "int \<Rightarrow> rat \<Rightarrow> bool \<Rightarrow> string \<Rightarrow> int \<times> rat \<times> string" where
  "leadingFraction x scale overflow [] = (x, scale, [])"
| "leadingFraction x scale overflow (c # s) =
     (if \<not> is_digit c then (x, scale, c # s)
      else if overflow then leadingFraction x scale True s
      else if x > (2 ^ 63 - 1) div 10 then leadingFraction x scale True s
      else let y = x * 10 + (of_char c - 48)
           in if y > 2 ^ 63 then leadingFraction x scale True s
              else leadingFraction y (float64 (scale * 10)) False s)"

definition duration_units :: "(string \<times> int) list" where
  "duration_units =
     [(''ns'', 1), (''us'', 1000), ([CHR 0xC2, CHR 0xB5, CHR ''s''], 1000),
      ([CHR 0xCE, CHR 0xBC, CHR ''s''], 1000), (''ms'', millisecond), (''s'', second),
      (''m'', minute), (''h'', hour)]"

definition not_number :: "char \<Rightarrow> bool" where
  "not_number c \<longleftrightarrow> c \<noteq> CHR ''.'' \<and> \<not> is_digit c"

text \<open>The optional fraction: its digits, scale, what follows, and whether it has a digit.\<close>

definition fraction_part :: "string \<Rightarrow> int \<times> rat \<times> string \<times> bool" where
  "fraction_part s =
     (case s of
        c # s' \<Rightarrow>
          if c = CHR ''.''
          then (case leadingFraction 0 1 False s' of
                  (f, scale, rest) \<Rightarrow> (f, scale, rest, length rest \<noteq> length s'))
          else (0, 1, s, False)
      | [] \<Rightarrow> (0, 1, s, False))"

text \<open>The value \<open>v\<close> and fraction \<open>f / scale\<close> of a unit, in nanoseconds.\<close>

definition unit_value :: "int \<Rightarrow> int \<Rightarrow> rat \<Rightarrow> int \<Rightarrow> int option" where
  "unit_value v f scale unit =
     (if v > 2 ^ 63 div unit then None
      else let v = v * unit
           in if f > 0
              then (let v = v + \<lfloor>float64 (float64 (of_int f) * float64 (float64 (of_int unit) / scale))\<rfloor>
                    in if v > 2 ^ 63 then None else Some v)
              else Some v)"

text \<open>One round of the loop: a number with an optional fraction, then a unit.\<close>

definition parse_term :: "string \<Rightarrow> (int \<times> string) option" where
  "parse_term s =
     (if s = [] \<or> not_number (hd s) then None
      else case leadingInt 0 s of
        None \<Rightarrow> None
      | Some (v, s1) \<Rightarrow>
          (case fraction_part s1 of
            (f, scale, s2, post) \<Rightarrow>
              (let pre = (length s1 \<noteq> length s);
                   u = takeWhile not_number s2;
                   rest = dropWhile not_number s2
               in if \<not> pre \<and> \<not> post then None
                  else if u = [] then None
                  else case map_of duration_units u of
                    None \<Rightarrow> None
                  | Some unit \<Rightarrow> map_option (\<lambda>v. (v, rest)) (unit_value v f scale unit))))"

text \<open>Every round consumes a character, so the length of the string is fuel enough.\<close>

fun parse_terms :: "nat \<Rightarrow> int \<Rightarrow> string \<Rightarrow> int option" where
  "parse_terms fuel d [] = Some d"
| "parse_terms 0 d (c # s) = None"
| "parse_terms (Suc fuel) d (c # s) =
     (case parse_term (c # s) of
        None \<Rightarrow> None
      | Some (v, rest) \<Rightarrow>
          let d' = (d + v) mod 2 ^ 64
          in if d' > 2 ^ 63 then None else parse_terms fuel d' rest)"

definition ParseDuration :: "string \<Rightarrow> duration option" where
  "ParseDuration s =
     (let neg = (s \<noteq> [] \<and> hd s = CHR ''-'');
          s = (if s \<noteq> [] \<and> (hd s = CHR ''-'' \<or> hd s = CHR ''+'') then tl s else s)
      in if s = ''0'' then Some 0
         else if s = [] then None
         else case parse_terms (length s) 0 s of
                None \<Rightarrow> None
              | Some d \<Rightarrow> if neg then Some (- d) else if d > 2 ^ 63 - 1 then None else Some d)"

section \<open>The configuration\<close>

record MailerSendAccountLimits =
  Plan :: string
  BulkAPISupported :: bool
  CustomHeadersSupported :: bool
  BulkAPIMaxMessagesPerRequest :: int
  BulkAPIMaxRequestsPerMin :: int

record config =
  c_Env :: string
  c_LogLevel :: string
  c_SMTPListenAddr :: string
  c_SMTPDomain :: string
  c_SMTPAuthUsername :: string
  c_SMTPAuthPassword :: string
  c_SMTPTLSCertFile :: string
  c_SMTPTLSKeyFile :: string
  c_SMTPAllowInsecureAuth :: bool
  c_SMTPRequireSTARTTLS :: bool
  c_SMTPMaxMessageBytes :: int
  c_SMTPMaxRecipients :: int
  c_SMTPMaxConnections :: int
  c_SMTPMaxConnectionsPerIP :: int
  c_SMTPRateLimitPerIPPerMin :: int
  c_SMTPAllowedSenderDomains :: "string list"
  c_HTTPListenAddr :: string
  c_DBPath :: string
  c_DBMaxOpenConns :: int
  c_DBMaxIdleConns :: int
  c_DispatcherWorkers :: int
  c_QueueClaimLimit :: int
  c_QueueLeaseTimeout :: duration
  c_BatchMaxCount :: int
  c_BatchMaxBytes :: int
  c_BatchFlushInterval :: duration
  c_RetryMaxAttempts :: int
  c_RequeueStaleInterval :: duration
  c_MailersendAPIKey :: string
  c_MailersendBaseURL :: string
  c_MailersendTimeout :: duration
  c_MailersendEnableCustomHeaders :: bool
  c_MailersendAccountPlan :: string
  c_MailersendBulkAPISupported :: bool
  c_MailersendCustomHeadersSupported :: bool
  c_MailersendBulkAPIMaxMessagesPerRequest :: int
  c_MailersendBulkAPIMaxRequestsPerMin :: int

datatype config_error =
    ConfigError string
  | UnknownPlan
  | NotBoolean string
  | NotInteger string
  | BulkUnsupported string
  | HeadersUnsupported string

type_synonym environment = "string \<Rightarrow> string"

section \<open>Reading the environment\<close>

definition getenv :: "environment \<Rightarrow> string \<Rightarrow> string \<Rightarrow> string" where
  "getenv env key dflt = (let v = TrimSpace (env key) in if v = [] then dflt else v)"

definition getenv_parsed :: "(string \<Rightarrow> 'a option) \<Rightarrow> environment \<Rightarrow> string \<Rightarrow> 'a \<Rightarrow> 'a" where
  "getenv_parsed parse env key dflt =
     (let v = TrimSpace (env key)
      in if v = [] then dflt else case parse v of None \<Rightarrow> dflt | Some x \<Rightarrow> x)"

definition getenvInt :: "environment \<Rightarrow> string \<Rightarrow> int \<Rightarrow> int" where
  "getenvInt = getenv_parsed ParseInt"

definition getenvInt64 :: "environment \<Rightarrow> string \<Rightarrow> int \<Rightarrow> int" where
  "getenvInt64 = getenv_parsed ParseInt"

definition getenvBool :: "environment \<Rightarrow> string \<Rightarrow> bool \<Rightarrow> bool" where
  "getenvBool = getenv_parsed ParseBool"

definition getenvDuration :: "environment \<Rightarrow> string \<Rightarrow> duration \<Rightarrow> duration" where
  "getenvDuration = getenv_parsed ParseDuration"

text \<open>\<open>Inr None\<close> is a variable that is not set.\<close>

definition getenvOptionalBool :: "environment \<Rightarrow> string \<Rightarrow> config_error + bool option" where
  "getenvOptionalBool env key =
     (let v = TrimSpace (env key)
      in if v = [] then Inr None
         else case ParseBool v of None \<Rightarrow> Inl (NotBoolean key) | Some b \<Rightarrow> Inr (Some b))"

definition getenvOptionalInt :: "environment \<Rightarrow> string \<Rightarrow> config_error + int option" where
  "getenvOptionalInt env key =
     (let v = TrimSpace (env key)
      in if v = [] then Inr None
         else case ParseInt v of None \<Rightarrow> Inl (NotInteger key) | Some n \<Rightarrow> Inr (Some n))"

definition splitCSV :: "(string \<Rightarrow> string) \<Rightarrow> string \<Rightarrow> string list" where
  "splitCSV U v =
     (if TrimSpace v = [] then []
      else filter (\<lambda>p. p \<noteq> []) (map (\<lambda>part. ToLower U (TrimSpace part)) (split_char CHR '','' v)))"

section \<open>Account limits\<close>

definition plan_limits :: "string \<Rightarrow> bool \<Rightarrow> bool \<Rightarrow> MailerSendAccountLimits" where
  "plan_limits plan bulk headers =
     \<lparr>Plan = plan, BulkAPISupported = bulk, CustomHeadersSupported = headers,
      BulkAPIMaxMessagesPerRequest = 500, BulkAPIMaxRequestsPerMin = 10\<rparr>"

definition resolveMailerSendAccountLimits :: "string \<Rightarrow> config_error + MailerSendAccountLimits" where
  "resolveMailerSendAccountLimits plan =
     (if plan = ''trial'' \<or> plan = ''free'' then Inr (plan_limits plan False False)
      else if plan = ''hobby'' \<or> plan = ''starter'' then Inr (plan_limits plan True False)
      else if plan = ''professional'' \<or> plan = ''enterprise'' then Inr (plan_limits plan True True)
      else Inl UnknownPlan)"

definition loadMailerSendAccountLimitsFromEnv :: "(string \<Rightarrow> string) \<Rightarrow> environment \<Rightarrow>
    config_error + MailerSendAccountLimits" where
  "loadMailerSendAccountLimitsFromEnv U env =
     (case resolveMailerSendAccountLimits
             (ToLower U (TrimSpace (getenv env ''MAILERSEND_ACCOUNT_PLAN'' ''starter''))) of
        Inl e \<Rightarrow> Inl e
      | Inr limits \<Rightarrow>
     (case getenvOptionalBool env ''MAILERSEND_BULK_API_SUPPORTED'' of
        Inl e \<Rightarrow> Inl e
      | Inr b1 \<Rightarrow>
     (case getenvOptionalBool env ''MAILERSEND_CUSTOM_HEADERS_SUPPORTED'' of
        Inl e \<Rightarrow> Inl e
      | Inr b2 \<Rightarrow>
     (case getenvOptionalInt env ''MAILERSEND_BULK_API_MAX_MESSAGES_PER_REQUEST'' of
        Inl e \<Rightarrow> Inl e
      | Inr n1 \<Rightarrow>
     (case getenvOptionalInt env ''MAILERSEND_BULK_API_MAX_REQUESTS_PER_MIN'' of
        Inl e \<Rightarrow> Inl e
      | Inr n2 \<Rightarrow>
          Inr (limits
            \<lparr>BulkAPISupported := (case b1 of None \<Rightarrow> BulkAPISupported limits | Some b \<Rightarrow> b),
             CustomHeadersSupported := (case b2 of None \<Rightarrow> CustomHeadersSupported limits | Some b \<Rightarrow> b),
             BulkAPIMaxMessagesPerRequest :=
               (case n1 of None \<Rightarrow> BulkAPIMaxMessagesPerRequest limits | Some n \<Rightarrow> n),
             BulkAPIMaxRequestsPerMin :=
               (case n2 of None \<Rightarrow> BulkAPIMaxRequestsPerMin limits | Some n \<Rightarrow> n)\<rparr>))))))"

section \<open>Validation and loading\<close>

definition ValidateCommon :: "config \<Rightarrow> config_error option" where
  "ValidateCommon c =
     (if c_SMTPMaxMessageBytes c \<le> 0
        then Some (ConfigError ''SMTP_MAX_MESSAGE_BYTES must be > 0'')
      else if c_SMTPMaxRecipients c \<le> 0
        then Some (ConfigError ''SMTP_MAX_RECIPIENTS must be > 0'')
      else if c_SMTPMaxConnections c < 1
        then Some (ConfigError ''SMTP_MAX_CONNECTIONS must be >= 1'')
      else if c_SMTPMaxConnectionsPerIP c < 1
        then Some (ConfigError ''SMTP_MAX_CONNECTIONS_PER_IP must be >= 1'')
      else if c_SMTPRateLimitPerIPPerMin c < 1
        then Some (ConfigError ''SMTP_RATE_LIMIT_PER_IP_PER_MIN must be >= 1'')
      else if c_DBPath c = []
        then Some (ConfigError ''SQLITE_PATH is required'')
      else if c_DispatcherWorkers c < 1
        then Some (ConfigError ''DISPATCHER_WORKERS must be >= 1'')
      else if c_QueueClaimLimit c < 1
        then Some (ConfigError ''QUEUE_CLAIM_LIMIT must be >= 1'')
      else if c_BatchMaxCount c < 1 \<or> c_BatchMaxCount c > 500
        then Some (ConfigError ''BATCH_MAX_COUNT must be in range [1,500]'')
      else if c_BatchMaxBytes c < 1024
        then Some (ConfigError ''BATCH_MAX_BYTES must be >= 1024'')
      else if c_BatchFlushInterval c \<le> 0
        then Some (ConfigError ''BATCH_FLUSH_INTERVAL must be > 0'')
      else if c_RetryMaxAttempts c < 1
        then Some (ConfigError ''RETRY_MAX_ATTEMPTS must be >= 1'')
      else if c_QueueLeaseTimeout c \<le> 0
        then Some (ConfigError ''QUEUE_LEASE_TIMEOUT must be > 0'')
      else if c_MailersendTimeout c \<le> 0
        then Some (ConfigError ''MAILERSEND_TIMEOUT must be > 0'')
      else if c_MailersendBulkAPIMaxMessagesPerRequest c < 1 \<or> c_MailersendBulkAPIMaxMessagesPerRequest c > 500
        then Some (ConfigError ''MAILERSEND_BULK_API_MAX_MESSAGES_PER_REQUEST must be in range [1,500]'')
      else if c_MailersendBulkAPIMaxRequestsPerMin c < 1
        then Some (ConfigError ''MAILERSEND_BULK_API_MAX_REQUESTS_PER_MIN must be >= 1'')
      else None)"

definition ValidateServe :: "config \<Rightarrow> config_error option" where
  "ValidateServe c =
     (if c_SMTPAuthUsername c = [] \<or> c_SMTPAuthPassword c = []
        then Some (ConfigError ''SMTP_AUTH_USERNAME and SMTP_AUTH_PASSWORD are required'')
      else if length (c_SMTPAllowedSenderDomains c) = 0
        then Some (ConfigError ''SMTP_ALLOWED_SENDER_DOMAINS must not be empty'')
      else if c_SMTPRequireSTARTTLS c \<and> (c_SMTPTLSCertFile c = [] \<or> c_SMTPTLSKeyFile c = [])
        then Some (ConfigError ''SMTP_TLS_CERT_FILE and SMTP_TLS_KEY_FILE are required when SMTP_REQUIRE_STARTTLS=true'')
      else if c_MailersendAPIKey c = []
        then Some (ConfigError ''MAILERSEND_API_KEY is required'')
      else if \<not> c_MailersendBulkAPISupported c
        then Some (BulkUnsupported (c_MailersendAccountPlan c))
      else if c_MailersendEnableCustomHeaders c \<and> \<not> c_MailersendCustomHeadersSupported c
        then Some (HeadersUnsupported (c_MailersendAccountPlan c))
      else None)"

definition EffectiveBatchMaxCount :: "config \<Rightarrow> int" where
  "EffectiveBatchMaxCount c =
     (if c_BatchMaxCount c < c_MailersendBulkAPIMaxMessagesPerRequest c then c_BatchMaxCount c
      else c_MailersendBulkAPIMaxMessagesPerRequest c)"

definition config_from_env :: "(string \<Rightarrow> string) \<Rightarrow> environment \<Rightarrow> MailerSendAccountLimits \<Rightarrow> config" where
  "config_from_env U env limits =
     \<lparr>c_Env = getenv env ''APP_ENV'' ''production'',
      c_LogLevel = getenv env ''LOG_LEVEL'' ''info'',
      c_SMTPListenAddr = getenv env ''SMTP_LISTEN_ADDR'' '':2525'',
      c_SMTPDomain = getenv env ''SMTP_DOMAIN'' ''localhost'',
      c_SMTPAuthUsername = getenv env ''SMTP_AUTH_USERNAME'' [],
      c_SMTPAuthPassword = getenv env ''SMTP_AUTH_PASSWORD'' [],
      c_SMTPTLSCertFile = getenv env ''SMTP_TLS_CERT_FILE'' [],
      c_SMTPTLSKeyFile = getenv env ''SMTP_TLS_KEY_FILE'' [],
      c_SMTPAllowInsecureAuth = getenvBool env ''SMTP_ALLOW_INSECURE_AUTH'' False,
      c_SMTPRequireSTARTTLS = getenvBool env ''SMTP_REQUIRE_STARTTLS'' True,
      c_SMTPMaxMessageBytes = getenvInt64 env ''SMTP_MAX_MESSAGE_BYTES'' (8 * 1024 * 1024),
      c_SMTPMaxRecipients = getenvInt env ''SMTP_MAX_RECIPIENTS'' 1000,
      c_SMTPMaxConnections = getenvInt env ''SMTP_MAX_CONNECTIONS'' 200,
      c_SMTPMaxConnectionsPerIP = getenvInt env ''SMTP_MAX_CONNECTIONS_PER_IP'' 20,
      c_SMTPRateLimitPerIPPerMin = getenvInt env ''SMTP_RATE_LIMIT_PER_IP_PER_MIN'' 600,
      c_SMTPAllowedSenderDomains = splitCSV U (getenv env ''SMTP_ALLOWED_SENDER_DOMAINS'' []),
      c_HTTPListenAddr = getenv env ''HTTP_LISTEN_ADDR'' '':8080'',
      c_DBPath = getenv env ''SQLITE_PATH'' ''./data/relay.db'',
      c_DBMaxOpenConns = getenvInt env ''SQLITE_MAX_OPEN_CONNS'' 1,
      c_DBMaxIdleConns = getenvInt env ''SQLITE_MAX_IDLE_CONNS'' 1,
      c_DispatcherWorkers = getenvInt env ''DISPATCHER_WORKERS'' 4,
      c_QueueClaimLimit = getenvInt env ''QUEUE_CLAIM_LIMIT'' 1000,
      c_QueueLeaseTimeout = getenvDuration env ''QUEUE_LEASE_TIMEOUT'' (30 * second),
      c_BatchMaxCount = getenvInt env ''BATCH_MAX_COUNT'' 500,
      c_BatchMaxBytes = getenvInt env ''BATCH_MAX_BYTES'' (5 * 1024 * 1024),
      c_BatchFlushInterval = getenvDuration env ''BATCH_FLUSH_INTERVAL'' (250 * millisecond),
      c_RetryMaxAttempts = getenvInt env ''RETRY_MAX_ATTEMPTS'' 8,
      c_RequeueStaleInterval = getenvDuration env ''REQUEUE_STALE_INTERVAL'' (30 * second),
      c_MailersendAPIKey = getenv env ''MAILERSEND_API_KEY'' [],
      c_MailersendBaseURL = getenv env ''MAILERSEND_BASE_URL'' ''https://api.mailersend.com/v1'',
      c_MailersendTimeout = getenvDuration env ''MAILERSEND_TIMEOUT'' (20 * second),
      c_MailersendEnableCustomHeaders = getenvBool env ''MAILERSEND_ENABLE_CUSTOM_HEADERS'' False,
      c_MailersendAccountPlan = Plan limits,
      c_MailersendBulkAPISupported = BulkAPISupported limits,
      c_MailersendCustomHeadersSupported = CustomHeadersSupported limits,
      c_MailersendBulkAPIMaxMessagesPerRequest = BulkAPIMaxMessagesPerRequest limits,
      c_MailersendBulkAPIMaxRequestsPerMin = BulkAPIMaxRequestsPerMin limits\<rparr>"

definition LoadFromEnv :: "(string \<Rightarrow> string) \<Rightarrow> environment \<Rightarrow> config_error + config" where
  "LoadFromEnv U env =
     (case loadMailerSendAccountLimitsFromEnv U env of
        Inl e \<Rightarrow> Inl e
      | Inr limits \<Rightarrow>
          (let cfg = config_from_env U env limits
           in case ValidateCommon cfg of Some e \<Rightarrow> Inl e | None \<Rightarrow> Inr cfg))"

section \<open>Facts about the parsers\<close>

lemma leadingInt_length: "leadingInt x s = Some (v, rest) \<Longrightarrow> length rest \<le> length s"
  by (induction x s rule: leadingInt.induct) (auto simp: Let_def split: if_splits)

lemma leadingFraction_length: "leadingFraction x sc ov s = (v, scale, rest) \<Longrightarrow> length rest \<le> length s"
proof (induction s arbitrary: x sc ov)
  case (Cons c s)
  have "length rest \<le> length s \<or> rest = c # s"
    using Cons.prems Cons.IH by (simp add: Let_def split: if_split_asm)
  then show ?case by auto
qed simp

text \<open>Enough fuel: a round leaves a shorter string, so more fuel than the length changes nothing.\<close>

lemma fraction_part_length: "fraction_part s = (f, scale, rest, post) \<Longrightarrow> length rest \<le> length s"
  by (auto simp: fraction_part_def split: list.splits if_splits prod.splits dest: leadingFraction_length)

lemma dropWhile_shorter: "takeWhile P s \<noteq> [] \<Longrightarrow> length (dropWhile P s) < length s"
  by (cases s) (auto simp: le_imp_less_Suc length_dropWhile_le split: if_splits)

lemma parse_term_shorter: "parse_term s = Some (v, rest) \<Longrightarrow> length rest < length s"
proof -
  assume a: "parse_term s = Some (v, rest)"
  then obtain n s1 where s1: "leadingInt 0 s = Some (n, s1)"
    by (auto simp: parse_term_def split: if_splits option.splits)
  obtain f sc s2 post where s2: "fraction_part s1 = (f, sc, s2, post)" by (metis prod_cases4)
  have "takeWhile not_number s2 \<noteq> []" "rest = dropWhile not_number s2"
    using a s1 s2 by (auto simp: parse_term_def Let_def split: if_splits option.splits)
  then have "length rest < length s2" using dropWhile_shorter by blast
  with leadingInt_length [OF s1] fraction_part_length [OF s2] show ?thesis by linarith
qed

lemma parse_terms_fuel: "length s \<le> f \<Longrightarrow> length s \<le> g \<Longrightarrow> parse_terms f d s = parse_terms g d s"
proof (induction f d s arbitrary: g rule: parse_terms.induct)
  case (3 fuel d c s)
  then obtain g' where g: "g = Suc g'" by (cases g) auto
  show ?case
  proof (cases "parse_term (c # s)")
    case (Some vr)
    obtain v rest where vr: "vr = (v, rest)" by fastforce
    have "length rest < length (c # s)" using Some vr parse_term_shorter by blast
    with 3 Some vr g show ?thesis by (auto simp: Let_def)
  qed (simp add: g)
qed auto

text \<open>The sum of the terms wraps around in 64 bits, but the check after each addition keeps it within
  the range of a duration.\<close>

lemma parse_terms_range:
  "parse_terms f d s = Some d' \<Longrightarrow> 0 \<le> d \<Longrightarrow> d \<le> 2 ^ 63 \<Longrightarrow> 0 \<le> d' \<and> d' \<le> 2 ^ 63"
  by (induction f d s rule: parse_terms.induct) (auto simp: Let_def split: option.splits if_splits)

lemma ParseDuration_range: "ParseDuration s = Some d \<Longrightarrow> in_int64 d"
  by (auto simp: ParseDuration_def Let_def in_int64_def dest!: parse_terms_range split: if_splits option.splits)

lemma getenv_range [intro]:
  "in_int64 d \<Longrightarrow> in_int64 (getenv_parsed ParseInt env key d)"
  "in_int64 d \<Longrightarrow> in_int64 (getenv_parsed ParseDuration env key d)"
  by (auto simp: getenv_parsed_def Let_def ParseInt_range ParseDuration_range split: option.split)

lemmas getenv_number_defs = getenvInt_def getenvInt64_def getenvDuration_def

lemma config_numbers_in_range:
  "in_int64 (c_SMTPMaxMessageBytes (config_from_env U env limits))"
  "in_int64 (c_SMTPMaxRecipients (config_from_env U env limits))"
  "in_int64 (c_SMTPMaxConnections (config_from_env U env limits))"
  "in_int64 (c_SMTPMaxConnectionsPerIP (config_from_env U env limits))"
  "in_int64 (c_SMTPRateLimitPerIPPerMin (config_from_env U env limits))"
  "in_int64 (c_DBMaxOpenConns (config_from_env U env limits))"
  "in_int64 (c_DBMaxIdleConns (config_from_env U env limits))"
  "in_int64 (c_DispatcherWorkers (config_from_env U env limits))"
  "in_int64 (c_QueueClaimLimit (config_from_env U env limits))"
  "in_int64 (c_BatchMaxBytes (config_from_env U env limits))"
  "in_int64 (c_RetryMaxAttempts (config_from_env U env limits))"
  "in_int64 (c_QueueLeaseTimeout (config_from_env U env limits))"
  "in_int64 (c_BatchFlushInterval (config_from_env U env limits))"
  "in_int64 (c_RequeueStaleInterval (config_from_env U env limits))"
  "in_int64 (c_MailersendTimeout (config_from_env U env limits))"
  by (simp_all add: config_from_env_def getenv_number_defs)
    ((rule getenv_range, simp add: in_int64_def)+)

lemma account_limits_in_range:
  assumes "loadMailerSendAccountLimitsFromEnv U env = Inr limits"
  shows "in_int64 (BulkAPIMaxRequestsPerMin limits)"
    and "Plan limits \<in> {''trial'', ''free'', ''hobby'', ''starter'', ''professional'', ''enterprise''}"
proof -
  have num: "in_int64 n" if "getenvOptionalInt env key = Inr (Some n)" for key n
    using that by (auto simp: getenvOptionalInt_def Let_def dest: ParseInt_range split: if_splits option.splits)
  obtain l b1 b2 n1 n2 where l: "resolveMailerSendAccountLimits
        (ToLower U (TrimSpace (getenv env ''MAILERSEND_ACCOUNT_PLAN'' ''starter''))) = Inr l"
      "getenvOptionalInt env ''MAILERSEND_BULK_API_MAX_REQUESTS_PER_MIN'' = Inr n2"
      "BulkAPIMaxRequestsPerMin limits = (case n2 of None \<Rightarrow> BulkAPIMaxRequestsPerMin l | Some n \<Rightarrow> n)"
      "Plan limits = Plan l"
    using assms by (auto simp: loadMailerSendAccountLimitsFromEnv_def split: sum.splits)
  then have "in_int64 (BulkAPIMaxRequestsPerMin l)"
    and "Plan l \<in> {''trial'', ''free'', ''hobby'', ''starter'', ''professional'', ''enterprise''}"
    by (auto simp: resolveMailerSendAccountLimits_def plan_limits_def in_int64_def split: if_splits)
  with l num show "in_int64 (BulkAPIMaxRequestsPerMin limits)"
    and "Plan limits \<in> {''trial'', ''free'', ''hobby'', ''starter'', ''professional'', ''enterprise''}"
    by (auto split: option.splits)
qed

section \<open>Properties\<close>

lemma LoadFromEnv_valid: "LoadFromEnv U env = Inr c \<Longrightarrow> ValidateCommon c = None"
  by (auto simp: LoadFromEnv_def Let_def split: sum.splits option.splits)

lemma LoadFromEnv_config:
  "LoadFromEnv U env = Inr c \<Longrightarrow>
     \<exists>limits. loadMailerSendAccountLimitsFromEnv U env = Inr limits \<and> c = config_from_env U env limits"
  by (auto simp: LoadFromEnv_def Let_def split: sum.splits option.splits)

lemma ValidateCommon_ok:
  assumes "ValidateCommon c = None"
  shows "0 < c_SMTPMaxMessageBytes c" "0 < c_SMTPMaxRecipients c" "1 \<le> c_SMTPMaxConnections c"
    "1 \<le> c_SMTPMaxConnectionsPerIP c" "1 \<le> c_SMTPRateLimitPerIPPerMin c" "c_DBPath c \<noteq> []"
    "1 \<le> c_DispatcherWorkers c" "1 \<le> c_QueueClaimLimit c"
    "1 \<le> c_BatchMaxCount c \<and> c_BatchMaxCount c \<le> 500" "1024 \<le> c_BatchMaxBytes c"
    "0 < c_BatchFlushInterval c" "1 \<le> c_RetryMaxAttempts c" "0 < c_QueueLeaseTimeout c"
    "0 < c_MailersendTimeout c"
    "1 \<le> c_MailersendBulkAPIMaxMessagesPerRequest c \<and> c_MailersendBulkAPIMaxMessagesPerRequest c \<le> 500"
    "1 \<le> c_MailersendBulkAPIMaxRequestsPerMin c"
  using assms unfolding ValidateCommon_def by (simp_all split: if_split_asm)


definition default_config :: config where
  "default_config = config_from_env (\<lambda>s. s) (\<lambda>_. []) (plan_limits ''starter'' True False)"

lemma default_loads: "LoadFromEnv (\<lambda>s. s) (\<lambda>_. []) = Inr default_config"
  unfolding default_config_def by code_simp


text \<open>A configuration that may serve is safe: it has credentials, at least one allowed sender
  domain, an API key, certificate and key files whenever STARTTLS is required, a plan with the bulk
  API, and custom headers only when the plan has them; each missing item is refused.\<close>

lemma serve_config_complete:
  "ValidateServe c = None \<longleftrightarrow>
     c_SMTPAuthUsername c \<noteq> [] \<and> c_SMTPAuthPassword c \<noteq> [] \<and> c_SMTPAllowedSenderDomains c \<noteq> [] \<and>
     c_MailersendAPIKey c \<noteq> [] \<and> c_MailersendBulkAPISupported c \<and>
     (if c_SMTPRequireSTARTTLS c then c_SMTPTLSCertFile c \<noteq> [] \<and> c_SMTPTLSKeyFile c \<noteq> [] else True) \<and>
     (if c_MailersendEnableCustomHeaders c then c_MailersendCustomHeadersSupported c else True)"
  unfolding ValidateServe_def by auto

end
