(* ===== verification/Smtp_Backend.thy ===== *)
theory Smtp_Backend
  imports Relay_Config Relay_Metrics
begin

text \<open>
  The connection admission of the SMTP server (\<^verbatim>\<open>smtpserver/server.go\<close>: \<^verbatim>\<open>Backend\<close>): the channel of
  connection tokens, the connection count per address and the rate limiter per address.  The
  admission functions are modelled as the code runs them, and as a transition system in which
  connections are admitted and released concurrently, with every channel operation and every
  critical section a step of its own.
\<close>

section \<open>Addresses\<close>

text \<open>\<^verbatim>\<open>net.SplitHostPort\<close>, up to its error text; the result is the host.\<close>

definition split_host :: "string \<Rightarrow> string option" where
  "split_host s =
     (case after_last CHR '':'' s of
        None \<Rightarrow> None
      | Some port \<Rightarrow>
          (let i = length s - length port - 1
           in if s ! 0 = CHR ''[''
              then (if CHR '']'' \<notin> set s then None
                    else let e = length (takeWhile (\<lambda>c. c \<noteq> CHR '']'') s)
                         in if e + 1 \<noteq> i then None
                            else if CHR ''['' \<in> set (drop 1 s) \<or> CHR '']'' \<in> set (drop (e + 1) s) then None
                            else Some (drop 1 (take e s)))
              else (let host = take i s
                    in if CHR '':'' \<in> set host then None
                       else if CHR ''['' \<in> set s \<or> CHR '']'' \<in> set s then None
                       else Some host)))"

definition remoteIP :: "string option \<Rightarrow> string" where
  "remoteIP addr =
     (case addr of
        None \<Rightarrow> ''unknown''
      | Some a \<Rightarrow> (case split_host a of None \<Rightarrow> a | Some host \<Rightarrow> host))"

definition senderDomain :: "(string \<Rightarrow> string) \<Rightarrow> string \<Rightarrow> string" where
  "senderDomain U email =
     (case after_last CHR ''@'' email of None \<Rightarrow> [] | Some d \<Rightarrow> ToLower U (TrimSpace d))"

section \<open>The backend\<close>

text \<open>
  The state the sessions share: the number of tokens in the channel, whose capacity is the maximal
  number of connections, the connections per address (an absent entry reads as 0) and the limiter
  per address, given by its interval and burst.
\<close>

record backend_state =
  connTokens :: nat
  perIPConn :: "string \<Rightarrow> int option"
  perIPLimiter :: "string \<Rightarrow> (duration \<times> int) option"

definition NewBackend_state :: backend_state where
  "NewBackend_state = \<lparr>connTokens = 0, perIPConn = (\<lambda>_. None), perIPLimiter = (\<lambda>_. None)\<rparr>"

definition allowed_domains :: "(string \<Rightarrow> string) \<Rightarrow> config \<Rightarrow> string set" where
  "allowed_domains U c = set (map (\<lambda>d. ToLower U (TrimSpace d)) (c_SMTPAllowedSenderDomains c))"

definition conn_count :: "backend_state \<Rightarrow> string \<Rightarrow> int" where
  "conn_count b ip = (case perIPConn b ip of None \<Rightarrow> 0 | Some n \<Rightarrow> n)"

text \<open>
  The critical section of \<^verbatim>\<open>acquire\<close>, after the token was taken.  \<open>allow\<close> is the answer of
  \<^verbatim>\<open>limiter.Allow()\<close>, a library's.  A refusal takes a token back out of the channel.
\<close>

definition acquire_locked :: "config \<Rightarrow> bool \<Rightarrow> string \<Rightarrow> backend_state \<Rightarrow> backend_state \<times> bool" where
  "acquire_locked c allow ip b =
     (let b = (case perIPLimiter b ip of
                 Some _ \<Rightarrow> b
               | None \<Rightarrow>
                   b\<lparr>perIPLimiter := (perIPLimiter b)(ip \<mapsto>
                       (minute div c_SMTPRateLimitPerIPPerMin c, c_SMTPRateLimitPerIPPerMin c))\<rparr>)
      in if \<not> allow then (b\<lparr>connTokens := connTokens b - 1\<rparr>, False)
         else if conn_count b ip \<ge> c_SMTPMaxConnectionsPerIP c
              then (b\<lparr>connTokens := connTokens b - 1\<rparr>, False)
              else (b\<lparr>perIPConn := (perIPConn b)(ip \<mapsto> conn_count b ip + 1)\<rparr>, True))"

definition acquire :: "config \<Rightarrow> bool \<Rightarrow> string \<Rightarrow> backend_state \<Rightarrow> backend_state \<times> bool" where
  "acquire c allow ip b =
     (if int (connTokens b) \<ge> c_SMTPMaxConnections c then (b, False)
      else acquire_locked c allow ip (b\<lparr>connTokens := Suc (connTokens b)\<rparr>))"

definition release_token :: "backend_state \<Rightarrow> backend_state" where
  "release_token b = (if connTokens b > 0 then b\<lparr>connTokens := connTokens b - 1\<rparr> else b)"

definition release_locked :: "string \<Rightarrow> backend_state \<Rightarrow> backend_state" where
  "release_locked ip b =
     (if conn_count b ip > 1
      then b\<lparr>perIPConn := (perIPConn b)(ip \<mapsto> conn_count b ip - 1)\<rparr>
      else b\<lparr>perIPConn := (perIPConn b)(ip := None)\<rparr>)"

definition release :: "string \<Rightarrow> backend_state \<Rightarrow> backend_state" where
  "release ip b = release_locked ip (release_token b)"

section \<open>Concurrent admission\<close>

text \<open>
  The connections by where they are: \<open>admitting\<close> have put a token into the channel and wait for
  the lock, \<open>active\<close> have a session, \<open>releasing\<close> have given their token back and wait for the lock.
\<close>

record admission =
  backend :: backend_state
  admitting :: "string multiset"
  active :: "string multiset"
  releasing :: "string multiset"

inductive admission_step :: "config \<Rightarrow> admission \<Rightarrow> admission \<Rightarrow> bool" for c :: config where
  take_token: "int (connTokens (backend a)) < c_SMTPMaxConnections c \<Longrightarrow>
    admission_step c a
      (a\<lparr>backend := (backend a)\<lparr>connTokens := Suc (connTokens (backend a))\<rparr>,
         admitting := add_mset ip (admitting a)\<rparr>)"
| admit: "ip \<in># admitting a \<Longrightarrow> acquire_locked c allow ip (backend a) = (b', True) \<Longrightarrow>
    admission_step c a
      (a\<lparr>backend := b', admitting := admitting a - {#ip#}, active := add_mset ip (active a)\<rparr>)"
| refuse: "ip \<in># admitting a \<Longrightarrow> acquire_locked c allow ip (backend a) = (b', False) \<Longrightarrow>
    connTokens (backend a) > 0 \<Longrightarrow>
    admission_step c a (a\<lparr>backend := b', admitting := admitting a - {#ip#}\<rparr>)"
| give_token: "ip \<in># active a \<Longrightarrow>
    admission_step c a
      (a\<lparr>backend := release_token (backend a), active := active a - {#ip#},
         releasing := add_mset ip (releasing a)\<rparr>)"
| give_slot: "ip \<in># releasing a \<Longrightarrow>
    admission_step c a
      (a\<lparr>backend := release_locked ip (backend a), releasing := releasing a - {#ip#}\<rparr>)"

definition no_connections :: admission where
  "no_connections = \<lparr>backend = NewBackend_state, admitting = {#}, active = {#}, releasing = {#}\<rparr>"

definition admission_inv :: "config \<Rightarrow> admission \<Rightarrow> bool" where
  "admission_inv c a \<longleftrightarrow>
     connTokens (backend a) = size (admitting a) + size (active a) \<and>
     int (connTokens (backend a)) \<le> c_SMTPMaxConnections c \<and>
     (\<forall>ip. conn_count (backend a) ip = int (count (active a) ip + count (releasing a) ip)) \<and>
     (\<forall>ip. int (count (active a) ip + count (releasing a) ip) \<le> c_SMTPMaxConnectionsPerIP c)"

lemma conn_count_tokens [simp]: "conn_count (b\<lparr>connTokens := n\<rparr>) = conn_count b"
  by (simp add: conn_count_def fun_eq_iff)

lemma acquire_locked_frame:
  assumes "acquire_locked c allow ip b = (b', ok)"
  shows "connTokens b' = (if ok then connTokens b else connTokens b - 1)"
    and "conn_count b' i = (if ok \<and> i = ip then conn_count b ip + 1 else conn_count b i)"
    and "ok \<Longrightarrow> conn_count b ip < c_SMTPMaxConnectionsPerIP c"
  using assms
  by (auto simp: acquire_locked_def Let_def conn_count_def split: if_splits option.splits)

lemma release_frame:
  "connTokens (release_token b) = connTokens b - 1"
  "conn_count (release_token b) i = conn_count b i"
  "connTokens (release_locked ip b) = connTokens b"
  "0 < conn_count b ip \<Longrightarrow>
     conn_count (release_locked ip b) i = (if i = ip then conn_count b ip - 1 else conn_count b i)"
  by (auto simp: release_token_def release_locked_def conn_count_def)

lemma admission_step_inv:
  assumes "admission_step c a a'" and "admission_inv c a"
  shows "admission_inv c a'"
  using assms
proof (induction rule: admission_step.induct)
  case (take_token a ip)
  then show ?case unfolding admission_inv_def by simp
next
  case (admit ip a allow b')
  note f = acquire_locked_frame [OF admit(2)]
  have "size (admitting a) = Suc (size (admitting a - {#ip#}))"
    using admit(1) by (metis insert_DiffM size_add_mset)
  with admit f show ?case by (auto simp: admission_inv_def)
next
  case (refuse ip a allow b')
  note f = acquire_locked_frame [OF refuse(2)]
  have "size (admitting a) = Suc (size (admitting a - {#ip#}))"
    using refuse(1) by (metis insert_DiffM size_add_mset)
  with refuse f show ?case by (auto simp: admission_inv_def)
next
  case (give_token ip a)
  have "size (active a) = Suc (size (active a - {#ip#}))" "count (active a) ip > 0"
    using give_token(1) by (metis insert_DiffM size_add_mset, simp)
  with give_token show ?case by (auto simp: admission_inv_def release_frame)
next
  case (give_slot ip a)
  have "count (releasing a) ip > 0" using give_slot(1) by simp
  moreover have "conn_count (backend a) ip = int (count (active a) ip + count (releasing a) ip)"
    using give_slot(2) unfolding admission_inv_def by blast
  ultimately have "0 < conn_count (backend a) ip" by linarith
  moreover have "int (count (active a) ip + count (releasing a) ip) \<le> c_SMTPMaxConnectionsPerIP c"
    using give_slot(2) unfolding admission_inv_def by blast
  then have "int (count (active a) ip) + (int (count (releasing a) ip) - 1) \<le> c_SMTPMaxConnectionsPerIP c"
    by simp
  ultimately show ?case using give_slot
    by (auto simp: admission_inv_def release_frame)
qed

lemma admission_reachable_inv:
  assumes "(admission_step c)\<^sup>*\<^sup>* no_connections a" and "0 \<le> c_SMTPMaxConnections c"
    and "0 \<le> c_SMTPMaxConnectionsPerIP c"
  shows "admission_inv c a"
  using assms(1)
proof (induction rule: rtranclp_induct)
  case base
  then show ?case using assms(2,3)
    by (simp add: admission_inv_def no_connections_def NewBackend_state_def conn_count_def)
qed (auto intro: admission_step_inv)

section \<open>Properties\<close>

text \<open>C16: Admission limits.  However connections are admitted and released concurrently, there are never
  more sessions than SMTP_MAX_CONNECTIONS and never more from one address than
  SMTP_MAX_CONNECTIONS_PER_IP, and nothing leaks: once every connection has gone, all tokens are back
  and no address has a connection counted.\<close>

theorem admission_limits:
  assumes "(admission_step c)\<^sup>*\<^sup>* no_connections a"
    and "0 \<le> c_SMTPMaxConnections c" and "0 \<le> c_SMTPMaxConnectionsPerIP c"
  shows "int (size (active a)) \<le> c_SMTPMaxConnections c \<and>
    (\<forall>ip. int (count (active a) ip) \<le> c_SMTPMaxConnectionsPerIP c) \<and>
    (admitting a = {#} \<and> active a = {#} \<and> releasing a = {#} \<longrightarrow>
       connTokens (backend a) = 0 \<and> (\<forall>ip. conn_count (backend a) ip = 0))"
proof -
  have inv: "admission_inv c a" by (rule admission_reachable_inv [OF assms])
  have "int (count (active a) ip) \<le> c_SMTPMaxConnectionsPerIP c" for ip
  proof -
    have "int (count (active a) ip + count (releasing a) ip) \<le> c_SMTPMaxConnectionsPerIP c"
      using inv unfolding admission_inv_def by metis
    then show ?thesis by simp
  qed
  with inv show ?thesis by (simp add: admission_inv_def)
qed

text \<open>C35: Admission never blocks.  A connection that has put its token into the channel and gets the
  lock is always admitted or refused: the receive that returns its token to the channel finds one,
  so the lock is never held while waiting.\<close>

theorem admission_never_blocks:
  assumes "(admission_step c)\<^sup>*\<^sup>* no_connections a"
    and "0 \<le> c_SMTPMaxConnections c" and "0 \<le> c_SMTPMaxConnectionsPerIP c"
    and "ip \<in># admitting a"
  shows "\<exists>a'. admission_step c a a' \<and> admitting a' = admitting a - {#ip#} \<and>
    backend a' = fst (acquire_locked c allow ip (backend a))"
proof -
  have inv: "admission_inv c a" by (rule admission_reachable_inv [OF assms(1-3)])
  have "0 < size (admitting a)" using assms(4) by (metis gr0I size_eq_0_iff_empty empty_iff set_mset_empty)
  with inv have tok: "0 < connTokens (backend a)" by (simp add: admission_inv_def)
  obtain b' ok where r: "acquire_locked c allow ip (backend a) = (b', ok)" by fastforce
  show ?thesis
  proof (cases ok)
    case True
    with r admission_step.admit [OF assms(4), of c allow b'] show ?thesis by fastforce
  next
    case False
    with r admission_step.refuse [OF assms(4) _ tok, of c allow b'] show ?thesis by fastforce
  qed
qed

lemma release_run:
  assumes "ip \<in># active a"
  shows "\<exists>a'. (admission_step c)\<^sup>*\<^sup>* a a' \<and> backend a' = release ip (backend a) \<and>
    active a' = active a - {#ip#} \<and> admitting a' = admitting a \<and> releasing a' = releasing a"
proof -
  let ?a = "a\<lparr>backend := release_token (backend a), active := active a - {#ip#},
      releasing := add_mset ip (releasing a)\<rparr>"
  let ?a' = "?a\<lparr>backend := release_locked ip (backend ?a), releasing := releasing ?a - {#ip#}\<rparr>"
  have "admission_step c a ?a" by (rule admission_step.give_token [OF assms])
  moreover have "admission_step c ?a ?a'" by (rule admission_step.give_slot) simp
  ultimately have "(admission_step c)\<^sup>*\<^sup>* a ?a'" by (meson rtranclp.rtrancl_into_rtrancl rtranclp.rtrancl_refl)
  moreover have "backend ?a' = release ip (backend a)" by (simp add: release_def)
  ultimately show ?thesis by (intro exI [of _ ?a']) simp
qed

text \<open>C36: The functions acquire and release, run without interruption, are runs of the transition
  system: acquire ends with one session more or as it began, release, called for an active session,
  with that session gone; and a session that ends gives back exactly what its admission took.\<close>

theorem acquire_then_release:
  assumes "acquire c allow ip (backend a) = (b', ok)"
    and "0 \<le> conn_count (backend a) ip"
  shows "(\<exists>a'. (admission_step c)\<^sup>*\<^sup>* a a' \<and> backend a' = b' \<and>
      active a' = (if ok then add_mset ip (active a) else active a) \<and> admitting a' = admitting a \<and>
      releasing a' = releasing a) \<and>
    (\<forall>x. ip \<in># active x \<longrightarrow> (\<exists>x'. (admission_step c)\<^sup>*\<^sup>* x x' \<and> backend x' = release ip (backend x) \<and>
      active x' = active x - {#ip#} \<and> admitting x' = admitting x \<and> releasing x' = releasing x)) \<and>
    (ok \<longrightarrow> connTokens (release ip b') = connTokens (backend a) \<and>
       conn_count (release ip b') = conn_count (backend a)) \<and>
    (\<not> ok \<longrightarrow> connTokens b' = connTokens (backend a) \<and> conn_count b' = conn_count (backend a))"
proof (cases "int (connTokens (backend a)) \<ge> c_SMTPMaxConnections c")
  case True
  then have "b' = backend a" "\<not> ok" using assms(1) by (simp_all add: acquire_def)
  then show ?thesis using release_run by auto
next
  case False
  let ?b = "(backend a)\<lparr>connTokens := Suc (connTokens (backend a))\<rparr>"
  let ?a = "a\<lparr>backend := ?b, admitting := add_mset ip (admitting a)\<rparr>"
  have run: "acquire_locked c allow ip ?b = (b', ok)" using False assms(1) by (simp add: acquire_def)
  note f = acquire_locked_frame [OF run]
  have first: "admission_step c a ?a" by (rule admission_step.take_token) (use False in simp)
  have mem: "ip \<in># admitting ?a" by simp
  obtain a' where a': "admission_step c ?a a'" "backend a' = b'"
      "active a' = (if ok then add_mset ip (active a) else active a)" "admitting a' = admitting a"
      "releasing a' = releasing a"
  proof (cases ok)
    case True
    with run admission_step.admit [OF mem, of c allow b'] show ?thesis
      by (intro that [of "a\<lparr>backend := b', active := add_mset ip (active a)\<rparr>"]) simp_all
  next
    case False
    with run admission_step.refuse [OF mem, of c allow b'] show ?thesis
      by (intro that [of "a\<lparr>backend := b'\<rparr>"]) simp_all
  qed
  have "(admission_step c)\<^sup>*\<^sup>* a a'"
    using converse_rtranclp_into_rtranclp [of "admission_step c" a ?a a'] first a'(1) by blast
  with a' have "\<exists>a'. (admission_step c)\<^sup>*\<^sup>* a a' \<and> backend a' = b' \<and>
      active a' = (if ok then add_mset ip (active a) else active a) \<and> admitting a' = admitting a \<and> releasing a' = releasing a"
    by blast
  moreover have "connTokens (release ip b') = connTokens (backend a) \<and>
      conn_count (release ip b') = conn_count (backend a)" if ok
    using that f assms(2) release_frame(2) [of b']
    by (auto simp: release_def release_frame fun_eq_iff)
  moreover have "connTokens b' = connTokens (backend a) \<and> conn_count b' = conn_count (backend a)" if "\<not> ok"
    using that f by (auto simp: fun_eq_iff)
  ultimately show ?thesis using release_run [of ip _ c] by blast
qed

lemma take_takeWhile_prefix: "x \<notin> set ys \<Longrightarrow> length (takeWhile (\<lambda>c. c \<noteq> x) (ys @ x # zs)) = length ys"
  by (simp add: takeWhile_prefix_elem)

text \<open>The address a connection is counted under has no port: the remote address of a TCP
  connection, a host and a port joined by a colon with an IPv6 host in brackets, gives the host.\<close>

lemma remote_ip_drops_port:
  assumes "set host \<inter> {CHR ''['', CHR '']''} = {}" and "set port \<inter> {CHR '':'', CHR ''['', CHR '']''} = {}"
  shows "remoteIP (Some (if CHR '':'' \<in> set host then ''['' @ host @ '']:'' @ port else host @ '':'' @ port)) = host"
proof (cases "CHR '':'' \<in> set host")
  case True
  let ?s = "CHR ''['' # host @ [CHR '']'', CHR '':''] @ port"
  have "after_last CHR '':'' ((CHR ''['' # host @ [CHR '']'']) @ CHR '':'' # port) = Some port"
    by (rule after_last_append) (use assms(2) in auto)
  then have port: "after_last CHR '':'' ?s = Some port" by simp
  have "length (takeWhile (\<lambda>c. c \<noteq> CHR '']'') ((CHR ''['' # host) @ CHR '']'' # CHR '':'' # port)) =
      length (CHR ''['' # host)"
    by (rule take_takeWhile_prefix) (use assms(1) in auto)
  then have "split_host ?s = Some host"
    using assms unfolding split_host_def port by (auto simp: Let_def)
  with True show ?thesis by (simp add: remoteIP_def)
next
  case False
  let ?s = "host @ CHR '':'' # port"
  have port: "after_last CHR '':'' ?s = Some port" by (rule after_last_append) (use assms(2) in auto)
  have "?s ! 0 \<noteq> CHR ''[''" using assms(1) by (cases host) auto
  then have "split_host ?s = Some host"
    using assms False unfolding split_host_def port by (auto simp: Let_def)
  with False show ?thesis by (simp add: remoteIP_def)
qed

section \<open>A concrete admission\<close>

definition sample_admitting :: admission where
  "sample_admitting =
     \<lparr>backend = NewBackend_state\<lparr>connTokens := 1\<rparr>, admitting = {#''10.0.0.1''#}, active = {#}, releasing = {#}\<rparr>"

lemma sample_admitting_reachable: "(admission_step default_config)\<^sup>*\<^sup>* no_connections sample_admitting"
proof -
  have "int (connTokens (backend no_connections)) < c_SMTPMaxConnections default_config" by code_simp
  from admission_step.take_token [OF this, of "''10.0.0.1''"] show ?thesis
    by (auto simp: no_connections_def sample_admitting_def NewBackend_state_def intro: r_into_rtranclp)
qed

lemma sample_limits:
  "0 \<le> c_SMTPMaxConnections default_config" "0 \<le> c_SMTPMaxConnectionsPerIP default_config"
  by code_simp+

theorem admission_limits_witness:
  "int (size (active sample_admitting)) \<le> c_SMTPMaxConnections default_config \<and>
   connTokens (backend sample_admitting) = 1"
  using admission_limits [OF sample_admitting_reachable sample_limits]
  by (simp add: sample_admitting_def)

theorem admission_never_blocks_witness:
  "\<exists>a'. admission_step default_config sample_admitting a' \<and> admitting a' = {#}"
  using admission_never_blocks [OF sample_admitting_reachable sample_limits, of "''10.0.0.1''"]
  by (auto simp: sample_admitting_def)

theorem acquire_then_release_witness:
  "\<exists>b' x x'. acquire default_config True ''10.0.0.1'' (backend no_connections) = (b', True) \<and>
     connTokens (release ''10.0.0.1'' b') = 0 \<and>
     (admission_step default_config)\<^sup>*\<^sup>* no_connections x \<and> backend x = b' \<and> active x = {#''10.0.0.1''#} \<and>
     (admission_step default_config)\<^sup>*\<^sup>* x x' \<and> backend x' = release ''10.0.0.1'' b' \<and> active x' = {#}"
proof -
  obtain b' ok where run: "acquire default_config True ''10.0.0.1'' (backend no_connections) = (b', ok)"
    by fastforce
  have "snd (acquire default_config True ''10.0.0.1'' (backend no_connections))" by code_simp
  with run have ok: ok by simp
  have "0 \<le> conn_count (backend no_connections) ''10.0.0.1''" by code_simp
  note both = acquire_then_release [OF run this]
  obtain x where x: "(admission_step default_config)\<^sup>*\<^sup>* no_connections x" "backend x = b'"
      "active x = {#''10.0.0.1''#}"
    using both ok by (auto simp: no_connections_def)
  have "''10.0.0.1'' \<in># active x" by (simp add: x(3))
  with both [THEN conjunct2, THEN conjunct1]
  obtain x' where "(admission_step default_config)\<^sup>*\<^sup>* x x'" "backend x' = release ''10.0.0.1'' b'"
      "active x' = {#}"
    unfolding x(2) [symmetric] by (metis x(3) add_mset_diff_bothsides diff_empty)
  moreover have "connTokens (backend no_connections) = 0" by code_simp
  moreover have "connTokens (release ''10.0.0.1'' b') = connTokens (backend no_connections)" using both ok by blast
  ultimately show ?thesis using run ok x by auto
qed

end
