(* ===== verification/Base64.thy ===== *)
theory Base64
  imports Relay_Prelude
begin

text \<open>
  \<^verbatim>\<open>encoding/base64\<close> as \<^verbatim>\<open>mimeparse/transformer.go\<close> uses it: the standard encoding of attachments, and the
  streaming decoder with and without padding.  The decoder works on the chunks its reads return;
  their sizes are a parameter, since padding is only accepted at the end of a chunk.
\<close>

section \<open>The alphabet\<close>

definition b64_char :: "nat \<Rightarrow> char" where
  "b64_char v =
     (if v < 26 then char_of (65 + v)
      else if v < 52 then char_of (71 + v)
      else if v < 62 then char_of (v - 4)
      else if v = 62 then CHR ''+'' else CHR ''/'')"

definition b64_value :: "char \<Rightarrow> nat option" where
  "b64_value c =
     (let n = (of_char c :: nat)
      in if 65 \<le> n \<and> n \<le> 90 then Some (n - 65)
         else if 97 \<le> n \<and> n \<le> 122 then Some (n - 71)
         else if 48 \<le> n \<and> n \<le> 57 then Some (n + 4)
         else if c = CHR ''+'' then Some 62
         else if c = CHR ''/'' then Some 63
         else None)"

lemma b64_char_code:
  "v < 64 \<Longrightarrow> (of_char (b64_char v) :: nat) =
     (if v < 26 then 65 + v else if v < 52 then 71 + v else if v < 62 then v - 4
      else if v = 62 then 43 else 47)"
  by (auto simp: b64_char_def)

lemma b64_value_char [simp]: "v < 64 \<Longrightarrow> b64_value (b64_char v) = Some v"
proof -
  assume v: "v < 64"
  show ?thesis
  proof (cases "v < 62")
    case True
    with b64_char_code [OF v] show ?thesis by (auto simp: b64_value_def Let_def split: if_splits)
  next
    case False
    with v have "v = 62 \<or> v = 63" by linarith
    then show ?thesis by (auto simp: b64_char_def b64_value_def)
  qed
qed

lemma b64_char_plain: "v < 64 \<Longrightarrow> b64_char v \<notin> {CHR ''='', CHR 0x0D, CHR 0x0A, CHR 0x09, CHR '' ''}"
  using b64_value_char [of v] by (auto simp: b64_value_def)

section \<open>Encoding\<close>

definition b64_word :: "char \<Rightarrow> char \<Rightarrow> char \<Rightarrow> nat" where
  "b64_word a b c = of_char a * 65536 + of_char b * 256 + of_char c"

definition b64_digit :: "nat \<Rightarrow> nat \<Rightarrow> nat" where
  "b64_digit n i = n div 64 ^ (3 - i) mod 64"

fun EncodeToString :: "string \<Rightarrow> string" where
  "EncodeToString (a # b # c # s) =
     map (\<lambda>i. b64_char (b64_digit (b64_word a b c) i)) [0, 1, 2, 3] @ EncodeToString s"
| "EncodeToString [a, b] =
     map (\<lambda>i. b64_char (b64_digit (b64_word a b (char_of (0 :: nat))) i)) [0, 1, 2] @ ''=''"
| "EncodeToString [a] =
     map (\<lambda>i. b64_char (b64_digit (b64_word a (char_of (0 :: nat)) (char_of (0 :: nat))) i)) [0, 1] @ ''==''"
| "EncodeToString [] = []"

section \<open>Decoding\<close>

definition b64_bytes :: "nat \<Rightarrow> nat \<Rightarrow> nat \<Rightarrow> nat \<Rightarrow> string" where
  "b64_bytes v w x y =
     (let n = ((v * 64 + w) * 64 + x) * 64 + y
      in [char_of (n div 65536), char_of (n div 256), char_of n])"

text \<open>One \<^verbatim>\<open>Decode\<close> call; \<open>padded\<close> distinguishes \<^verbatim>\<open>StdEncoding\<close> from \<^verbatim>\<open>RawStdEncoding\<close>.\<close>

fun b64_decode :: "bool \<Rightarrow> string \<Rightarrow> string option" where
  "b64_decode padded [] = Some []"
| "b64_decode padded (a # b # c # d # s) =
     (case (b64_value a, b64_value b, b64_value c, b64_value d) of
        (Some v, Some w, Some x, Some y) \<Rightarrow>
          map_option (\<lambda>t. b64_bytes v w x y @ t) (b64_decode padded s)
      | (Some v, Some w, Some x, None) \<Rightarrow>
          if padded \<and> d = CHR ''='' \<and> s = [] then Some (take 2 (b64_bytes v w x 0)) else None
      | (Some v, Some w, None, None) \<Rightarrow>
          if padded \<and> c = CHR ''='' \<and> d = CHR ''='' \<and> s = [] then Some (take 1 (b64_bytes v w 0 0))
          else None
      | _ \<Rightarrow> None)"
| "b64_decode padded [a, b, c] =
     (case (b64_value a, b64_value b, b64_value c) of
        (Some v, Some w, Some x) \<Rightarrow> if padded then None else Some (take 2 (b64_bytes v w x 0))
      | _ \<Rightarrow> None)"
| "b64_decode padded [a, b] =
     (case (b64_value a, b64_value b) of
        (Some v, Some w) \<Rightarrow> if padded then None else Some (take 1 (b64_bytes v w 0 0))
      | _ \<Rightarrow> None)"
| "b64_decode padded [a] = None"

text \<open>
  \<^verbatim>\<open>io.ReadAll\<close> of \<^verbatim>\<open>base64.NewDecoder\<close>, after the line breaks were filtered out: read number \<open>i\<close> decodes
  \<open>quanta i\<close> groups of four characters (at least one, at most what is there); a rest of fewer than
  four is an error with padding and a last fragment without.
\<close>

function b64_stream :: "bool \<Rightarrow> (nat \<Rightarrow> nat) \<Rightarrow> nat \<Rightarrow> string \<Rightarrow> string option" where
  "b64_stream padded quanta i s =
     (if length s < 4
      then (if s = [] then Some [] else if padded then None else b64_decode False s)
      else let k = 4 * min (max 1 (quanta i)) (length s div 4)
           in case b64_decode padded (take k s) of
                None \<Rightarrow> None
              | Some t \<Rightarrow> map_option (\<lambda>u. t @ u) (b64_stream padded quanta (Suc i) (drop k s)))"
  by pat_completeness auto
termination
proof (relation "measure (\<lambda>(p, q, i, s). length s)", simp, goal_cases)
  case (1 padded quanta i s k t)
  then have "0 < k" by (auto simp: min_def max_def)
  then show ?case using 1 by (auto simp: min_def)
qed

declare b64_stream.simps [simp del]

definition NewDecoder_ReadAll :: "bool \<Rightarrow> (nat \<Rightarrow> nat) \<Rightarrow> string \<Rightarrow> string option" where
  "NewDecoder_ReadAll padded quanta s =
     b64_stream padded quanta 0 (filter (\<lambda>c. c \<noteq> CHR 0x0D \<and> c \<noteq> CHR 0x0A) s)"

section \<open>Round trip\<close>

lemma b64_digit_less [simp]: "b64_digit n i < 64"
  by (simp add: b64_digit_def)

lemma b64_digits_join:
  assumes "n < 16777216"
  shows "((b64_digit n 0 * 64 + b64_digit n 1) * 64 + b64_digit n 2) * 64 + b64_digit n 3 = n"
proof -
  have a: "n div 4096 = n div 64 div 64" "n div 262144 = n div 64 div 64 div 64"
    by (simp_all flip: div_mult2_eq)
  have b: "n div 64 div 64 div 64 mod 64 = n div 64 div 64 div 64" using assms by simp
  have "((n div 262144 mod 64 * 64 + n div 4096 mod 64) * 64 + n div 64 mod 64) * 64 + n mod 64 = n"
    unfolding a b by (simp only: div_mult_mod_eq)
  moreover have "64 ^ (3 - 0) = (262144 :: nat)" "64 ^ (3 - 1) = (4096 :: nat)"
      "64 ^ (3 - 2) = (64 :: nat)" "64 ^ (3 - 3) = (1 :: nat)"
    by simp_all
  ultimately show ?thesis unfolding b64_digit_def by (simp only: div_by_1)
qed

lemma b64_word_bytes:
  "[char_of (b64_word a b c div 65536), char_of (b64_word a b c div 256), char_of (b64_word a b c)] = [a, b, c]"
proof -
  define x y z :: nat where xyz: "x = of_char a" "y = of_char b" "z = of_char c"
  have less: "x < 256" "y < 256" "z < 256" unfolding xyz by (rule nat_of_char_less_256)+
  let ?n = "x * 65536 + y * 256 + z"
  have n: "b64_word a b c = ?n" by (simp add: b64_word_def xyz)
  have q: "?n div 256 = x * 256 + y" using less by simp
  have "?n div 65536 = ?n div 256 div 256" by (simp flip: div_mult2_eq)
  then have "?n div 65536 = x" using q less by simp
  moreover have "?n = z + (x * 256 + y) * 256" by simp
  then have "?n mod 256 = z" using less by (metis mod_less mod_mult_self1)
  moreover have "?n div 256 mod 256 = y" using q less by simp
  ultimately have "char_of (?n div 65536) = a" "char_of (?n div 256) = b" "char_of ?n = c"
    unfolding xyz by (metis char_of_char char_of_mod_256)+
  then show ?thesis by (simp add: n)
qed

lemma b64_word_less: "b64_word a b c < 16777216"
proof -
  have "of_char a < (256 :: nat)" "of_char b < (256 :: nat)" "of_char c < (256 :: nat)"
    by (rule nat_of_char_less_256)+
  then show ?thesis unfolding b64_word_def by linarith
qed

lemma b64_bytes_digits:
  "b64_bytes (b64_digit (b64_word a b c) 0) (b64_digit (b64_word a b c) 1)
     (b64_digit (b64_word a b c) 2) (b64_digit (b64_word a b c) 3) = [a, b, c]"
  unfolding b64_bytes_def Let_def b64_digits_join [OF b64_word_less] by (rule b64_word_bytes)

lemma b64_zero_digits:
  "b64_digit (b64_word a b (char_of (0 :: nat))) 3 = 0"
  "b64_digit (b64_word a (char_of (0 :: nat)) (char_of (0 :: nat))) 2 = 0"
proof -
  have "(x * 65536 + y * 256) mod 64 = 0" for x y :: nat
  proof -
    have "x * 65536 + y * 256 = (x * 1024 + y * 4) * 64" by simp
    then show ?thesis by (metis mod_mult_self2_is_0)
  qed
  then show "b64_digit (b64_word a b (char_of (0 :: nat))) 3 = 0"
    by (simp add: b64_digit_def b64_word_def)
  have "x * 65536 div 64 mod 64 = (0 :: nat)" for x by simp
  then show "b64_digit (b64_word a (char_of (0 :: nat)) (char_of (0 :: nat))) 2 = 0"
    by (simp add: b64_digit_def b64_word_def)
qed

lemma b64_value_pad [simp]: "b64_value CHR ''='' = None"
  by code_simp

lemma b64_decode_encode: "b64_decode True (EncodeToString s) = Some s"
proof (induction s rule: EncodeToString.induct)
  case (2 a b)
  have "b64_bytes (b64_digit (b64_word a b (char_of (0 :: nat))) 0) (b64_digit (b64_word a b (char_of (0 :: nat))) 1)
      (b64_digit (b64_word a b (char_of (0 :: nat))) 2) 0 = [a, b, char_of (0 :: nat)]"
    using b64_bytes_digits [of a b "char_of (0 :: nat)"] by (simp only: b64_zero_digits(1))
  then show ?case by (simp only: EncodeToString.simps list.map append.simps b64_decode.simps
      b64_value_char [OF b64_digit_less] b64_value_pad prod.case option.case) simp
next
  case (3 a)
  let ?z = "char_of (0 :: nat)"
  have "b64_bytes (b64_digit (b64_word a ?z ?z) 0) (b64_digit (b64_word a ?z ?z) 1) 0 0 = [a, ?z, ?z]"
    using b64_bytes_digits [of a ?z ?z] by (simp only: b64_zero_digits)
  then show ?case by (simp only: EncodeToString.simps list.map append.simps b64_decode.simps
      b64_value_char [OF b64_digit_less] b64_value_pad prod.case option.case) simp
next
  case (1 a b c s)
  then show ?case by (simp only: EncodeToString.simps list.map append.simps b64_decode.simps
      b64_value_char [OF b64_digit_less] prod.case option.case b64_bytes_digits) simp
qed simp

lemma EncodeToString_take_drop:
  "EncodeToString (take (3 * q) s) = take (4 * q) (EncodeToString s) \<and>
   EncodeToString (drop (3 * q) s) = drop (4 * q) (EncodeToString s)"
proof (induction q arbitrary: s)
  case (Suc q)
  have m: "3 * Suc q = Suc (Suc (Suc (3 * q)))" "4 * Suc q = Suc (Suc (Suc (Suc (4 * q))))" by simp_all
  show ?case unfolding m by (cases s rule: EncodeToString.cases) (simp_all add: Suc)
qed simp

lemma EncodeToString_length: "length (EncodeToString s) = 4 * ((length s + 2) div 3)"
proof (induction s rule: EncodeToString.induct)
  case (1 a b c s)
  have "(length (a # b # c # s) + 2) div 3 = Suc ((length s + 2) div 3)" by simp
  with 1 show ?case by (simp del: length_Cons add: length_Cons)
qed simp_all

text \<open>Decoding what was encoded gives it back, whatever chunks the decoder reads.\<close>

lemma b64_stream_encode: "b64_stream True quanta i (EncodeToString s) = Some s"
proof (induction "length s" arbitrary: s i rule: less_induct)
  case less
  show ?case
  proof (cases "s = []")
    case True
    then show ?thesis by (simp add: b64_stream.simps)
  next
    case False
    let ?e = "EncodeToString s"
    define q where "q = min (max 1 (quanta i)) (length ?e div 4)"
    have big: "\<not> length ?e < 4" and q: "1 \<le> q"
      using False by (cases s; simp add: EncodeToString_length q_def)+
    have "b64_stream True quanta (Suc i) (EncodeToString (drop (3 * q) s)) = Some (drop (3 * q) s)"
      by (rule less) (use False q in simp)
    moreover have "b64_decode True (EncodeToString (take (3 * q) s)) = Some (take (3 * q) s)"
      by (rule b64_decode_encode)
    ultimately show ?thesis
      using big EncodeToString_take_drop [of q s]
      by (simp add: b64_stream.simps [of _ _ _ ?e] Let_def q_def [symmetric, unfolded One_nat_def])
  qed
qed

lemma NewDecoder_encode:
  "filter (\<lambda>c. c \<noteq> CHR 0x0D \<and> c \<noteq> CHR 0x0A) t = EncodeToString s \<Longrightarrow>
     NewDecoder_ReadAll True quanta t = Some s"
  by (simp add: NewDecoder_ReadAll_def b64_stream_encode)

section \<open>Sizes\<close>

lemma b64_decode_length: "b64_decode p s = Some t \<Longrightarrow> length t \<le> length s"
proof (induction p s arbitrary: t rule: b64_decode.induct)
  case (2 p a b c d s)
  then show ?case by (fastforce simp: b64_bytes_def Let_def split: option.splits if_splits)
qed (auto simp: b64_bytes_def Let_def split: option.splits if_splits)

lemma b64_stream_length: "b64_stream p quanta i s = Some t \<Longrightarrow> length t \<le> length s"
proof (induction p quanta i s arbitrary: t rule: b64_stream.induct)
  case (1 p quanta i s)
  show ?case
  proof (cases "length s < 4")
    case True
    with 1(2) show ?thesis
      by (auto simp: b64_stream.simps [of _ _ _ s] dest: b64_decode_length split: if_splits)
  next
    case False
    define k where "k = 4 * min (max 1 (quanta i)) (length s div 4)"
    have eq: "b64_stream p quanta i s = (case b64_decode p (take k s) of None \<Rightarrow> None
        | Some t \<Rightarrow> map_option (\<lambda>u. t @ u) (b64_stream p quanta (Suc i) (drop k s)))"
      using False unfolding k_def by (subst b64_stream.simps) (simp only: Let_def if_False)
    obtain u v where uv: "b64_decode p (take k s) = Some u"
        "b64_stream p quanta (Suc i) (drop k s) = Some v" "t = u @ v"
      using 1(2) unfolding eq by (auto split: option.splits)
    have "length v \<le> length (drop k s)" using 1(1) [OF False k_def uv(1,2)] .
    moreover have "length u \<le> length (take k s)" by (rule b64_decode_length [OF uv(1)])
    moreover have "length s = length (take k s) + length (drop k s)"
      by (metis append_take_drop_id length_append)
    moreover have "length t = length u + length v" using uv(3) by simp
    ultimately show ?thesis by linarith
  qed
qed

lemma NewDecoder_length: "NewDecoder_ReadAll p quanta s = Some t \<Longrightarrow> length t \<le> length s"
  unfolding NewDecoder_ReadAll_def
  by (drule b64_stream_length) (rule order_trans, assumption, rule length_filter_le)

end
