(* ===== verification/Mime_Transform.thy ===== *)
theory Mime_Transform
  imports Base64 Relay_Types
begin

text \<open>
  The transformer (\<^verbatim>\<open>mimeparse/transformer.go\<close>): an RFC 822 message and its envelope become one
  MailerSend message per recipient.  The parsers of the Go library it calls (\<^verbatim>\<open>net/mail\<close>, \<^verbatim>\<open>mime\<close>,
  \<^verbatim>\<open>mime/multipart\<close>, \<^verbatim>\<open>mime/quotedprintable\<close>, the Unicode case tables) are fields of \<open>mime_externals\<close>; base64 is
  modelled in theory Base64.
\<close>

section \<open>Headers\<close>

text \<open>A header maps canonical field names to their values.\<close>

type_synonym mime_header = "(string \<times> string list) list"

definition is_token_byte :: "char \<Rightarrow> bool" where
  "is_token_byte c \<longleftrightarrow>
     (let n = (of_char c :: nat)
      in 48 \<le> n \<and> n \<le> 57 \<or> 65 \<le> n \<and> n \<le> 90 \<or> 97 \<le> n \<and> n \<le> 122 \<or>
         n \<in> {33, 35, 36, 37, 38, 39, 42, 43, 45, 46, 94, 95, 96, 124, 126})"

fun canonical_from :: "bool \<Rightarrow> string \<Rightarrow> string" where
  "canonical_from up [] = []"
| "canonical_from up (c # s) =
     (if up then ascii_upper c else ascii_lower c) # canonical_from (c = CHR ''-'') s"

definition CanonicalMIMEHeaderKey :: "string \<Rightarrow> string" where
  "CanonicalMIMEHeaderKey s = (if list_all is_token_byte s then canonical_from True s else s)"

definition header_Get :: "mime_header \<Rightarrow> string \<Rightarrow> string" where
  "header_Get h key =
     (case map_of h (CanonicalMIMEHeaderKey key) of Some (v # vs) \<Rightarrow> v | _ \<Rightarrow> [])"

section \<open>The library the transformer calls\<close>

text \<open>\<^verbatim>\<open>mime.ParseMediaType\<close> returns a type and parameters also when it returns an error.\<close>

record media_type =
  mt_type :: string
  mt_params :: "(string \<times> string) list"
  mt_error :: "string option"

text \<open>
  \<open>multipart_parts\<close> is what reading a body with a boundary part by part gives: the parts with their
  bytes, and the error that ended the sequence, \<open>None\<close> for the end of the body.  \<open>header_order\<close> is the
  order in which a range over a header map visits its keys.
\<close>

record mime_externals =
  read_message :: "string \<Rightarrow> string + mime_header \<times> reader"
  parse_address :: "string \<Rightarrow> string + party"
  parse_media_type :: "string \<Rightarrow> media_type"
  multipart_parts :: "string \<Rightarrow> string \<Rightarrow> (mime_header \<times> reader) list \<times> string option"
  quoted_printable :: "string \<Rightarrow> string + string"
  base64_quanta :: "nat \<Rightarrow> nat"
  fold_lower :: "string \<Rightarrow> string"
  fold_equal :: "string \<Rightarrow> string \<Rightarrow> bool"
  header_order :: "mime_header \<Rightarrow> mime_header"

definition ranged :: "mime_externals \<Rightarrow> mime_header \<Rightarrow> mime_header" where
  "ranged X h = (if mset (header_order X h) = mset h then header_order X h else h)"

fun read_all :: "reader \<Rightarrow> string + string" where
  "read_all (content, None) = Inr content"
| "read_all (content, Some e) = Inl e"

definition param :: "(string \<times> string) list \<Rightarrow> string \<Rightarrow> string" where
  "param ps key = (case map_of ps key of None \<Rightarrow> [] | Some v \<Rightarrow> v)"

section \<open>Content\<close>

record parsedContent =
  pc_Text :: string
  pc_HTML :: string
  pc_Attachments :: "attachment list"

definition empty_content :: parsedContent where
  "empty_content = \<lparr>pc_Text = [], pc_HTML = [], pc_Attachments = []\<rparr>"

datatype content_error =
    DecodeTransferEncoding string | MissingBoundary | PartError string | OutOfFuel

definition append_text :: "string \<Rightarrow> string \<Rightarrow> string" where
  "append_text dst src =
     (if dst = [] then src
      else if src \<noteq> [] \<and> src \<noteq> dst then dst @ [CHR 0x0A] @ src else dst)"

definition appendParsed :: "parsedContent \<Rightarrow> parsedContent \<Rightarrow> parsedContent" where
  "appendParsed dst src =
     \<lparr>pc_Text = append_text (pc_Text dst) (pc_Text src),
      pc_HTML = append_text (pc_HTML dst) (pc_HTML src),
      pc_Attachments =
        (if length (pc_Attachments src) > 0 then pc_Attachments dst @ pc_Attachments src
         else pc_Attachments dst)\<rparr>"

definition buildAttachment :: "mime_header \<Rightarrow> string \<Rightarrow> string \<Rightarrow> string \<Rightarrow> attachment" where
  "buildAttachment header body filename disposition =
     (let filename = (if filename = [] then ''attachment.bin'' else filename);
          disposition = (if disposition = [] then ''attachment'' else disposition);
          contentID = TrimSpace (header_Get header ''Content-ID'');
          contentID = TrimPrefix contentID ''<'';
          contentID = TrimSuffix contentID ''>''
      in \<lparr>att_content = EncodeToString body, att_filename = filename,
          att_disposition = disposition, att_id = contentID\<rparr>)"

definition detectFilename :: "mime_externals \<Rightarrow> mime_header \<Rightarrow> (string \<times> string) list \<Rightarrow> string" where
  "detectFilename X header dispParams =
     (let fn = TrimSpace (param dispParams ''filename'')
      in if fn \<noteq> [] then fn
         else TrimSpace (param (mt_params (parse_media_type X (header_Get header ''Content-Type''))) ''name''))"

definition compactBase64 :: "string \<Rightarrow> string" where
  "compactBase64 b = filter (\<lambda>c. c \<notin> {CHR 0x0D, CHR 0x0A, CHR 0x09, CHR '' ''}) b"

definition decodeTransferEncoding :: "mime_externals \<Rightarrow> mime_header \<Rightarrow> string \<Rightarrow> string + string" where
  "decodeTransferEncoding X header body =
     (let enc = ToLower (fold_lower X) (TrimSpace (header_Get header ''Content-Transfer-Encoding''))
      in if enc \<in> {[], ''7bit'', ''8bit'', ''binary''} then Inr body
         else if enc = ''quoted-printable'' then quoted_printable X body
         else if enc = ''base64''
         then (case NewDecoder_ReadAll True (base64_quanta X) body of
                 Some decoded \<Rightarrow> Inr decoded
               | None \<Rightarrow>
                   (case NewDecoder_ReadAll False (base64_quanta X) (compactBase64 body) of
                      Some decoded \<Rightarrow> Inr decoded
                    | None \<Rightarrow> Inl ''base64 decode failed''))
         else Inr body)"

text \<open>The part of \<^verbatim>\<open>parseContent\<close> for a body that is not multipart.\<close>

definition leaf_content :: "mime_externals \<Rightarrow> mime_header \<Rightarrow> string \<Rightarrow> string \<Rightarrow> parsedContent" where
  "leaf_content X header mediaType body =
     (let disp = parse_media_type X (header_Get header ''Content-Disposition'');
          disposition = mt_type disp;
          filename = detectFilename X header (mt_params disp)
      in if filename \<noteq> [] \<or> EqualFold (fold_equal X) disposition ''attachment''
         then empty_content\<lparr>pc_Attachments := [buildAttachment header body filename disposition]\<rparr>
         else if mediaType = ''text/plain'' then empty_content\<lparr>pc_Text := TrimSpace body\<rparr>
         else if mediaType = ''text/html'' then empty_content\<lparr>pc_HTML := TrimSpace body\<rparr>
         else if filename \<noteq> []
         then empty_content\<lparr>pc_Attachments := [buildAttachment header body filename disposition]\<rparr>
         else empty_content)"

primrec parse_parts :: "(mime_header \<Rightarrow> string \<Rightarrow> content_error + parsedContent) \<Rightarrow> string option \<Rightarrow>
    (mime_header \<times> reader) list \<Rightarrow> parsedContent \<Rightarrow> content_error + parsedContent" where
  "parse_parts parse last_error [] out =
     (case last_error of None \<Rightarrow> Inr out | Some e \<Rightarrow> Inl (PartError e))"
| "parse_parts parse last_error (p # ps) out =
     (case read_all (snd p) of
        Inl e \<Rightarrow> Inl (PartError e)
      | Inr partBytes \<Rightarrow>
          (case parse (fst p) partBytes of
             Inl e \<Rightarrow> Inl e
           | Inr partContent \<Rightarrow> parse_parts parse last_error ps (appendParsed out partContent)))"

definition content_media_type :: "mime_externals \<Rightarrow> mime_header \<Rightarrow> string \<times> (string \<times> string) list" where
  "content_media_type X header =
     (let contentType = header_Get header ''Content-Type'';
          contentType = (if TrimSpace contentType = [] then ''text/plain; charset=utf-8'' else contentType);
          mt = parse_media_type X contentType
      in (ToLower (fold_lower X) (case mt_error mt of None \<Rightarrow> mt_type mt | Some _ \<Rightarrow> ''text/plain''),
          mt_params mt))"

text \<open>The recursion is bounded by fuel; running out of it is an error of its own.\<close>

fun parseContent :: "mime_externals \<Rightarrow> nat \<Rightarrow> mime_header \<Rightarrow> string \<Rightarrow> content_error + parsedContent" where
  "parseContent X 0 header body = Inl OutOfFuel"
| "parseContent X (Suc fuel) header body =
     (case decodeTransferEncoding X header body of
        Inl e \<Rightarrow> Inl (DecodeTransferEncoding e)
      | Inr body \<Rightarrow>
          (case content_media_type X header of
             (mediaType, params) \<Rightarrow>
               if HasPrefix mediaType ''multipart/''
               then (let boundary = param params ''boundary''
                     in if boundary = [] then Inl MissingBoundary
                        else case multipart_parts X body boundary of
                               (parts, last_error) \<Rightarrow>
                                 parse_parts (parseContent X fuel) last_error parts empty_content)
               else Inr (leaf_content X header mediaType body)))"

section \<open>Addresses, references, headers\<close>

definition selectFromAddress :: "mime_externals \<Rightarrow> string \<Rightarrow> string \<Rightarrow> string + party" where
  "selectFromAddress X envelopeFrom fromHeader =
     (case parse_address X envelopeFrom of
        Inl e \<Rightarrow> Inl (''invalid envelope sender: '' @ e)
      | Inr envAddr \<Rightarrow>
          if TrimSpace fromHeader = [] then Inr envAddr
          else (case parse_address X fromHeader of
                  Inl e \<Rightarrow> Inr envAddr
                | Inr hdrAddr \<Rightarrow>
                    if EqualFold (fold_equal X) (party_email hdrAddr) (party_email envAddr)
                    then Inr hdrAddr else Inr envAddr))"

definition parseOptionalAddress :: "mime_externals \<Rightarrow> string \<Rightarrow> party option" where
  "parseOptionalAddress X v =
     (if TrimSpace v = [] then None
      else case parse_address X v of Inl e \<Rightarrow> None | Inr addr \<Rightarrow> Some addr)"

definition parseReferences :: "string \<Rightarrow> string list" where
  "parseReferences v =
     (if TrimSpace v = [] then [] else filter (\<lambda>p. p \<noteq> []) (map TrimSpace (Fields v)))"

definition skipped_headers :: "string list" where
  "skipped_headers =
     [''from'', ''to'', ''cc'', ''bcc'', ''subject'', ''reply-to'', ''content-type'',
      ''content-transfer-encoding'', ''mime-version'', ''date'']"

definition collectHeaders :: "mime_externals \<Rightarrow> mime_header \<Rightarrow> header_field list" where
  "collectHeaders X h =
     concat (map (\<lambda>(k, vs). map (\<lambda>v. \<lparr>header_name = k, header_value = v\<rparr>) vs)
       (filter (\<lambda>(k, vs). ToLower (fold_lower X) k \<notin> set skipped_headers) (ranged X h)))"

text \<open>\<^verbatim>\<open>copyHeaders\<close>, \<^verbatim>\<open>copyAttachments\<close> and \<^verbatim>\<open>copyStrings\<close>: fresh slices with the same elements.\<close>

definition copy_slice :: "'a list \<Rightarrow> 'a list" where
  "copy_slice xs = (if length xs = 0 then [] else map (\<lambda>i. xs ! i) [0..<length xs])"

section \<open>Transform\<close>

datatype transform_error =
    MissingRecipients
  | ParseMessage string
  | InvalidSender string
  | ReadBody string
  | ParseContent content_error
  | InvalidRecipient string string

definition recipient_message :: "bool \<Rightarrow> party \<Rightarrow> party option \<Rightarrow> string \<Rightarrow> string \<Rightarrow> string list \<Rightarrow>
    header_field list \<Rightarrow> parsedContent \<Rightarrow> party \<Rightarrow> message" where
  "recipient_message includeCustomHeaders from_party replyTo subject inReplyTo references headers content addr =
     \<lparr>msg_from = from_party, msg_recipients = [addr], msg_subject = subject,
      msg_text = pc_Text content, msg_html = pc_HTML content, msg_references = copy_slice references,
      msg_headers = (if includeCustomHeaders \<and> length headers > 0 then copy_slice headers else []),
      msg_reply_to = (case replyTo of None \<Rightarrow> no_party | Some r \<Rightarrow> r),
      msg_in_reply_to = inReplyTo,
      msg_attachments =
        (if length (pc_Attachments content) > 0 then copy_slice (pc_Attachments content) else [])\<rparr>"

primrec recipient_messages :: "mime_externals \<Rightarrow> (party \<Rightarrow> message) \<Rightarrow> string list \<Rightarrow>
    transform_error + message option list" where
  "recipient_messages X build [] = Inr []"
| "recipient_messages X build (rcpt # rcpts) =
     (case parse_address X rcpt of
        Inl e \<Rightarrow> Inl (InvalidRecipient rcpt e)
      | Inr addr \<Rightarrow>
          (case recipient_messages X build rcpts of
             Inl e \<Rightarrow> Inl e
           | Inr out \<Rightarrow> Inr (Some (build addr) # out)))"

definition Transform :: "mime_externals \<Rightarrow> bool \<Rightarrow> string \<Rightarrow> string list \<Rightarrow> string \<Rightarrow>
    transform_error + message option list" where
  "Transform X includeCustomHeaders envelopeFrom recipients raw =
     (if length recipients = 0 then Inl MissingRecipients
      else case read_message X raw of
        Inl e \<Rightarrow> Inl (ParseMessage e)
      | Inr (header, body) \<Rightarrow>
      (case selectFromAddress X envelopeFrom (header_Get header ''From'') of
        Inl e \<Rightarrow> Inl (InvalidSender e)
      | Inr from_party \<Rightarrow>
      (let replyTo = parseOptionalAddress X (header_Get header ''Reply-To'');
           subject = header_Get header ''Subject'';
           inReplyTo = TrimSpace (header_Get header ''In-Reply-To'');
           references = parseReferences (header_Get header ''References'');
           headers = collectHeaders X header
       in case read_all body of
            Inl e \<Rightarrow> Inl (ReadBody e)
          | Inr bodyBytes \<Rightarrow>
              (case parseContent X (Suc (length bodyBytes)) header bodyBytes of
                 Inl e \<Rightarrow> Inl (ParseContent e)
               | Inr content \<Rightarrow>
                   recipient_messages X
                     (recipient_message includeCustomHeaders from_party replyTo subject inReplyTo
                        references headers content)
                     recipients))))"

end
