(* ===== verification/Mime_Correct.thy ===== *)
theory Mime_Correct
  imports Mime_Transform
begin

text \<open>
  Correctness of the transformer: one message per recipient, the sender address is the envelope's,
  attachments arrive unchanged, reserved headers are never forwarded, and the recursion over nested
  multiparts ends.
\<close>

section \<open>Termination\<close>

text \<open>
  What the recursion relies on: the bytes of a part are fewer than those of the multipart body it
  is cut from (a boundary line is gone), and quoted-printable decoding does not lengthen.
\<close>

definition library_shrinks :: "mime_externals \<Rightarrow> bool" where
  "library_shrinks X \<longleftrightarrow>
     (\<forall>body boundary h r. boundary \<noteq> [] \<and> (h, r) \<in> set (fst (multipart_parts X body boundary)) \<longrightarrow>
        length (fst r) < length body) \<and>
     (\<forall>b d. quoted_printable X b = Inr d \<longrightarrow> length d \<le> length b)"

lemma compactBase64_length: "length (compactBase64 b) \<le> length b"
  by (simp add: compactBase64_def)

lemma decodeTransferEncoding_length:
  assumes "library_shrinks X" and "decodeTransferEncoding X h body = Inr d"
  shows "length d \<le> length body"
proof -
  have "NewDecoder_ReadAll False q (compactBase64 body) = Some e \<Longrightarrow> length e \<le> length body" for q e
    using NewDecoder_length compactBase64_length order_trans by blast
  then show ?thesis
    using assms NewDecoder_length [of True _ body]
    by (auto simp: decodeTransferEncoding_def library_shrinks_def Let_def split: if_splits option.splits)
qed

lemma read_all_Inr: "read_all r = Inr b \<Longrightarrow> b = fst r"
  by (cases r rule: read_all.cases) auto

lemma parse_parts_cong:
  assumes "\<And>h r. (h, r) \<in> set parts \<Longrightarrow> f h (fst r) = g h (fst r)"
  shows "parse_parts f e parts out = parse_parts g e parts out"
  using assms
proof (induction parts arbitrary: out)
  case (Cons p ps)
  show ?case
  proof (cases "read_all (snd p)")
    case (Inr b)
    then have "f (fst p) b = g (fst p) b" using Cons.prems [of "fst p" "snd p"] read_all_Inr by fastforce
    moreover have "parse_parts f e ps o1 = parse_parts g e ps o1" for o1
      using Cons.prems by (intro Cons.IH) auto
    ultimately show ?thesis using Inr by (simp split: sum.split)
  qed simp
qed simp

lemma parse_parts_no_fuel_error:
  assumes "\<And>h r. (h, r) \<in> set parts \<Longrightarrow> f h (fst r) \<noteq> Inl OutOfFuel"
  shows "parse_parts f e parts out \<noteq> Inl OutOfFuel"
  using assms
proof (induction parts arbitrary: out)
  case (Cons p ps)
  have "parse_parts f e ps o1 \<noteq> Inl OutOfFuel" for o1
    using Cons.prems by (intro Cons.IH) auto
  moreover have "f (fst p) b \<noteq> Inl OutOfFuel" if "read_all (snd p) = Inr b" for b
    using Cons.prems [of "fst p" "snd p"] read_all_Inr [OF that] by simp
  ultimately show ?case by (auto split: sum.split)
qed (auto split: option.split)

lemma part_shorter:
  assumes "library_shrinks X" and "decodeTransferEncoding X h body = Inr d" and "length body < Suc fuel"
    and "boundary \<noteq> []" and "multipart_parts X d boundary = (parts, e)" and "(ph, r) \<in> set parts"
  shows "length (fst r) < fuel"
proof -
  have "(ph, r) \<in> set (fst (multipart_parts X d boundary))" using assms(5,6) by simp
  then have "length (fst r) < length d" using assms(1,4) unfolding library_shrinks_def by blast
  also have "\<dots> \<le> length body" by (rule decodeTransferEncoding_length [OF assms(1,2)])
  finally show ?thesis using assms(3) by linarith
qed

lemma parseContent_enough_fuel:
  "library_shrinks X \<Longrightarrow> length body < fuel \<Longrightarrow> parseContent X fuel h body \<noteq> Inl OutOfFuel"
proof (induction fuel arbitrary: h body)
  case (Suc fuel)
  show ?case
  proof (cases "decodeTransferEncoding X h body")
    case (Inr d)
    have "parse_parts (parseContent X fuel) e parts empty_content \<noteq> Inl OutOfFuel"
      if "boundary \<noteq> []" "multipart_parts X d boundary = (parts, e)" for boundary parts e
    proof (rule parse_parts_no_fuel_error)
      fix ph r assume "(ph, r) \<in> set parts"
      then show "parseContent X fuel ph (fst r) \<noteq> Inl OutOfFuel"
        using Suc.IH [OF Suc.prems(1)] part_shorter [OF Suc.prems(1) Inr Suc.prems(2) that] by blast
    qed
    with Inr show ?thesis by (auto simp: Let_def split: prod.split)
  qed simp
qed simp

lemma parseContent_fuel_irrelevant:
  "library_shrinks X \<Longrightarrow> length body < f \<Longrightarrow> length body < g \<Longrightarrow>
     parseContent X f h body = parseContent X g h body"
proof (induction f arbitrary: g h body)
  case (Suc f)
  then obtain g' where g: "g = Suc g'" by (cases g) auto
  show ?case
  proof (cases "decodeTransferEncoding X h body")
    case (Inr d)
    have "parse_parts (parseContent X f) e parts empty_content =
        parse_parts (parseContent X g') e parts empty_content"
      if "boundary \<noteq> []" "multipart_parts X d boundary = (parts, e)" for boundary parts e
    proof (rule parse_parts_cong)
      fix ph r assume r: "(ph, r) \<in> set parts"
      show "parseContent X f ph (fst r) = parseContent X g' ph (fst r)"
        using Suc.IH [OF Suc.prems(1)] part_shorter [OF Suc.prems(1) Inr Suc.prems(2) that r]
          part_shorter [OF Suc.prems(1) Inr Suc.prems(3) [unfolded g] that r] by blast
    qed
    with Inr show ?thesis unfolding g by (auto simp: Let_def split: prod.split)
  qed (simp add: g)
qed simp

section \<open>Recipients\<close>

lemma copy_slice_id [simp]: "copy_slice xs = xs"
  by (simp add: copy_slice_def map_nth)

lemma recipient_messages_Inr:
  "recipient_messages X build rcpts = Inr msgs \<Longrightarrow>
     list_all2 (\<lambda>rcpt m. \<exists>addr. parse_address X rcpt = Inr addr \<and> m = Some (build addr)) rcpts msgs"
proof (induction rcpts arbitrary: msgs)
  case (Cons r rs)
  then show ?case by (auto split: sum.splits)
qed simp

text \<open>The contract of a transformer, as the SMTP session uses it.\<close>

locale transformer =
  fixes transform :: "string \<Rightarrow> string list \<Rightarrow> string \<Rightarrow> 'e + message option list"
  assumes one_per_recipient: "transform from_addr rcpts raw = Inr msgs \<Longrightarrow> length msgs = length rcpts"
    and addressed: "transform from_addr rcpts raw = Inr msgs \<Longrightarrow> m \<in> set msgs \<Longrightarrow>
      \<exists>msg. m = Some msg \<and> length (msg_recipients msg) = 1"

lemma Transform_Inr:
  assumes "Transform X inc envFrom rcpts raw = Inr msgs"
  obtains header body b from_party content where
    "read_message X raw = Inr (header, body)" "read_all body = Inr b"
    "selectFromAddress X envFrom (header_Get header ''From'') = Inr from_party"
    "parseContent X (Suc (length b)) header b = Inr content"
    "list_all2 (\<lambda>rcpt m. \<exists>addr. parse_address X rcpt = Inr addr \<and>
       m = Some (recipient_message inc from_party (parseOptionalAddress X (header_Get header ''Reply-To''))
         (header_Get header ''Subject'') (TrimSpace (header_Get header ''In-Reply-To''))
         (parseReferences (header_Get header ''References'')) (collectHeaders X header) content addr))
       rcpts msgs"
proof -
  from assms obtain header body where r: "read_message X raw = Inr (header, body)"
    by (auto simp: Transform_def split: if_splits sum.splits)
  from assms r obtain from_party where f: "selectFromAddress X envFrom (header_Get header ''From'') = Inr from_party"
    by (auto simp: Transform_def split: if_splits sum.splits)
  from assms r f obtain b where b: "read_all body = Inr b"
    by (auto simp: Transform_def Let_def split: if_splits sum.splits)
  from assms r f b obtain content where c: "parseContent X (Suc (length b)) header b = Inr content"
    by (auto simp: Transform_def Let_def simp del: parseContent.simps split: if_splits sum.splits)
  have "recipient_messages X (recipient_message inc from_party (parseOptionalAddress X (header_Get header ''Reply-To''))
         (header_Get header ''Subject'') (TrimSpace (header_Get header ''In-Reply-To''))
         (parseReferences (header_Get header ''References'')) (collectHeaders X header) content) rcpts = Inr msgs"
    using assms r f b c by (auto simp: Transform_def Let_def simp del: parseContent.simps split: if_splits)
  from that [OF r b f c recipient_messages_Inr [OF this]] show thesis .
qed

lemma list_all2_Some_mem:
  assumes "list_all2 (\<lambda>x m. \<exists>y. P x y \<and> m = Some (f y)) xs ms" and "m \<in> set ms"
  shows "\<exists>y. m = Some (f y)"
  using assms by (induction rule: list_all2_induct) auto

interpretation mime: transformer "Transform X inc" for X inc
proof
  fix from_addr rcpts raw msgs
  assume t: "Transform X inc from_addr rcpts raw = Inr msgs"
  from t show "length msgs = length rcpts"
    by (rule Transform_Inr) (simp add: list_all2_lengthD)
  fix m assume m: "m \<in> set msgs"
  from t show "\<exists>msg. m = Some msg \<and> length (msg_recipients msg) = 1"
    by (rule Transform_Inr) (drule list_all2_Some_mem [OF _ m], auto simp: recipient_message_def)
qed

section \<open>Nested parts\<close>

lemma append_text_sublists:
  "sublist dst (append_text dst src)" "sublist src (append_text dst src)"
  by (auto simp: append_text_def sublist_append_rightI)
    (metis append_assoc sublist_append_leftI append_Cons append_Nil)+

lemma parse_parts_collects:
  assumes "parse_parts parse e parts out = Inr res"
  shows "\<exists>cs. list_all2 (\<lambda>p c. \<exists>b. read_all (snd p) = Inr b \<and> parse (fst p) b = Inr c) parts cs \<and>
    pc_Attachments res = pc_Attachments out @ concat (map pc_Attachments cs) \<and>
    (\<forall>c \<in> set (out # cs). sublist (pc_Text c) (pc_Text res) \<and> sublist (pc_HTML c) (pc_HTML res))"
  using assms
proof (induction parts arbitrary: out)
  case Nil
  then have "res = out" by (simp split: option.splits)
  then show ?case by simp
next
  case (Cons p ps)
  then obtain b c where b: "read_all (snd p) = Inr b" and c: "parse (fst p) b = Inr c"
    and run: "parse_parts parse e ps (appendParsed out c) = Inr res"
    by (auto split: sum.splits)
  from Cons.IH [OF run] obtain cs where cs:
    "list_all2 (\<lambda>p c. \<exists>b. read_all (snd p) = Inr b \<and> parse (fst p) b = Inr c) ps cs"
    "pc_Attachments res = pc_Attachments (appendParsed out c) @ concat (map pc_Attachments cs)"
    "\<forall>d \<in> set (appendParsed out c # cs). sublist (pc_Text d) (pc_Text res) \<and> sublist (pc_HTML d) (pc_HTML res)"
    by blast
  have "pc_Attachments (appendParsed out c) = pc_Attachments out @ pc_Attachments c"
    by (simp add: appendParsed_def)
  moreover have "sublist (pc_Text d) (pc_Text (appendParsed out c))" "sublist (pc_HTML d) (pc_HTML (appendParsed out c))"
    if "d = out \<or> d = c" for d
    using that append_text_sublists by (auto simp: appendParsed_def)
  then have "sublist (pc_Text d) (pc_Text res) \<and> sublist (pc_HTML d) (pc_HTML res)" if "d = out \<or> d = c" for d
    using that cs(3) sublist_order.order_trans by (metis list.set_intros(1))
  ultimately show ?case
    using b c cs by (intro exI [of _ "c # cs"]) auto
qed

lemma EncodeToString_plain: "set (EncodeToString s) \<inter> {CHR 0x0D, CHR 0x0A} = {}"
proof (induction s rule: EncodeToString.induct)
  case (1 a b c s)
  then show ?case using b64_char_plain by simp
qed (use b64_char_plain in simp_all)

lemma NewDecoder_encoded: "NewDecoder_ReadAll True quanta (EncodeToString s) = Some s"
proof (rule NewDecoder_encode)
  show "filter (\<lambda>c. c \<noteq> CHR 0x0D \<and> c \<noteq> CHR 0x0A) (EncodeToString s) = EncodeToString s"
    using EncodeToString_plain [of s] by (auto simp: filter_id_conv)
qed

section \<open>Properties\<close>

text \<open>C14: One message per recipient.  A transformed mail has exactly one message per RCPT TO address, in
  order, each addressed to that one recipient only, and apart from the recipient all messages are
  the same.\<close>

theorem transform_one_message_per_recipient:
  assumes "Transform X inc envFrom rcpts raw = Inr msgs"
  shows "\<exists>common. list_all2 (\<lambda>rcpt m. \<exists>addr. parse_address X rcpt = Inr addr \<and>
      m = Some (common\<lparr>msg_recipients := [addr]\<rparr>)) rcpts msgs"
proof -
  obtain build where b: "list_all2 (\<lambda>rcpt m. \<exists>addr. parse_address X rcpt = Inr addr \<and> m = Some (build addr)) rcpts msgs"
      "\<And>a a'. build a = (build a')\<lparr>msg_recipients := [a]\<rparr>"
    using assms by (rule Transform_Inr) (rule that, assumption, simp add: recipient_message_def)
  show ?thesis
    by (rule exI [of _ "build no_party"], rule list_all2_mono [OF b(1)]) (metis b(2))
qed

text \<open>C15: The sender cannot be forged through the From header.  The sender address of every message is
  the address of the envelope sender, or equal to it up to letter case.\<close>

theorem transform_sender_is_envelope:
  assumes "Transform X inc envFrom rcpts raw = Inr msgs"
  shows "\<exists>env sender. parse_address X envFrom = Inr env \<and>
    (party_email sender = party_email env \<or>
     EqualFold (fold_equal X) (party_email sender) (party_email env)) \<and>
    (\<forall>m \<in> set msgs. \<exists>msg. m = Some msg \<and> msg_from msg = sender)"
proof -
  obtain header from_party build where f: "selectFromAddress X envFrom (header_Get header ''From'') = Inr from_party"
    and b: "list_all2 (\<lambda>rcpt m. \<exists>addr. parse_address X rcpt = Inr addr \<and> m = Some (build addr)) rcpts msgs"
    and fr: "\<And>a. msg_from (build a) = from_party"
    using assms by (rule Transform_Inr) (rule that, assumption, assumption, simp add: recipient_message_def)
  obtain env where "parse_address X envFrom = Inr env"
      "party_email from_party = party_email env \<or> EqualFold (fold_equal X) (party_email from_party) (party_email env)"
    using f by (auto simp: selectFromAddress_def split: sum.splits if_splits)
  moreover have "\<forall>m \<in> set msgs. \<exists>msg. m = Some msg \<and> msg_from msg = from_party"
    using list_all2_Some_mem [OF b] fr by blast
  ultimately show ?thesis by blast
qed

text \<open>C31: Forwarded headers.  Unless custom headers are switched on a message has none; otherwise each
  of them is a header of the mail with one of its values, and never a reserved one (addressing,
  subject, date, MIME structure).\<close>

theorem transform_headers:
  assumes "Transform X inc envFrom rcpts raw = Inr msgs"
  shows "\<exists>header body. read_message X raw = Inr (header, body) \<and>
    (\<forall>m \<in> set msgs. \<exists>msg. m = Some msg \<and>
       (if inc then \<forall>h \<in> set (msg_headers msg). ToLower (fold_lower X) (header_name h) \<notin> set skipped_headers \<and>
            (\<exists>vs. (header_name h, vs) \<in> set header \<and> header_value h \<in> set vs)
        else msg_headers msg = []))"
proof -
  obtain header body build where r: "read_message X raw = Inr (header, body)"
    and b: "list_all2 (\<lambda>rcpt m. \<exists>addr. parse_address X rcpt = Inr addr \<and> m = Some (build addr)) rcpts msgs"
    and hd: "\<And>a. msg_headers (build a) = (if inc then collectHeaders X header else [])"
    using assms by (rule Transform_Inr) (rule that, assumption, assumption, simp add: recipient_message_def)
  have ranged: "set (ranged X header) = set header"
    unfolding ranged_def by (metis mset_eq_setD)
  have "ToLower (fold_lower X) (header_name h) \<notin> set skipped_headers \<and>
      (\<exists>vs. (header_name h, vs) \<in> set header \<and> header_value h \<in> set vs)"
    if "h \<in> set (collectHeaders X header)" for h
    using that unfolding collectHeaders_def by (auto simp: ranged)
  with r list_all2_Some_mem [OF b] hd show ?thesis by fastforce
qed

text \<open>C23: Attachments are delivered byte for byte.  The content of an attachment decodes to the bytes of
  the decoded part, and a part sent in base64, with line breaks anywhere, is decoded to the bytes
  that were encoded, whatever chunks the decoder reads.\<close>

theorem attachment_roundtrip:
  assumes "ToLower (fold_lower X) (TrimSpace (header_Get header ''Content-Transfer-Encoding'')) = ''base64''"
    and "filter (\<lambda>c. c \<noteq> CHR 0x0D \<and> c \<noteq> CHR 0x0A) wire = EncodeToString content"
  shows "decodeTransferEncoding X header wire = Inr content \<and>
    NewDecoder_ReadAll True quanta (att_content (buildAttachment header content filename disposition)) =
      Some content"
proof -
  have "NewDecoder_ReadAll True (base64_quanta X) wire = Some content"
    by (rule NewDecoder_encode [OF assms(2)])
  then show ?thesis
    using assms(1) by (simp add: decodeTransferEncoding_def buildAttachment_def Let_def NewDecoder_encoded)
qed

text \<open>C32: A multipart body is the combination of its parts: when it is parsed, every part was parsed, the
  attachments are those of the parts in order, and the text and the HTML of every part occur in
  the combined text and HTML.\<close>

theorem multipart_combines_parts:
  assumes "parseContent X (Suc fuel) header wire = Inr res"
    and "decodeTransferEncoding X header wire = Inr body"
    and "content_media_type X header = (mediaType, params)" and "HasPrefix mediaType ''multipart/''"
    and "multipart_parts X body (param params ''boundary'') = (parts, last_error)"
  shows "\<exists>cs. list_all2 (\<lambda>p c. \<exists>b. read_all (snd p) = Inr b \<and> parseContent X fuel (fst p) b = Inr c) parts cs \<and>
    pc_Attachments res = concat (map pc_Attachments cs) \<and>
    (\<forall>c \<in> set cs. sublist (pc_Text c) (pc_Text res) \<and> sublist (pc_HTML c) (pc_HTML res))"
proof -
  have "parse_parts (parseContent X fuel) last_error parts empty_content = Inr res"
    using assms by (simp add: Let_def split: if_splits)
  from parse_parts_collects [OF this] show ?thesis by (auto simp: empty_content_def)
qed

text \<open>C25: Parsing ends.  As the parts of a body are shorter than it, the depth the transformer allows
  for, one more than the length of the body, is never used up, and allowing more changes nothing.\<close>

theorem parsing_terminates:
  assumes "library_shrinks X" and "length body \<le> extra"
  shows "parseContent X (Suc (length body)) header body \<noteq> Inl OutOfFuel \<and>
    parseContent X (Suc extra) header body = parseContent X (Suc (length body)) header body"
  using parseContent_enough_fuel [OF assms(1), of body "Suc (length body)"]
    parseContent_fuel_irrelevant [OF assms(1), of body "Suc extra" "Suc (length body)"] assms(2)
  by simp

text \<open>A part that is neither text nor HTML and has no file name and no attachment disposition, such as an
  inline image known by its Content-ID only, contributes nothing: its bytes are dropped.\<close>

lemma unnamed_part_is_dropped:
  assumes "detectFilename X header (mt_params (parse_media_type X (header_Get header ''Content-Disposition''))) = []"
    and "\<not> EqualFold (fold_equal X) (mt_type (parse_media_type X (header_Get header ''Content-Disposition''))) ''attachment''"
    and "mediaType \<noteq> ''text/plain''" "mediaType \<noteq> ''text/html''"
  shows "leaf_content X header mediaType body = empty_content"
  using assms by (simp add: leaf_content_def Let_def)

section \<open>A concrete mail\<close>

definition sample_parts :: "(mime_header \<times> reader) list" where
  "sample_parts =
     [([(''Content-Type'', [''text/plain''])], ('' hi '', None)),
      ([(''Content-Type'', [''text/html''])], (''<p>'', None))]"

definition sample_mime :: mime_externals where
  "sample_mime =
     \<lparr>read_message = (\<lambda>raw. Inr ([(''From'', [''Ann@x.org'']), (''Subject'', [''S'']), (''X-Tag'', [''1'']),
        (''Content-Type'', [''multipart/mixed''])], (raw, None))),
      parse_address = (\<lambda>s. Inr \<lparr>party_name = [], party_email = s\<rparr>),
      parse_media_type = (\<lambda>s. \<lparr>mt_type = s, mt_params = [(''boundary'', ''B'')], mt_error = None\<rparr>),
      multipart_parts = (\<lambda>body _. (if length body < 8 then [] else sample_parts, None)),
      quoted_printable = Inr, base64_quanta = (\<lambda>_. 1), fold_lower = (\<lambda>s. s),
      fold_equal = (\<lambda>s t. s = t), header_order = (\<lambda>h. h)\<rparr>"

definition sample_mail :: "string \<Rightarrow> message" where
  "sample_mail rcpt =
     \<lparr>msg_from = \<lparr>party_name = [], party_email = ''Ann@x.org''\<rparr>, msg_recipients = [\<lparr>party_name = [], party_email = rcpt\<rparr>],
      msg_subject = ''S'', msg_text = ''hi'', msg_html = ''<p>'', msg_references = [],
      msg_headers = [\<lparr>header_name = ''X-Tag'', header_value = ''1''\<rparr>],
      msg_reply_to = no_party, msg_in_reply_to = [], msg_attachments = []\<rparr>"

lemma sample_transform: "Transform sample_mime True ''ann@x.org'' [''b@y.org'', ''c@y.org''] ''0123456789'' =
    Inr [Some (sample_mail ''b@y.org''), Some (sample_mail ''c@y.org'')]"
  by code_simp

theorem transform_one_message_per_recipient_witness:
  "\<exists>common. sample_mail ''b@y.org'' = common\<lparr>msg_recipients := [\<lparr>party_name = [], party_email = ''b@y.org''\<rparr>]\<rparr> \<and>
     sample_mail ''c@y.org'' = common\<lparr>msg_recipients := [\<lparr>party_name = [], party_email = ''c@y.org''\<rparr>]\<rparr>"
  using transform_one_message_per_recipient [OF sample_transform] by (auto simp: sample_mime_def)

theorem transform_sender_is_envelope_witness:
  "\<exists>env. parse_address sample_mime ''ann@x.org'' = Inr env \<and>
     (party_email (msg_from (sample_mail ''b@y.org'')) = party_email env \<or>
      EqualFold (fold_equal sample_mime) (party_email (msg_from (sample_mail ''b@y.org''))) (party_email env))"
  using transform_sender_is_envelope [OF sample_transform] by auto

theorem transform_headers_witness:
  "\<exists>header body. read_message sample_mime ''0123456789'' = Inr (header, body) \<and> (''X-Tag'', [''1'']) \<in> set header"
proof -
  obtain header body where r: "read_message sample_mime ''0123456789'' = Inr (header, body)"
      and h: "\<forall>h \<in> set (msg_headers (sample_mail ''b@y.org'')). \<exists>vs. (header_name h, vs) \<in> set header \<and> header_value h \<in> set vs"
    using transform_headers [OF sample_transform] by auto
  then have "\<exists>vs. (''X-Tag'', vs) \<in> set header \<and> ''1'' \<in> set vs" by (simp add: sample_mail_def)
  with r show ?thesis by (auto simp: sample_mime_def)
qed

lemma sample_encoding: "EncodeToString ''hi'' = ''aGk=''"
  by (simp add: b64_char_def b64_digit_def b64_word_def char_of_eq_iff)

theorem attachment_roundtrip_witness:
  "decodeTransferEncoding sample_mime [(''Content-Transfer-Encoding'', ['' Base64''])] (''aG'' @ [CHR 0x0D, CHR 0x0A] @ ''k='') =
     Inr ''hi''"
proof -
  have "ToLower (fold_lower sample_mime) (TrimSpace (header_Get [(''Content-Transfer-Encoding'', ['' Base64''])]
      ''Content-Transfer-Encoding'')) = ''base64''"
    by code_simp
  moreover have "filter (\<lambda>c. c \<noteq> CHR 0x0D \<and> c \<noteq> CHR 0x0A) (''aG'' @ [CHR 0x0D, CHR 0x0A] @ ''k='') = EncodeToString ''hi''"
    unfolding sample_encoding by simp
  ultimately show ?thesis using attachment_roundtrip by blast
qed

theorem multipart_combines_parts_witness:
  "\<exists>res. parseContent sample_mime 2 [(''Content-Type'', [''multipart/mixed''])] ''0123456789'' = Inr res \<and>
     pc_Attachments res = []"
proof -
  let ?h = "[(''Content-Type'', [''multipart/mixed''])]"
  let ?res = "\<lparr>pc_Text = ''hi'', pc_HTML = ''<p>'', pc_Attachments = []\<rparr>"
  have run: "parseContent sample_mime (Suc 1) ?h ''0123456789'' = Inr ?res"
    and d: "decodeTransferEncoding sample_mime ?h ''0123456789'' = Inr ''0123456789''"
    and t: "content_media_type sample_mime ?h = (''multipart/mixed'', [(''boundary'', ''B'')])"
    and m: "HasPrefix ''multipart/mixed'' ''multipart/''"
    and p: "multipart_parts sample_mime ''0123456789'' (param [(''boundary'', ''B'')] ''boundary'') = (sample_parts, None)"
    by code_simp+
  have "\<exists>cs. list_all2 (\<lambda>p c. \<exists>b. read_all (snd p) = Inr b \<and> parseContent sample_mime 1 (fst p) b = Inr c) sample_parts cs"
    using multipart_combines_parts [OF run d t m p] by blast
  with run show ?thesis by (intro exI [of _ ?res]) (simp add: numeral_2_eq_2)
qed

theorem parsing_terminates_witness:
  "parseContent sample_mime 11 [(''Content-Type'', [''multipart/mixed''])] ''0123456789'' \<noteq> Inl OutOfFuel"
proof -
  have "library_shrinks sample_mime"
    by (auto simp: library_shrinks_def sample_mime_def sample_parts_def split: if_splits)
  from parsing_terminates [OF this, of "''0123456789''" 10] show ?thesis by simp
qed

end
