(* ===== verification/Smtp_Session.thy ===== *)
theory Smtp_Session
  imports Smtp_Backend Mime_Correct Queue_Interface
begin

text \<open>
  SMTP sessions (\<^verbatim>\<open>smtpserver/server.go\<close>: \<^verbatim>\<open>New\<close>, \<^verbatim>\<open>Session\<close>): authentication, the envelope, and \<^verbatim>\<open>Data\<close>, which
  turns a mail into queued jobs.  The SMTP protocol engine and the SASL exchange are the libraries
  go-smtp and go-sasl: here a session is the sequence of the calls they make, in any order.
  \<^verbatim>\<open>mail.ParseAddress\<close> and the transformer are fields of the backend.
\<close>

section \<open>The server\<close>

record smtp_settings =
  Addr :: string
  Domain :: string
  MaxMessageBytes :: int
  MaxRecipients :: int
  AllowInsecureAuth :: bool
  ReadTimeout :: duration
  WriteTimeout :: duration
  TLSCertificate :: "string option"

text \<open>\<open>load_pair\<close> is \<^verbatim>\<open>tls.LoadX509KeyPair\<close>.\<close>

definition New_Server :: "(string \<Rightarrow> string \<Rightarrow> string + string) \<Rightarrow> config \<Rightarrow> string + smtp_settings" where
  "New_Server load_pair c =
     (let srv = \<lparr>Addr = c_SMTPListenAddr c, Domain = c_SMTPDomain c,
                 MaxMessageBytes = c_SMTPMaxMessageBytes c, MaxRecipients = c_SMTPMaxRecipients c,
                 AllowInsecureAuth = c_SMTPAllowInsecureAuth c, ReadTimeout = 60 * second,
                 WriteTimeout = 60 * second, TLSCertificate = None\<rparr>
      in if c_SMTPRequireSTARTTLS c
         then (case load_pair (c_SMTPTLSCertFile c) (c_SMTPTLSKeyFile c) of
                 Inl e \<Rightarrow> Inl (''load smtp tls cert/key: '' @ e)
               | Inr cert \<Rightarrow> Inr (srv\<lparr>TLSCertificate := Some cert\<rparr>))
         else Inr srv)"

text \<open>\<^verbatim>\<open>Shutdown\<close> under \<^verbatim>\<open>sync.Once\<close>: the first call's result counts, later calls do nothing.\<close>

definition Shutdown :: "string option \<Rightarrow> bool \<Rightarrow> bool \<times> string option" where
  "Shutdown result stopped = (if stopped then (True, None) else (True, result))"

section \<open>Backend and session\<close>

record 's smtp_backend =
  b_cfg :: config
  b_store :: "'s queue_ops"
  b_transform :: "string \<Rightarrow> string list \<Rightarrow> string \<Rightarrow> transform_error + message option list"
  b_parse_address :: "string \<Rightarrow> string + party"
  b_lower :: "string \<Rightarrow> string"
  b_upper :: "string \<Rightarrow> string"
  b_allowedDomains :: "string set"

definition NewBackend :: "config \<Rightarrow> 's queue_ops \<Rightarrow>
    (string \<Rightarrow> string list \<Rightarrow> string \<Rightarrow> transform_error + message option list) \<Rightarrow>
    (string \<Rightarrow> string + party) \<Rightarrow> (string \<Rightarrow> string) \<Rightarrow> (string \<Rightarrow> string) \<Rightarrow> 's smtp_backend" where
  "NewBackend c st transform parse lower upper =
     \<lparr>b_cfg = c, b_store = st, b_transform = transform, b_parse_address = parse,
      b_lower = lower, b_upper = upper, b_allowedDomains = allowed_domains lower c\<rparr>"

record session =
  s_ip :: string
  authed :: bool
  envelopeFrom :: string
  recipients :: "string list"
  releasedToken :: bool

datatype smtp_error =
    SMTPError int "int list" string
  | ErrAuthUnknownMechanism
  | ErrAuthFailed
  | ErrAuthRequired

definition new_session :: "string \<Rightarrow> session" where
  "new_session ip =
     \<lparr>s_ip = ip, authed = False, envelopeFrom = [], recipients = [], releasedToken = False\<rparr>"

definition NewSession :: "config \<Rightarrow> string option \<Rightarrow> bool \<Rightarrow> backend_state \<Rightarrow>
    backend_state \<times> (smtp_error + session)" where
  "NewSession c addr allow b =
     (let ip = remoteIP addr
      in case acquire c allow ip b of
           (b', False) \<Rightarrow> (b', Inl (SMTPError 421 [4, 7, 0] ''Too busy, try again later''))
         | (b', True) \<Rightarrow> (b', Inr (new_session ip)))"

section \<open>Authentication\<close>

type_synonym 'a session_op = "session \<times> metrics \<Rightarrow> (session \<times> metrics) \<times> 'a"

definition authenticate :: "'s smtp_backend \<Rightarrow> string \<Rightarrow> string \<Rightarrow> string \<Rightarrow> smtp_error option session_op" where
  "authenticate B identity username password sm =
     (case sm of (s, m) \<Rightarrow>
        if username \<noteq> c_SMTPAuthUsername (b_cfg B) \<or> password \<noteq> c_SMTPAuthPassword (b_cfg B)
        then ((s, inc_rejected ''auth_failed'' (m\<lparr>SMTPAuthFailures := Suc (SMTPAuthFailures m)\<rparr>)),
              Some ErrAuthFailed)
        else ((s\<lparr>authed := True\<rparr>, m), None))"

definition AuthMechanisms :: "string list" where
  "AuthMechanisms = [''PLAIN'']"

text \<open>\<^verbatim>\<open>Auth\<close> hands the SASL library the function that checks the credentials.\<close>

definition Auth :: "'s smtp_backend \<Rightarrow> string \<Rightarrow>
    smtp_error + (string \<Rightarrow> string \<Rightarrow> string \<Rightarrow> smtp_error option session_op)" where
  "Auth B mech =
     (if ToUpper (b_upper B) (TrimSpace mech) \<noteq> ''PLAIN'' then Inl ErrAuthUnknownMechanism
      else Inr (authenticate B))"

section \<open>Envelope\<close>

definition reject :: "string \<Rightarrow> smtp_error \<Rightarrow> smtp_error option session_op" where
  "reject reason err sm = (case sm of (s, m) \<Rightarrow> ((s, inc_rejected reason m), Some err))"

text \<open>\<open>tls\<close>: whether the connection has a TLS state.\<close>

definition Mail :: "'s smtp_backend \<Rightarrow> bool \<Rightarrow> string \<Rightarrow> smtp_error option session_op" where
  "Mail B tls from_arg sm =
     (case sm of (s, m) \<Rightarrow>
        if c_SMTPRequireSTARTTLS (b_cfg B) \<and> \<not> tls
        then reject ''starttls_required'' (SMTPError 530 [5, 7, 0] ''Must issue STARTTLS first'') sm
        else if \<not> authed s
        then reject ''auth_required'' (SMTPError 530 [5, 7, 0] ''Authentication required'') sm
        else (case b_parse_address B from_arg of
                Inl e \<Rightarrow> reject ''invalid_sender'' (SMTPError 550 [5, 1, 7] ''Invalid MAIL FROM address'') sm
              | Inr addr \<Rightarrow>
                  if senderDomain (b_lower B) (party_email addr) \<notin> b_allowedDomains B
                  then reject ''sender_domain_not_allowed'' (SMTPError 550 [5, 7, 1] ''Sender domain not allowed'') sm
                  else ((s\<lparr>envelopeFrom := party_email addr, recipients := []\<rparr>, m), None)))"

definition Rcpt :: "'s smtp_backend \<Rightarrow> string \<Rightarrow> smtp_error option session_op" where
  "Rcpt B to_arg sm =
     (case sm of (s, m) \<Rightarrow>
        if \<not> authed s then reject ''auth_required'' ErrAuthRequired sm
        else if envelopeFrom s = [] then (sm, Some (SMTPError 503 [5, 5, 1] ''Need MAIL FROM first''))
        else (case b_parse_address B to_arg of
                Inl e \<Rightarrow> reject ''invalid_recipient'' (SMTPError 550 [5, 1, 3] ''Invalid RCPT TO address'') sm
              | Inr addr \<Rightarrow> ((s\<lparr>recipients := recipients s @ [party_email addr]\<rparr>, m), None)))"

section \<open>Data\<close>

text \<open>
  \<^verbatim>\<open>Data\<close> changes the metrics and the store, not the session.  The limit of the reader is computed in
  64-bit arithmetic.  The reader \<open>r\<close> is go-smtp's and any reader here; go-smtp, configured with the
  same limit, ends it with an error after that many bytes, which is the branch \<open>read_error\<close>.
\<close>

definition Data :: "'s smtp_backend \<Rightarrow> (nat \<Rightarrow> string) \<Rightarrow> go_time \<Rightarrow> reader \<Rightarrow> session \<Rightarrow>
    metrics \<times> 's \<Rightarrow> (metrics \<times> 's) \<times> smtp_error option" where
  "Data B ulid now r s ms =
     (case ms of (m, st) \<Rightarrow>
        if \<not> authed s then ((inc_rejected ''auth_required'' m, st), Some ErrAuthRequired)
        else if envelopeFrom s = [] \<or> length (recipients s) = 0
        then (ms, Some (SMTPError 503 [5, 5, 1] ''Need MAIL FROM and RCPT TO first''))
        else
      (case read_limited (wrap64 (c_SMTPMaxMessageBytes (b_cfg B) + 1)) r of
         Inl e \<Rightarrow> ((inc_rejected ''read_error'' m, st), Some (SMTPError 451 [4, 3, 0] ''Read message failed''))
       | Inr raw \<Rightarrow>
      (if int (length raw) > c_SMTPMaxMessageBytes (b_cfg B)
       then ((inc_rejected ''message_too_large'' m, st), Some (SMTPError 552 [5, 3, 4] ''Message too large''))
       else
      (case b_transform B (envelopeFrom s) (recipients s) raw of
         Inl e \<Rightarrow> ((inc_rejected ''mime_parse_error'' m, st), Some (SMTPError 554 [5, 6, 0] ''Unable to parse message''))
       | Inr msgs \<Rightarrow>
      (case do_EnqueueTx (b_store B) ulid now (envelopeFrom s) msgs st of
         (st', Inl e) \<Rightarrow>
           ((inc_rejected ''queue_error'' m, st'), Some (SMTPError 451 [4, 3, 0] ''Temporary queue failure''))
       | (st', Inr jobIDs) \<Rightarrow>
           ((m\<lparr>SMTPAcceptedRecipients := SMTPAcceptedRecipients m + length msgs\<rparr>, st'), None))))))"

definition Reset :: "session \<Rightarrow> session" where
  "Reset s = s\<lparr>envelopeFrom := [], recipients := []\<rparr>"

definition Logout :: "session \<times> backend_state \<Rightarrow> session \<times> backend_state" where
  "Logout sb =
     (case sb of (s, b) \<Rightarrow>
        if \<not> releasedToken s then (s\<lparr>releasedToken := True\<rparr>, release (s_ip s) b) else (s, b))"

section \<open>Whole sessions\<close>

text \<open>The calls the protocol engine makes on a session; \<open>CmdData\<close> carries what \<^verbatim>\<open>Data\<close> reads.\<close>

datatype smtp_command =
    CmdAuth string string string string
  | CmdMail bool string
  | CmdRcpt string
  | CmdData "nat \<Rightarrow> string" go_time reader
  | CmdReset

record 's smtp_world =
  w_session :: session
  w_metrics :: metrics
  w_store :: 's

definition session_call :: "smtp_error option session_op \<Rightarrow> 's smtp_world \<Rightarrow> 's smtp_world \<times> smtp_error option" where
  "session_call f w =
     (case f (w_session w, w_metrics w) of
        ((s, m), e) \<Rightarrow> (w\<lparr>w_session := s, w_metrics := m\<rparr>, e))"

fun session_step :: "'s smtp_backend \<Rightarrow> smtp_command \<Rightarrow> 's smtp_world \<Rightarrow> 's smtp_world \<times> smtp_error option" where
  "session_step B (CmdAuth mech identity username password) w =
     (case Auth B mech of
        Inl e \<Rightarrow> (w, Some e)
      | Inr check \<Rightarrow> session_call (check identity username password) w)"
| "session_step B (CmdMail tls from_arg) w = session_call (Mail B tls from_arg) w"
| "session_step B (CmdRcpt to_arg) w = session_call (Rcpt B to_arg) w"
| "session_step B (CmdData ulid now r) w =
     (case Data B ulid now r (w_session w) (w_metrics w, w_store w) of
        ((m, st), e) \<Rightarrow> (w\<lparr>w_metrics := m, w_store := st\<rparr>, e))"
| "session_step B CmdReset w = (w\<lparr>w_session := Reset (w_session w)\<rparr>, None)"

primrec session_run :: "'s smtp_backend \<Rightarrow> smtp_command list \<Rightarrow> 's smtp_world \<Rightarrow> 's smtp_world" where
  "session_run B [] w = w"
| "session_run B (cmd # cmds) w = session_run B cmds (fst (session_step B cmd w))"

end
