(* ===== verification/Smtp_Correct.thy ===== *)
theory Smtp_Correct
  imports Smtp_Session
begin

text \<open>
  Correctness of the SMTP sessions: a mail is accepted exactly when its jobs are durably queued, one
  per recipient; nothing is stored for a session that did not authenticate; the envelope always
  carries an allowed sender; mails that are too long or cut off are refused.
\<close>

section \<open>Data\<close>

text \<open>A successful \<^verbatim>\<open>Data\<close> has read a mail within the limit, transformed it and enqueued the result.\<close>

lemma Data_enqueued:
  assumes "Data B ulid now r s (m, st) = ((m', st'), None)"
  obtains raw msgs ids where "authed s" "envelopeFrom s \<noteq> []" "recipients s \<noteq> []"
    "read_limited (wrap64 (c_SMTPMaxMessageBytes (b_cfg B) + 1)) r = Inr raw"
    "int (length raw) \<le> c_SMTPMaxMessageBytes (b_cfg B)"
    "b_transform B (envelopeFrom s) (recipients s) raw = Inr msgs"
    "do_EnqueueTx (b_store B) ulid now (envelopeFrom s) msgs st = (st', Inr ids)"
    "m' = m\<lparr>SMTPAcceptedRecipients := SMTPAcceptedRecipients m + length msgs\<rparr>"
proof -
  from assms have pre: "authed s" "envelopeFrom s \<noteq> []" "recipients s \<noteq> []"
    by (auto simp: Data_def split: if_splits)
  from assms pre obtain raw where raw: "read_limited (wrap64 (c_SMTPMaxMessageBytes (b_cfg B) + 1)) r = Inr raw"
      "int (length raw) \<le> c_SMTPMaxMessageBytes (b_cfg B)"
    by (auto simp: Data_def split: if_splits sum.splits)
  from assms pre raw obtain msgs where msgs: "b_transform B (envelopeFrom s) (recipients s) raw = Inr msgs"
    by (auto simp: Data_def split: if_splits sum.splits)
  from assms pre raw msgs obtain ids where
    "do_EnqueueTx (b_store B) ulid now (envelopeFrom s) msgs st = (st', Inr ids)"
    "m' = m\<lparr>SMTPAcceptedRecipients := SMTPAcceptedRecipients m + length msgs\<rparr>"
    by (auto simp: Data_def split: prod.splits sum.splits)
  with pre raw msgs show thesis by (rule that)
qed

text \<open>The session against the contracts of the store and of the transformer.\<close>

locale smtp_service = queue_store "b_store B" invar view + transformer "b_transform B"
  for B :: "'s smtp_backend" and invar :: "'s \<Rightarrow> bool"
    and view :: "'s \<Rightarrow> string \<Rightarrow> (job_status \<times> int) option"
begin

lemma enqueue_error: "do_EnqueueTx (b_store B) ulid now env_from msgs st = (st', Inl e) \<Longrightarrow> st' = st"
  using enqueue by fastforce

lemma data_result:
  assumes "Data B ulid now r s (m, st) = ((m', st'), e)"
  shows "case e of
      Some err \<Rightarrow> st' = st \<and> SMTPAcceptedRecipients m' = SMTPAcceptedRecipients m
    | None \<Rightarrow> authed s \<and> envelopeFrom s \<noteq> [] \<and> recipients s \<noteq> [] \<and>
        SMTPAcceptedRecipients m' = SMTPAcceptedRecipients m + length (recipients s) \<and>
        (\<exists>raw msgs ids. b_transform B (envelopeFrom s) (recipients s) raw = Inr msgs \<and>
           read_limited (wrap64 (c_SMTPMaxMessageBytes (b_cfg B) + 1)) r = Inr raw \<and>
           int (length raw) \<le> c_SMTPMaxMessageBytes (b_cfg B) \<and>
           length ids = length (recipients s) \<and>
           (invar st \<longrightarrow> distinct ids \<and> (\<forall>i \<in> set ids. view st i = None) \<and>
              (\<forall>i. view st' i = (if i \<in> set ids then Some (StatusQueued, 0) else view st i))))"
proof (cases e)
  case None
  from assms None obtain raw msgs ids where pre: "authed s" "envelopeFrom s \<noteq> []" "recipients s \<noteq> []"
    and raw: "read_limited (wrap64 (c_SMTPMaxMessageBytes (b_cfg B) + 1)) r = Inr raw"
      "int (length raw) \<le> c_SMTPMaxMessageBytes (b_cfg B)"
    and msgs: "b_transform B (envelopeFrom s) (recipients s) raw = Inr msgs"
    and run: "do_EnqueueTx (b_store B) ulid now (envelopeFrom s) msgs st = (st', Inr ids)"
    and m': "m' = m\<lparr>SMTPAcceptedRecipients := SMTPAcceptedRecipients m + length msgs\<rparr>"
    by (auto elim: Data_enqueued)
  have len: "length msgs = length (recipients s)" by (rule one_per_recipient [OF msgs])
  have "length ids = length (recipients s) \<and>
      (invar st \<longrightarrow> distinct ids \<and> (\<forall>i \<in> set ids. view st i = None) \<and>
        (\<forall>i. view st' i = (if i \<in> set ids then Some (StatusQueued, 0) else view st i)))"
    using enqueue [OF run] len by simp
  then have "\<exists>raw msgs ids. b_transform B (envelopeFrom s) (recipients s) raw = Inr msgs \<and>
      read_limited (wrap64 (c_SMTPMaxMessageBytes (b_cfg B) + 1)) r = Inr raw \<and>
      int (length raw) \<le> c_SMTPMaxMessageBytes (b_cfg B) \<and> length ids = length (recipients s) \<and>
      (invar st \<longrightarrow> distinct ids \<and> (\<forall>i \<in> set ids. view st i = None) \<and>
        (\<forall>i. view st' i = (if i \<in> set ids then Some (StatusQueued, 0) else view st i)))"
    using raw msgs by blast
  with None pre m' len show ?thesis by simp
next
  case (Some err)
  have "st' = st \<and> SMTPAcceptedRecipients m' = SMTPAcceptedRecipients m"
    using assms Some
    by (auto simp: Data_def inc_rejected_frame enqueue_error split: if_splits sum.splits prod.splits)
  with Some show ?thesis by simp
qed

end

lemma NewBackend_simps [simp]:
  "b_store (NewBackend c st tr parse lower upper) = st"
  "b_transform (NewBackend c st tr parse lower upper) = tr"
  "b_cfg (NewBackend c st tr parse lower upper) = c"
  "b_parse_address (NewBackend c st tr parse lower upper) = parse"
  "b_lower (NewBackend c st tr parse lower upper) = lower"
  "b_upper (NewBackend c st tr parse lower upper) = upper"
  "b_allowedDomains (NewBackend c st tr parse lower upper) = allowed_domains lower c"
  by (simp_all add: NewBackend_def)

interpretation smtp: smtp_service "NewBackend c (sqlite_queue S flt) (Transform X inc) parse lower upper"
    store_inv job_view for c S flt X inc parse lower upper
  unfolding smtp_service_def NewBackend_simps
  by (intro conjI sqlite.queue_store_axioms mime.transformer_axioms)

section \<open>Sessions\<close>

text \<open>A command that presents the configured credentials with the PLAIN mechanism.\<close>

definition valid_login :: "'s smtp_backend \<Rightarrow> smtp_command \<Rightarrow> bool" where
  "valid_login B cmd \<longleftrightarrow>
     (case cmd of
        CmdAuth mech identity username password \<Rightarrow>
          ToUpper (b_upper B) (TrimSpace mech) = ''PLAIN'' \<and>
          username = c_SMTPAuthUsername (b_cfg B) \<and> password = c_SMTPAuthPassword (b_cfg B)
      | _ \<Rightarrow> False)"

definition envelope_inv :: "'s smtp_backend \<Rightarrow> session \<Rightarrow> bool" where
  "envelope_inv B s \<longleftrightarrow>
     (envelopeFrom s = [] \<or>
        authed s \<and> senderDomain (b_lower B) (envelopeFrom s) \<in> b_allowedDomains B) \<and>
     (recipients s = [] \<or> envelopeFrom s \<noteq> [])"

lemma Mail_session:
  "Mail B tls from_arg (s, m) = ((s', m'), e) \<Longrightarrow>
     s' = s \<or> authed s \<and> (\<exists>a. senderDomain (b_lower B) a \<in> b_allowedDomains B \<and>
       s' = s\<lparr>envelopeFrom := a, recipients := []\<rparr>)"
  by (auto simp: Mail_def reject_def split: if_splits sum.splits)

lemma Rcpt_session:
  "Rcpt B to_arg (s, m) = ((s', m'), e) \<Longrightarrow>
     s' = s \<or> envelopeFrom s \<noteq> [] \<and> (\<exists>a. s' = s\<lparr>recipients := recipients s @ [a]\<rparr>)"
  by (auto simp: Rcpt_def reject_def split: if_splits sum.splits)

lemma session_step_inv:
  assumes "envelope_inv B (w_session w)"
  shows "envelope_inv B (w_session (fst (session_step B cmd w)))"
proof (cases cmd)
  case (CmdAuth mech identity username password)
  with assms show ?thesis
    by (auto simp: Auth_def session_call_def authenticate_def envelope_inv_def split: prod.split)
next
  case (CmdMail tls from_arg)
  obtain s m e where r: "Mail B tls from_arg (w_session w, w_metrics w) = ((s, m), e)" by (metis surj_pair)
  from Mail_session [OF r] CmdMail r assms show ?thesis
    by (auto simp: session_call_def envelope_inv_def)
next
  case (CmdRcpt to_arg)
  obtain s m e where r: "Rcpt B to_arg (w_session w, w_metrics w) = ((s, m), e)" by (metis surj_pair)
  from Rcpt_session [OF r] CmdRcpt r assms show ?thesis
    by (auto simp: session_call_def envelope_inv_def)
next
  case (CmdData ulid now r)
  with assms show ?thesis by (auto split: prod.split)
next
  case CmdReset
  then show ?thesis by (simp add: Reset_def envelope_inv_def)
qed

lemma session_run_inv:
  "envelope_inv B (w_session w) \<Longrightarrow> envelope_inv B (w_session (session_run B cmds w))"
  by (induction cmds arbitrary: w) (simp_all add: session_step_inv)

lemma unauthenticated_step:
  assumes "\<not> authed (w_session w)" and "\<not> valid_login B cmd"
  shows "\<not> authed (w_session (fst (session_step B cmd w))) \<and> w_store (fst (session_step B cmd w)) = w_store w"
proof (cases cmd)
  case (CmdAuth mech identity username password)
  with assms show ?thesis
    by (auto simp: Auth_def session_call_def authenticate_def valid_login_def split: prod.split)
next
  case (CmdMail tls from_arg)
  obtain s m e where r: "Mail B tls from_arg (w_session w, w_metrics w) = ((s, m), e)" by (metis surj_pair)
  from Mail_session [OF r] CmdMail r assms show ?thesis by (auto simp: session_call_def)
next
  case (CmdRcpt to_arg)
  obtain s m e where r: "Rcpt B to_arg (w_session w, w_metrics w) = ((s, m), e)" by (metis surj_pair)
  from Rcpt_session [OF r] CmdRcpt r assms show ?thesis by (auto simp: session_call_def)
next
  case (CmdData ulid now r)
  with assms show ?thesis by (simp add: Data_def)
next
  case CmdReset
  with assms show ?thesis by (simp add: Reset_def)
qed

lemma unauthenticated_run:
  "\<not> authed (w_session w) \<Longrightarrow> list_all (\<lambda>cmd. \<not> valid_login B cmd) cmds \<Longrightarrow>
     w_store (session_run B cmds w) = w_store w"
  by (induction cmds arbitrary: w) (simp_all add: unauthenticated_step)

lemma Logout_once: "Logout (Logout sb) = Logout sb"
  by (cases sb) (simp add: Logout_def)

section \<open>Properties\<close>

text \<open>C3: Accepted means queued.  When DATA is answered with success, the store holds exactly one new
  queued job per recipient, under new distinct ids, and the counter of accepted recipients has
  grown by their number; when it is answered with an error, whatever failed, the store is unchanged
  and nothing is counted as accepted.\<close>

theorem accepted_means_queued:
  assumes "store_inv t"
    and "Data (NewBackend c (sqlite_queue S flt) (Transform X inc) parse lower upper) ulid now r s (m, t) =
      ((m', t'), e)"
  shows "case e of
      Some err \<Rightarrow> t' = t \<and> SMTPAcceptedRecipients m' = SMTPAcceptedRecipients m
    | None \<Rightarrow> authed s \<and>
        SMTPAcceptedRecipients m' = SMTPAcceptedRecipients m + length (recipients s) \<and>
        (\<exists>ids. length ids = length (recipients s) \<and> distinct ids \<and> (\<forall>i \<in> set ids. job_view t i = None) \<and>
           (\<forall>i. job_view t' i = (if i \<in> set ids then Some (StatusQueued, 0) else job_view t i)))"
  using smtp.data_result [OF assms(2)] assms(1) by (cases e) auto

text \<open>C11: Sessions are safe whatever the client sends.  After any sequence of commands the envelope is
  empty or the session is authenticated and the sender's domain is an allowed one, and recipients
  are only kept with a sender; a session that never presents the configured user name and password
  leaves the store untouched.\<close>

theorem session_safety:
  assumes "w_session w = new_session ip"
  shows "envelope_inv B (w_session (session_run B cmds w)) \<and>
    (list_all (\<lambda>cmd. \<not> valid_login B cmd) cmds \<longrightarrow> w_store (session_run B cmds w) = w_store w)"
  using assms session_run_inv [of B w cmds] unauthenticated_run [of w B cmds]
  by (simp add: envelope_inv_def new_session_def)

text \<open>C26: MAIL FROM is accepted exactly when STARTTLS is on if required, the session is authenticated,
  the address parses and its domain is allowed; then it starts a new envelope.  Otherwise the
  session is unchanged and one rejection is counted under the reason.\<close>

theorem mail_accepts_exactly:
  "case Mail B tls from_arg (s, m) of
     ((s', m'), None) \<Rightarrow> m' = m \<and> authed s \<and> (if c_SMTPRequireSTARTTLS (b_cfg B) then tls else True) \<and>
       (\<exists>a. b_parse_address B from_arg = Inr a \<and>
          senderDomain (b_lower B) (party_email a) \<in> b_allowedDomains B \<and>
          s' = s\<lparr>envelopeFrom := party_email a, recipients := []\<rparr>)
   | ((s', m'), Some err) \<Rightarrow> s' = s \<and> (\<exists>reason. m' = inc_rejected reason m) \<and>
       \<not> (authed s \<and> (if c_SMTPRequireSTARTTLS (b_cfg B) then tls else True) \<and>
          (\<exists>a. b_parse_address B from_arg = Inr a \<and>
             senderDomain (b_lower B) (party_email a) \<in> b_allowedDomains B))"
  by (auto simp: Mail_def reject_def split: sum.split)

text \<open>C27: A mail that does not arrive whole and within the limit is refused, counted, and leaves the
  store as it was, as long as the limit plus one fits 64 bits: when the reader fails before it has
  given more bytes than the limit allows, DATA answers 451 and counts a read error; when it gives
  more, 552, however the transmission ends.  \<^verbatim>\<open>New\<close> gives go-smtp the same limit
  (\<^verbatim>\<open>srv.MaxMessageBytes\<close>), and go-smtp's DATA reader fails once that many bytes are read, so behind
  go-smtp a mail that is too long takes the first of the two ways.\<close>

theorem incomplete_or_oversized_mail_refused:
  assumes "authed s" "envelopeFrom s \<noteq> []" "recipients s \<noteq> []"
    and "0 < c_SMTPMaxMessageBytes (b_cfg B)" "c_SMTPMaxMessageBytes (b_cfg B) < 2 ^ 63 - 1"
    and "int (length content) > c_SMTPMaxMessageBytes (b_cfg B) \<or> read_end \<noteq> None"
  shows "Data B ulid now (content, read_end) s (m, st) =
    (if int (length content) > c_SMTPMaxMessageBytes (b_cfg B)
     then ((inc_rejected ''message_too_large'' m, st), Some (SMTPError 552 [5, 3, 4] ''Message too large''))
     else ((inc_rejected ''read_error'' m, st), Some (SMTPError 451 [4, 3, 0] ''Read message failed'')))"
proof -
  have "wrap64 (c_SMTPMaxMessageBytes (b_cfg B) + 1) = c_SMTPMaxMessageBytes (b_cfg B) + 1"
    using assms(4,5) by (intro wrap64_id) (simp add: in_int64_def)
  with assms show ?thesis by (auto simp: Data_def)
qed

text \<open>With SMTP_MAX_MESSAGE_BYTES at the largest 64-bit value, which the configuration accepts, the
  limit plus one wraps around, the reader reads nothing, and DATA treats every mail as an empty
  one.\<close>

lemma largest_limit_reads_nothing:
  assumes "c_SMTPMaxMessageBytes (b_cfg B) = 2 ^ 63 - 1"
  shows "Data B ulid now r s ms = Data B ulid now ([], None) s ms"
proof -
  have "wrap64 (c_SMTPMaxMessageBytes (b_cfg B) + 1) = - (2 ^ 63)"
    unfolding assms by (simp add: wrap64_def)
  then have "read_limited (wrap64 (c_SMTPMaxMessageBytes (b_cfg B) + 1)) r =
      read_limited (wrap64 (c_SMTPMaxMessageBytes (b_cfg B) + 1)) ([], None)"
    by (cases r) simp
  then show ?thesis unfolding Data_def by (simp only:)
qed

section \<open>A concrete session\<close>

definition sample_server_config :: config where
  "sample_server_config = default_config
     \<lparr>c_SMTPAuthUsername := ''user'', c_SMTPAuthPassword := ''secret'', c_SMTPAllowedSenderDomains := [''x.org'']\<rparr>"

abbreviation sample_backend :: "table smtp_backend" where
  "sample_backend \<equiv> NewBackend sample_server_config (sqlite_queue sample_store (\<lambda>_. no_faults))
     (Transform sample_mime True) (parse_address sample_mime) (\<lambda>s. s) (\<lambda>s. s)"

definition sample_session :: session where
  "sample_session = \<lparr>s_ip = ''10.0.0.1'', authed = True, envelopeFrom = ''ann@x.org'',
     recipients = [''b@y.org'', ''c@y.org''], releasedToken = False\<rparr>"

abbreviation sample_ulid :: "nat \<Rightarrow> string" where
  "sample_ulid \<equiv> \<lambda>k. replicate (Suc k) CHR ''z''"

text \<open>The session's mail is accepted by any backend with that store and transformer and the default limit.\<close>

definition sample_queued :: table where
  "sample_queued =
     [queued_row ''z'' ''S'' ''ann@x.org'' ''b@y.org'' 7, queued_row ''zz'' ''S'' ''ann@x.org'' ''c@y.org'' 7]"

lemma sample_enqueue:
  "EnqueueTx sample_store no_faults sample_ulid 7 ''ann@x.org''
     [Some (sample_mail ''b@y.org''), Some (sample_mail ''c@y.org'')] [] = (sample_queued, Inr [''z'', ''zz''])"
  by code_simp

lemma sample_data:
  assumes "b_store B = sqlite_queue sample_store (\<lambda>_. no_faults)" and "b_transform B = Transform sample_mime True"
    and "c_SMTPMaxMessageBytes (b_cfg B) = 8 * 1024 * 1024"
  shows "Data B sample_ulid 7 (''0123456789'', None) sample_session (new_metrics, []) =
    ((new_metrics\<lparr>SMTPAcceptedRecipients := SMTPAcceptedRecipients new_metrics + 2\<rparr>, sample_queued), None)"
proof -
  have "wrap64 (8 * 1024 * 1024 + 1) = 8 * 1024 * 1024 + 1" by (rule wrap64_id) (simp add: in_int64_def)
  then show ?thesis
    using assms sample_transform sample_enqueue by (simp add: Data_def sample_session_def)
qed

theorem accepted_means_queued_witness:
  "\<exists>m' t' ids. Data sample_backend sample_ulid 7 (''0123456789'', None) sample_session (new_metrics, []) = ((m', t'), None) \<and>
     length ids = 2 \<and> distinct ids \<and> list_all (\<lambda>i. job_view t' i = Some (StatusQueued, 0)) ids"
proof -
  let ?run = "Data sample_backend sample_ulid 7 (''0123456789'', None) sample_session (new_metrics, [])"
  obtain m' t' e where run: "?run = ((m', t'), e)" by (metis surj_pair)
  have "c_SMTPMaxMessageBytes sample_server_config = 8 * 1024 * 1024" by code_simp
  with run have e: "e = None" using sample_data [of sample_backend] by simp
  have "store_inv []" by (simp add: store_inv_def)
  from accepted_means_queued [OF this run] e obtain ids where
      ids: "length ids = length (recipients sample_session)" "distinct ids"
      "\<forall>i. job_view t' i = (if i \<in> set ids then Some (StatusQueued, 0) else job_view [] i)"
    by auto
  then have "length ids = 2" "list_all (\<lambda>i. job_view t' i = Some (StatusQueued, 0)) ids"
    by (simp_all add: sample_session_def list_all_iff)
  with run e ids(2) show ?thesis by auto
qed

definition fresh_world :: "table smtp_world" where
  "fresh_world = \<lparr>w_session = new_session ''10.0.0.1'', w_metrics = new_metrics, w_store = []\<rparr>"

theorem session_safety_witness:
  "w_store (session_run sample_backend [CmdAuth ''PLAIN'' [] ''user'' ''guess'', CmdMail True ''ann@x.org'',
     CmdRcpt ''b@y.org'', CmdData sample_ulid 7 (''0123456789'', None)] fresh_world) = []"
proof -
  let ?cmds = "[CmdAuth ''PLAIN'' [] ''user'' ''guess'', CmdMail True ''ann@x.org'',
     CmdRcpt ''b@y.org'', CmdData sample_ulid 7 (''0123456789'', None)]"
  have "list_all (\<lambda>cmd. \<not> valid_login sample_backend cmd) ?cmds"
    by (simp add: valid_login_def sample_server_config_def)
  moreover have "w_session fresh_world = new_session ''10.0.0.1''" by (simp add: fresh_world_def)
  ultimately have "w_store (session_run sample_backend ?cmds fresh_world) = w_store fresh_world"
    using session_safety by blast
  then show ?thesis by (simp add: fresh_world_def)
qed

abbreviation sample_limited :: "int \<Rightarrow> table smtp_backend" where
  "sample_limited n \<equiv> NewBackend (sample_server_config\<lparr>c_SMTPMaxMessageBytes := n\<rparr>)
     (sqlite_queue sample_store (\<lambda>_. no_faults)) (Transform sample_mime False) (parse_address sample_mime)
     (\<lambda>s. s) (\<lambda>s. s)"

text \<open>Behind a protocol engine with the same limit, and behind one without.\<close>

theorem incomplete_or_oversized_mail_refused_witness:
  "Data (sample_limited 4) sample_ulid 7 (''0123'', Some ''message is too big'') sample_session (new_metrics, []) =
     ((inc_rejected ''read_error'' new_metrics, []), Some (SMTPError 451 [4, 3, 0] ''Read message failed'')) \<and>
   Data (sample_limited 4) sample_ulid 7 (''01234'', None) sample_session (new_metrics, []) =
     ((inc_rejected ''message_too_large'' new_metrics, []), Some (SMTPError 552 [5, 3, 4] ''Message too large''))"
  using incomplete_or_oversized_mail_refused [of sample_session "sample_limited 4" "''0123''"
      "Some ''message is too big''" sample_ulid 7 new_metrics "[]"]
    incomplete_or_oversized_mail_refused [of sample_session "sample_limited 4" "''01234''" None
      sample_ulid 7 new_metrics "[]"]
  by (simp add: sample_session_def)

end
