(* ===== verification/Dlq_Service.thy ===== *)
theory Dlq_Service
  imports Queue_Interface
begin

text \<open>
  The dead-letter tools (\<^verbatim>\<open>dlq/dlq.go\<close>): exporting dead-lettered jobs as JSON lines, reading job ids
  back from such a file or from a plain list, and replaying them.  JSON encoding and the file system
  are parameters.
\<close>

section \<open>Export\<close>

record ExportRecord =
  x_ID :: string
  x_EnvelopeFrom :: string
  x_RecipientEmail :: string
  x_AttemptCount :: int
  x_LastError :: string
  x_LastHTTPStatus :: int
  x_UpdatedAt :: go_time
  x_PayloadJSON :: string

definition export_record :: "job \<Rightarrow> ExportRecord" where
  "export_record j =
     \<lparr>x_ID = job_ID j, x_EnvelopeFrom = job_EnvelopeFrom j, x_RecipientEmail = job_RecipientEmail j,
      x_AttemptCount = job_AttemptCount j, x_LastError = job_LastError j,
      x_LastHTTPStatus = job_LastHTTPStatus j, x_UpdatedAt = job_UpdatedAt j,
      x_PayloadJSON = job_PayloadJSON j\<rparr>"

text \<open>
  \<open>write_error i\<close> is the error of the \<open>i\<close>-th buffered write, \<open>flushed\<close> what of the buffered bytes
  reaches the file when the deferred flush runs, whose error the code does not look at.
\<close>

record dlq_files =
  create_error :: "string \<Rightarrow> string option"
  write_error :: "nat \<Rightarrow> string option"
  flushed :: "string \<Rightarrow> string"
  marshal_record :: "ExportRecord \<Rightarrow> string + string"
  unmarshal_record :: "string \<Rightarrow> string option"

datatype dlq_error = StoreFailed store_error | FileError string | LineTooLong

fun export_lines :: "dlq_files \<Rightarrow> nat \<Rightarrow> job list \<Rightarrow> string \<Rightarrow> string \<times> dlq_error option" where
  "export_lines F i [] buf = (buf, None)"
| "export_lines F i (j # js) buf =
     (case marshal_record F (export_record j) of
        Inl e \<Rightarrow> (buf, Some (FileError e))
      | Inr b \<Rightarrow>
          (case write_error F i of
             Some e \<Rightarrow> (buf, Some (FileError e))
           | None \<Rightarrow> export_lines F (Suc i) js (buf @ b @ [CHR 0x0A])))"

text \<open>The result is the file, \<open>None\<close> when it was not created, and the number of records or the error.\<close>

definition ExportJSONL :: "'s queue_ops \<Rightarrow> dlq_files \<Rightarrow> go_time \<Rightarrow> string \<Rightarrow> int \<Rightarrow> 's \<Rightarrow>
    string option \<times> (dlq_error + nat)" where
  "ExportJSONL st F now outPath limit s =
     (case do_ListDLQ st now limit s of
        Inl e \<Rightarrow> (None, Inl (StoreFailed e))
      | Inr rows \<Rightarrow>
          (case create_error F outPath of
             Some e \<Rightarrow> (None, Inl (FileError (''create export file: '' @ e)))
           | None \<Rightarrow>
               (case export_lines F 0 rows [] of
                  (buf, Some e) \<Rightarrow> (Some (flushed F buf), Inl e)
                | (buf, None) \<Rightarrow> (Some (flushed F buf), Inr (length rows)))))"

definition ReplayIDs :: "'s queue_ops \<Rightarrow> go_time \<Rightarrow> string list \<Rightarrow> 's \<Rightarrow> 's \<times> (store_error + nat)" where
  "ReplayIDs st now ids s = (if length ids = 0 then (s, Inr 0) else do_RequeueDLQIDs st ids now s)"

section \<open>Reading ids\<close>

text \<open>
  \<^verbatim>\<open>bufio.Scanner\<close> with its default line splitting: lines end at a newline, a carriage return before
  it is dropped, a last empty line is none, and a line of 64 KiB or more stops the scan with an
  error.
\<close>

definition max_scan_token :: nat where "max_scan_token = 65536"

definition drop_cr :: "string \<Rightarrow> string" where
  "drop_cr s = (if s \<noteq> [] \<and> last s = CHR 0x0D then butlast s else s)"

definition scan_lines :: "string \<Rightarrow> dlq_error + string list" where
  "scan_lines content =
     (let ls = split_char CHR 0x0A content;
          ls = (if last ls = [] then butlast ls else ls)
      in if list_ex (\<lambda>l. length l \<ge> max_scan_token) ls then Inl LineTooLong else Inr (map drop_cr ls))"

definition line_id :: "dlq_files \<Rightarrow> string \<Rightarrow> string" where
  "line_id F line =
     (if HasPrefix line ''{''
      then (case unmarshal_record F line of
              Some i \<Rightarrow> if TrimSpace i \<noteq> [] then TrimSpace i else line
            | None \<Rightarrow> line)
      else line)"

text \<open>\<open>file\<close> is the content of the file or the error of opening or reading it.\<close>

definition ReadIDsFromFile :: "dlq_files \<Rightarrow> dlq_error + string \<Rightarrow> dlq_error + string list" where
  "ReadIDsFromFile F file =
     (case file of
        Inl e \<Rightarrow> Inl e
      | Inr content \<Rightarrow>
          (case scan_lines content of
             Inl e \<Rightarrow> Inl e
           | Inr lines \<Rightarrow> Inr (map (line_id F) (filter (\<lambda>l. l \<noteq> []) (map TrimSpace lines)))))"

section \<open>Properties\<close>

lemma split_char_append: "c \<notin> set w \<Longrightarrow> split_char c (w @ c # s) = w # split_char c s"
  by (induction w) auto

lemma export_lines_content:
  assumes "export_lines F i js buf = (out, None)"
  shows "\<exists>ls. list_all2 (\<lambda>j l. marshal_record F (export_record j) = Inr l) js ls \<and>
    out = buf @ concat (map (\<lambda>l. l @ [CHR 0x0A]) ls)"
  using assms
proof (induction F i js buf rule: export_lines.induct)
  case (2 F i j js buf)
  then obtain b where b: "marshal_record F (export_record j) = Inr b" "write_error F i = None"
      "export_lines F (Suc i) js (buf @ b @ [CHR 0x0A]) = (out, None)"
    by (auto split: sum.splits option.splits)
  with 2 obtain ls where "list_all2 (\<lambda>j l. marshal_record F (export_record j) = Inr l) js ls"
      "out = (buf @ b @ [CHR 0x0A]) @ concat (map (\<lambda>l. l @ [CHR 0x0A]) ls)" by blast
  with b show ?case by (intro exI [of _ "b # ls"]) simp
qed simp

lemma list_all2_memD2: "list_all2 P xs ys \<Longrightarrow> y \<in> set ys \<Longrightarrow> \<exists>x \<in> set xs. P x y"
  by (induction rule: list_all2_induct) auto

lemma split_exported:
  assumes "\<And>l. l \<in> set ls \<Longrightarrow> CHR 0x0A \<notin> set l"
  shows "split_char CHR 0x0A (concat (map (\<lambda>l. l @ [CHR 0x0A]) ls)) = ls @ [[]]"
  using assms by (induction ls) (simp_all add: split_char_append)

lemma scan_exported:
  assumes "\<And>l. l \<in> set ls \<Longrightarrow> CHR 0x0A \<notin> set l"
  shows "scan_lines (concat (map (\<lambda>l. l @ [CHR 0x0A]) ls)) =
    (if list_ex (\<lambda>l. length l \<ge> max_scan_token) ls then Inl LineTooLong else Inr (map drop_cr ls))"
  using split_exported [of ls] assms by (simp add: scan_lines_def Let_def)

text \<open>
  What reading an export back relies on of JSON, for the records it holds: an encoded record is one
  line that starts with a brace, has no white space around it, and decodes to the record's id.  Of
  \<^verbatim>\<open>encoding/json\<close> this holds for every record whose id is valid UTF-8, as the identifiers the relay
  makes are; an id that is not would come back with U+FFFD in place of the invalid bytes.
\<close>

definition json_lines :: "dlq_files \<Rightarrow> ExportRecord list \<Rightarrow> bool" where
  "json_lines F records \<longleftrightarrow>
     (\<forall>r \<in> set records. \<forall>l. marshal_record F r = Inr l \<longrightarrow>
        HasPrefix l ''{'' \<and> TrimSpace l = l \<and> CHR 0x0A \<notin> set l \<and> last l \<noteq> CHR 0x0D \<and>
        unmarshal_record F l = Some (x_ID r))"

lemma line_id_record:
  assumes "json_lines F [export_record j]" and "marshal_record F (export_record j) = Inr l"
    and "TrimSpace (job_ID j) = job_ID j" "job_ID j \<noteq> []"
  shows "line_id F (TrimSpace (drop_cr l)) = job_ID j" and "TrimSpace (drop_cr l) \<noteq> []"
proof -
  have l: "HasPrefix l ''{''" "TrimSpace l = l" "last l \<noteq> CHR 0x0D" "unmarshal_record F l = Some (job_ID j)"
    using assms(1,2) by (auto simp: json_lines_def export_record_def)
  then have "drop_cr l = l" by (simp add: drop_cr_def)
  with l assms(3,4) show "line_id F (TrimSpace (drop_cr l)) = job_ID j" by (simp add: line_id_def)
  show "TrimSpace (drop_cr l) \<noteq> []"
    using l \<open>drop_cr l = l\<close> by (auto simp: HasPrefix_def)
qed

lemma ids_of_lines:
  assumes "json_lines F (map export_record js)" and "list_all2 (\<lambda>j l. marshal_record F (export_record j) = Inr l) js ls"
    and "\<And>j. j \<in> set js \<Longrightarrow> TrimSpace (job_ID j) = job_ID j \<and> job_ID j \<noteq> []"
  shows "map (line_id F) (filter (\<lambda>l. l \<noteq> []) (map TrimSpace (map drop_cr ls))) = map job_ID js"
  using assms(2,1,3)
proof (induction rule: list_all2_induct)
  case (Cons j js l ls)
  then have "json_lines F [export_record j]" "json_lines F (map export_record js)"
    by (simp_all add: json_lines_def)
  with Cons line_id_record [OF _ Cons.hyps(1)] show ?case by simp
qed simp

lemma export_read_ids:
  assumes "do_ListDLQ st now limit s = Inr rows"
    and "ExportJSONL st F now outPath limit s = (Some content, Inr n)"
    and "flushed F = (\<lambda>b. b)" and "json_lines F (map export_record rows)"
    and "\<And>j. j \<in> set rows \<Longrightarrow> TrimSpace (job_ID j) = job_ID j \<and> job_ID j \<noteq> []"
  shows "n = length rows \<and>
    ReadIDsFromFile F (Inr content) =
      (if list_ex (\<lambda>j. case marshal_record F (export_record j) of
            Inr l \<Rightarrow> length l \<ge> max_scan_token | Inl _ \<Rightarrow> False) rows
       then Inl LineTooLong else Inr (map job_ID rows))"
proof -
  from assms(1-3) have run: "export_lines F 0 rows [] = (content, None)" and n: "n = length rows"
    by (auto simp: ExportJSONL_def split: option.splits prod.splits)
  obtain ls where ls: "list_all2 (\<lambda>j l. marshal_record F (export_record j) = Inr l) rows ls"
      "content = concat (map (\<lambda>l. l @ [CHR 0x0A]) ls)"
    using export_lines_content [OF run] by auto
  have "CHR 0x0A \<notin> set l" if l: "l \<in> set ls" for l
  proof -
    obtain j where "j \<in> set rows" "marshal_record F (export_record j) = Inr l"
      using list_all2_memD2 [OF ls(1) l] by blast
    with assms(4) show ?thesis by (auto simp: json_lines_def)
  qed
  note scan = scan_exported [of ls, OF this]
  have "list_ex (\<lambda>j. case marshal_record F (export_record j) of Inr l \<Rightarrow> length l \<ge> max_scan_token | Inl _ \<Rightarrow> False) rows =
      list_ex (\<lambda>l. length l \<ge> max_scan_token) ls"
    using ls(1) by (induction rule: list_all2_induct) auto
  with n scan ids_of_lines [OF assms(4) ls(1) assms(5)] show ?thesis
    unfolding ls(2) by (simp add: ReadIDsFromFile_def)
qed

text \<open>C38: Exported dead letters can be replayed: when an export succeeded and its bytes reached the
  file, and JSON encodes the exported records faithfully (\<^const>\<open>json_lines\<close>), reading the ids back
  from the file gives the ids of the exported jobs in order, unless a record takes 64 KiB or more; one such record makes the whole file unreadable for the replay.\<close>

theorem export_replay_roundtrip:
  assumes "do_ListDLQ st now limit s = Inr rows"
    and "ExportJSONL st F now outPath limit s = (Some content, Inr n)"
    and "flushed F = (\<lambda>b. b)" and "json_lines F (map export_record rows)"
    and "\<And>j. j \<in> set rows \<Longrightarrow> TrimSpace (job_ID j) = job_ID j \<and> job_ID j \<noteq> []"
  shows "n = length rows \<and>
    ReadIDsFromFile F (Inr content) =
      (if list_ex (\<lambda>j. case marshal_record F (export_record j) of
            Inr l \<Rightarrow> length l \<ge> max_scan_token | Inl _ \<Rightarrow> False) rows
       then Inl LineTooLong else Inr (map job_ID rows))"
  by (rule export_read_ids [OF assms])

section \<open>A concrete export\<close>

definition sample_files :: dlq_files where
  "sample_files =
     \<lparr>create_error = (\<lambda>_. None), write_error = (\<lambda>_. None), flushed = (\<lambda>b. b),
      marshal_record = (\<lambda>r. Inr (''{'' @ x_ID r @ ''}'')),
      unmarshal_record = (\<lambda>l. Some (butlast (tl l)))\<rparr>"

lemma sample_json:
  assumes "\<And>r. r \<in> set records \<Longrightarrow> x_ID r = ''b''"
  shows "json_lines sample_files records"
proof -
  have "TrimSpace ''{b}'' = ''{b}''" by code_simp
  then show ?thesis using assms by (auto simp: json_lines_def sample_files_def HasPrefix_def)
qed

abbreviation sample_dead :: table where
  "sample_dead \<equiv> update_where (mark_guard {''b''}) (dlq_set ''422'' 422 12) sample_leased"

theorem export_replay_roundtrip_witness:
  "ReadIDsFromFile sample_files (Inr (''{b}'' @ [CHR 0x0A])) = Inr [''b'']"
proof -
  let ?q = "sqlite_queue sample_store (\<lambda>_. no_faults)"
  obtain j where rows: "do_ListDLQ ?q 20 10 sample_dead = Inr [j]" and i: "job_ID j = ''b''"
  proof
    let ?j = "hd (projr (do_ListDLQ ?q 20 10 sample_dead))"
    show "do_ListDLQ ?q 20 10 sample_dead = Inr [?j]" "job_ID ?j = ''b''" by code_simp+
  qed
  have m: "marshal_record sample_files (export_record j) = Inr ''{b}''"
    using i by (simp add: sample_files_def export_record_def)
  then have x: "ExportJSONL ?q sample_files 20 ''out'' 10 sample_dead = (Some (''{b}'' @ [CHR 0x0A]), Inr 1)"
    unfolding ExportJSONL_def rows by (simp add: sample_files_def)
  have "TrimSpace ''b'' = ''b''" by code_simp
  then have "ReadIDsFromFile sample_files (Inr (''{b}'' @ [CHR 0x0A])) =
      (if list_ex (\<lambda>j. case marshal_record sample_files (export_record j) of
            Inr l \<Rightarrow> length l \<ge> max_scan_token | Inl _ \<Rightarrow> False) [j]
       then Inl LineTooLong else Inr (map job_ID [j]))"
    using export_replay_roundtrip [OF rows x _ sample_json] i by (simp add: sample_files_def export_record_def)
  then show ?thesis using m i by (simp add: max_scan_token_def)
qed

end
