(* ===== verification/Relay_Cli.thy ===== *)
theory Relay_Cli
  imports Dispatch_System Dispatch_Batches Smtp_Correct Dlq_Service
begin

text \<open>
  The health endpoints (\<^verbatim>\<open>httpops/server.go\<close>) and the command line (\<^verbatim>\<open>cmd/relay/main.go\<close>): the choice
  of the command, the start-up of the service, where configuration, store, dispatcher and SMTP
  server are put together, and the maintenance commands.  What the operating system, the flag
  parser and the libraries answer is the record \<open>system\<close>; a database is \<open>None\<close> as long as the jobs table
  was not created.
\<close>

section \<open>Health endpoints\<close>

datatype http_answer = HttpAnswer int string string

definition healthz :: http_answer where
  "healthz = HttpAnswer 200 ''application/json'' (''{\"status\":\"ok\"}'' @ [CHR 0x0A])"

text \<open>\<open>ping\<close> is the error of pinging the database, \<open>ready\<close> the dispatcher's readiness.\<close>

definition readyz :: "string option \<Rightarrow> bool \<Rightarrow> http_answer" where
  "readyz ping ready =
     (if ping \<noteq> None
      then HttpAnswer 503 ''text/plain; charset=utf-8'' (''{\"status\":\"db_unavailable\"}'' @ [CHR 0x0A])
      else if \<not> ready
      then HttpAnswer 503 ''text/plain; charset=utf-8'' (''{\"status\":\"dispatcher_not_ready\"}'' @ [CHR 0x0A])
      else HttpAnswer 200 ''application/json'' (''{\"status\":\"ready\"}'' @ [CHR 0x0A]))"

text \<open>
  The routes \<^verbatim>\<open>New\<close> registers; \<open>metrics_page\<close> is the answer of the Prometheus handler, \<open>unrouted\<close> that of
  \<^verbatim>\<open>http.ServeMux\<close> for any other path.
\<close>

definition ops_handler :: "http_answer \<Rightarrow> (string \<Rightarrow> http_answer) \<Rightarrow> string option \<Rightarrow> bool \<Rightarrow> string \<Rightarrow> http_answer" where
  "ops_handler metrics_page unrouted ping ready path =
     (if path = ''/metrics'' then metrics_page
      else if path = ''/healthz'' then healthz
      else if path = ''/readyz'' then readyz ping ready
      else unrouted path)"

text \<open>The server that \<^verbatim>\<open>New\<close> builds around that handler.\<close>

record ops_server =
  ops_Addr :: string
  ops_routes :: "string list"
  ops_ReadHeaderTimeout :: duration

definition httpops_New :: "string \<Rightarrow> ops_server" where
  "httpops_New addr =
     \<lparr>ops_Addr = addr, ops_routes = [''/metrics'', ''/healthz'', ''/readyz''],
      ops_ReadHeaderTimeout = 5 * second\<rparr>"

section \<open>Choosing the command\<close>

datatype command =
    Serve "string list"
  | MigrateCommand "string list"
  | DlqExport "string list"
  | DlqReplay "string list"
  | QueueRetryNow "string list"
  | Usage string
  | UnknownCommand string
  | UnknownDlqSubcommand string
  | UnknownQueueSubcommand string

definition runDLQ :: "string list \<Rightarrow> command" where
  "runDLQ args =
     (case args of
        [] \<Rightarrow> Usage ''usage: relay dlq export|replay''
      | a # rest \<Rightarrow>
          if a = ''export'' then DlqExport rest
          else if a = ''replay'' then DlqReplay rest
          else UnknownDlqSubcommand a)"

definition runQueue :: "string list \<Rightarrow> command" where
  "runQueue args =
     (case args of
        [] \<Rightarrow> Usage ''usage: relay queue retry-now''
      | a # rest \<Rightarrow> if a = ''retry-now'' then QueueRetryNow rest else UnknownQueueSubcommand a)"

definition run :: "string list \<Rightarrow> command" where
  "run args =
     (case args of
        [] \<Rightarrow> Serve []
      | a # rest \<Rightarrow>
          if a = ''serve'' then Serve rest
          else if a = ''migrate'' then MigrateCommand rest
          else if a = ''dlq'' then runDLQ rest
          else if a = ''queue'' then runQueue rest
          else UnknownCommand a)"

section \<open>Small helpers\<close>

fun unique_loop :: "string list \<Rightarrow> string set \<Rightarrow> string list \<Rightarrow> string list" where
  "unique_loop [] seen out = out"
| "unique_loop (i # ids) seen out =
     (if i \<in> seen then unique_loop ids seen out else unique_loop ids (insert i seen) (out @ [i]))"

definition uniqueIDs :: "string list \<Rightarrow> string list" where
  "uniqueIDs ids = unique_loop ids {} []"

definition hostnameOr :: "string + string \<Rightarrow> string \<Rightarrow> string" where
  "hostnameOr hostname dflt =
     (case hostname of Inl e \<Rightarrow> dflt | Inr h \<Rightarrow> if TrimSpace h = [] then dflt else h)"

section \<open>Logging\<close>

text \<open>
  \<^verbatim>\<open>logging.New\<close>: the settings it hands to zap.  \<open>unmarshal\<close> is \<^verbatim>\<open>zapcore.Level.UnmarshalText\<close>, \<open>None\<close> its error;
  a level that it does not know is \<^verbatim>\<open>info\<close>.
\<close>

record log_settings =
  log_Encoding :: string
  log_TimeKey :: string
  log_MessageKey :: string
  log_LevelKey :: string
  log_CallerKey :: string
  log_EncodeTime :: string
  log_Level :: string

definition logging_New :: "(string \<Rightarrow> string) \<Rightarrow> (string \<Rightarrow> string option) \<Rightarrow> string \<Rightarrow> log_settings" where
  "logging_New U unmarshal level =
     \<lparr>log_Encoding = ''json'', log_TimeKey = ''ts'', log_MessageKey = ''msg'', log_LevelKey = ''level'',
      log_CallerKey = ''caller'', log_EncodeTime = ''ISO8601'',
      log_Level = (case unmarshal (ToLower U (TrimSpace level)) of None \<Rightarrow> ''info'' | Some l \<Rightarrow> l)\<rparr>"

section \<open>The system around the commands\<close>

record system =
  sys_flag_error :: "string option"
  sys_env :: environment
  sys_lower :: "string \<Rightarrow> string"
  sys_upper :: "string \<Rightarrow> string"
  sys_level :: "string \<Rightarrow> string option"
  sys_build_logger :: "log_settings \<Rightarrow> string option"
  sys_hostname :: "string + string"
  sys_pid :: int
  sys_mkdir :: "string option"
  sys_dir :: "string \<Rightarrow> string"
  sys_open_db :: "string \<Rightarrow> string option"
  sys_store :: sqlite_store
  sys_faults :: "store_op \<Rightarrow> db_faults"
  sys_migrate_faults :: db_faults
  sys_now :: go_time
  sys_http :: http_externals
  sys_load_pair :: "string \<Rightarrow> string \<Rightarrow> string + string"
  sys_mime :: mime_externals
  sys_files :: dlq_files
  sys_read_file :: "string \<Rightarrow> dlq_error + string"

datatype cli_error =
    FlagError string
  | ConfigFailed config_error
  | LoggerFailed string
  | OpenFailed open_error
  | MigrationFailed store_error
  | SenderFailed string
  | SmtpFailed string
  | StoreOpFailed store_error
  | DlqFailed dlq_error
  | UnsupportedFormat string
  | IdsRequired
  | NoValidIds

type_synonym database = "table option"

definition no_such_table :: store_error where
  "no_such_table = DbError ''no such table: jobs''"

text \<open>Loading the configuration and opening the store, as every command does.\<close>

definition open_store :: "system \<Rightarrow> string \<Rightarrow> cli_error + config \<times> sqlite_store" where
  "open_store sys worker =
     (case LoadFromEnv (sys_lower sys) (sys_env sys) of
        Inl e \<Rightarrow> Inl (ConfigFailed e)
      | Inr c \<Rightarrow>
          (case OpenSQLite (sys_mkdir sys) (sys_dir sys (c_DBPath c)) (sys_open_db sys) (sys_store sys)
                  (c_DBPath c) worker of
             Inl e \<Rightarrow> Inl (OpenFailed e)
           | Inr S \<Rightarrow> Inr (c, S)))"

section \<open>serve\<close>

definition dispatch_config_of :: "config \<Rightarrow> dispatch_config" where
  "dispatch_config_of c =
     \<lparr>Workers = c_DispatcherWorkers c, QueueClaimLimit = c_QueueClaimLimit c,
      QueueLeaseTimeout = c_QueueLeaseTimeout c, BatchMaxCount = EffectiveBatchMaxCount c,
      BatchMaxBytes = c_BatchMaxBytes c, BatchFlushInterval = c_BatchFlushInterval c,
      RetryMaxAttempts = c_RetryMaxAttempts c, RequeueStaleEvery = c_RequeueStaleInterval c,
      QueueDepthPollEvery = 2 * second\<rparr>"

definition worker_id :: "system \<Rightarrow> string" where
  "worker_id sys = hostnameOr (sys_hostname sys) ''relay'' @ ''-'' @ Itoa (sys_pid sys)"

record service =
  svc_config :: config
  svc_dispatcher :: "table dispatcher"
  svc_backend :: "table smtp_backend"
  svc_smtp :: smtp_settings
  svc_http :: ops_server
  svc_goroutines :: "goroutine list"
  svc_state :: "table dispatch_state"

text \<open>Recovery of expired leases at startup; a failure is only logged.\<close>

definition startup_requeue :: "table dispatcher \<Rightarrow> go_time \<Rightarrow> duration \<Rightarrow> table \<Rightarrow> metrics \<Rightarrow> table \<times> metrics" where
  "startup_requeue D now lease t m =
     (case do_RequeueStaleProcessing (store D) now lease t of
        (t', Inl e) \<Rightarrow> (t', m)
      | (t', Inr n) \<Rightarrow>
          (t', if n > 0 then m\<lparr>RequeueStaleRecoveries := RequeueStaleRecoveries m + n\<rparr> else m))"

definition runServe :: "system \<Rightarrow> database \<Rightarrow> database \<times> (cli_error + service)" where
  "runServe sys db =
     (if sys_flag_error sys \<noteq> None then (db, Inl (FlagError (the (sys_flag_error sys))))
      else case LoadFromEnv (sys_lower sys) (sys_env sys) of
        Inl e \<Rightarrow> (db, Inl (ConfigFailed e))
      | Inr c \<Rightarrow>
      (case ValidateServe c of
        Some e \<Rightarrow> (db, Inl (ConfigFailed e))
      | None \<Rightarrow>
      (case sys_build_logger sys (logging_New (sys_lower sys) (sys_level sys) (c_LogLevel c)) of
        Some e \<Rightarrow> (db, Inl (LoggerFailed e))
      | None \<Rightarrow>
      (case OpenSQLite (sys_mkdir sys) (sys_dir sys (c_DBPath c)) (sys_open_db sys) (sys_store sys)
              (c_DBPath c) (worker_id sys) of
        Inl e \<Rightarrow> (db, Inl (OpenFailed e))
      | Inr S \<Rightarrow>
      (case Migrate (sys_migrate_faults sys) db of
        (db', Some e) \<Rightarrow> (db', Inl (MigrationFailed e))
      | (db', None) \<Rightarrow>
      (case NewMailerSendSender (sys_http sys) (c_MailersendAPIKey c) (c_MailersendBaseURL c)
              (c_MailersendTimeout c) of
        Inl e \<Rightarrow> (db', Inl (SenderFailed e))
      | Inr M \<Rightarrow>
      (let q = sqlite_queue S (sys_faults sys);
           D = New (dispatch_config_of c) q (Send (sys_http sys) M)
                 (Some (NewRequestLimiter (c_MailersendBulkAPIMaxRequestsPerMin c)));
           (t, m) = startup_requeue D (sys_now sys) (c_QueueLeaseTimeout c)
                      (case db' of None \<Rightarrow> [] | Some t \<Rightarrow> t) new_metrics
       in case New_Server (sys_load_pair sys) c of
            Inl e \<Rightarrow> (Some t, Inl (SmtpFailed e))
          | Inr srv \<Rightarrow>
              (Some t, Inr
                \<lparr>svc_config = c, svc_dispatcher = D,
                 svc_backend = NewBackend c q (Transform (sys_mime sys) (c_MailersendEnableCustomHeaders c))
                   (parse_address (sys_mime sys)) (sys_lower sys) (sys_upper sys),
                 svc_smtp = srv, svc_http = httpops_New (c_HTTPListenAddr c), svc_goroutines = Start (dispatch_config_of c),
                 svc_state = \<lparr>store_state = t, metrics_state = m, lastHeartbeat = 0\<rparr>\<rparr>))))))))"

text \<open>
  The rest of \<^verbatim>\<open>runServe\<close>: it waits for the signal or for the error of one of the two servers (the error
  with which a server ends because it was shut down does not count), and then shuts everything down
  in this order.  It returns nil in both cases.
\<close>

datatype serve_event = ShutdownSignal | ServerFailed string

datatype shutdown_step = CancelContext | ShutdownSmtp | ShutdownHttp | WaitDispatcher

definition server_event :: "string \<Rightarrow> string option \<Rightarrow> string \<Rightarrow> serve_event option" where
  "server_event name result err_closed =
     (case result of
        None \<Rightarrow> None
      | Some e \<Rightarrow> if e = err_closed then None else Some (ServerFailed (name @ '': '' @ e)))"

definition serve_shutdown :: "serve_event \<Rightarrow> shutdown_step list \<times> cli_error option" where
  "serve_shutdown ev =
     ((case ev of ShutdownSignal \<Rightarrow> [] | ServerFailed e \<Rightarrow> [CancelContext]) @
        [ShutdownSmtp, ShutdownHttp, WaitDispatcher], None)"

text \<open>\<^verbatim>\<open>main\<close>: the exit status.\<close>

definition main_exit :: "cli_error option \<Rightarrow> int" where
  "main_exit err = (case err of None \<Rightarrow> 0 | Some e \<Rightarrow> 1)"

section \<open>Maintenance commands\<close>

definition runMigrate :: "system \<Rightarrow> database \<Rightarrow> database \<times> (cli_error + unit)" where
  "runMigrate sys db =
     (if sys_flag_error sys \<noteq> None then (db, Inl (FlagError (the (sys_flag_error sys))))
      else case open_store sys ''migration'' of
        Inl e \<Rightarrow> (db, Inl e)
      | Inr (c, S) \<Rightarrow>
          (case Migrate (sys_migrate_faults sys) db of
             (db', Some e) \<Rightarrow> (db', Inl (MigrationFailed e))
           | (db', None) \<Rightarrow> (db', Inr ())))"

text \<open>\<^verbatim>\<open>dlq export\<close> with its three flags; the result is the exported file and the count.\<close>

definition runDLQExport :: "system \<Rightarrow> string \<Rightarrow> string \<Rightarrow> int \<Rightarrow> database \<Rightarrow>
    string option \<times> (cli_error + nat)" where
  "runDLQExport sys out format limit db =
     (if sys_flag_error sys \<noteq> None then (None, Inl (FlagError (the (sys_flag_error sys))))
      else if ToLower (sys_lower sys) (TrimSpace format) \<noteq> ''jsonl'' then (None, Inl (UnsupportedFormat format))
      else case open_store sys ''dlq-export'' of
        Inl e \<Rightarrow> (None, Inl e)
      | Inr (c, S) \<Rightarrow>
          (case db of
             None \<Rightarrow> (None, Inl (DlqFailed (StoreFailed no_such_table)))
           | Some t \<Rightarrow>
               (case ExportJSONL (sqlite_queue S (sys_faults sys)) (sys_files sys) (sys_now sys) out limit t of
                  (file, Inl e) \<Rightarrow> (file, Inl (DlqFailed e))
                | (file, Inr n) \<Rightarrow> (file, Inr n))))"

text \<open>The ids of \<^verbatim>\<open>dlq replay\<close> from its two flags.\<close>

definition csv_ids :: "string \<Rightarrow> string list" where
  "csv_ids idsCSV =
     (if TrimSpace idsCSV \<noteq> []
      then filter (\<lambda>p. p \<noteq> []) (map TrimSpace (split_char CHR '','' idsCSV)) else [])"

definition replay_ids :: "system \<Rightarrow> string \<Rightarrow> string \<Rightarrow> cli_error + string list" where
  "replay_ids sys idsCSV fromFile =
     (if TrimSpace idsCSV = [] \<and> TrimSpace fromFile = [] then Inl IdsRequired
      else let from_file = (if TrimSpace fromFile \<noteq> []
                            then ReadIDsFromFile (sys_files sys) (sys_read_file sys fromFile) else Inr [])
           in case from_file of
                Inl e \<Rightarrow> Inl (DlqFailed e)
              | Inr fromIDs \<Rightarrow>
                  (let ids = uniqueIDs (csv_ids idsCSV @ fromIDs)
                   in if length ids = 0 then Inl NoValidIds else Inr ids))"

definition runDLQReplay :: "system \<Rightarrow> string \<Rightarrow> string \<Rightarrow> database \<Rightarrow> database \<times> (cli_error + nat)" where
  "runDLQReplay sys idsCSV fromFile db =
     (if sys_flag_error sys \<noteq> None then (db, Inl (FlagError (the (sys_flag_error sys))))
      else case replay_ids sys idsCSV fromFile of
        Inl e \<Rightarrow> (db, Inl e)
      | Inr ids \<Rightarrow>
      (case open_store sys ''dlq-replay'' of
        Inl e \<Rightarrow> (db, Inl e)
      | Inr (c, S) \<Rightarrow>
          (case db of
             None \<Rightarrow> (db, Inl (StoreOpFailed no_such_table))
           | Some t \<Rightarrow>
               (case ReplayIDs (sqlite_queue S (sys_faults sys)) (sys_now sys) ids t of
                  (t', Inl e) \<Rightarrow> (Some t', Inl (StoreOpFailed e))
                | (t', Inr n) \<Rightarrow> (Some t', Inr n)))))"

definition runQueueRetryNow :: "system \<Rightarrow> database \<Rightarrow> database \<times> (cli_error + nat)" where
  "runQueueRetryNow sys db =
     (if sys_flag_error sys \<noteq> None then (db, Inl (FlagError (the (sys_flag_error sys))))
      else case open_store sys ''queue-retry-now'' of
        Inl e \<Rightarrow> (db, Inl e)
      | Inr (c, S) \<Rightarrow>
          (case db of
             None \<Rightarrow> (db, Inl (StoreOpFailed no_such_table))
           | Some t \<Rightarrow>
               (case do_RetryNow (sqlite_queue S (sys_faults sys)) (sys_now sys) t of
                  (t', Inl e) \<Rightarrow> (Some t', Inl (StoreOpFailed e))
                | (t', Inr n) \<Rightarrow> (Some t', Inr n))))"

section \<open>What a started service is made of\<close>

definition service_store :: "system \<Rightarrow> sqlite_store" where
  "service_store sys = (sys_store sys)\<lparr>workerID := worker_id sys\<rparr>"

lemma OpenSQLite_Inr: "OpenSQLite mk dir op env path w = Inr S \<Longrightarrow> S = env\<lparr>workerID := w\<rparr>"
  by (auto simp: OpenSQLite_def split: option.splits if_splits)

lemma runServe_parts:
  assumes "runServe sys db = (db', Inr svc)"
  obtains M where "LoadFromEnv (sys_lower sys) (sys_env sys) = Inr (svc_config svc)"
    "ValidateServe (svc_config svc) = None"
    "NewMailerSendSender (sys_http sys) (c_MailersendAPIKey (svc_config svc))
       (c_MailersendBaseURL (svc_config svc)) (c_MailersendTimeout (svc_config svc)) = Inr M"
    "svc_dispatcher svc = New (dispatch_config_of (svc_config svc))
       (sqlite_queue (service_store sys) (sys_faults sys)) (Send (sys_http sys) M)
       (Some (NewRequestLimiter (c_MailersendBulkAPIMaxRequestsPerMin (svc_config svc))))"
    "svc_backend svc = NewBackend (svc_config svc) (sqlite_queue (service_store sys) (sys_faults sys))
       (Transform (sys_mime sys) (c_MailersendEnableCustomHeaders (svc_config svc)))
       (parse_address (sys_mime sys)) (sys_lower sys) (sys_upper sys)"
    "svc_goroutines svc = Start (dispatch_config_of (svc_config svc))"
    "db' = Some (store_state (svc_state svc))"
  using assms unfolding runServe_def service_store_def
  by (auto simp: Let_def dest!: OpenSQLite_Inr split: if_splits sum.splits option.splits prod.splits)

lemma dispatch_config_of_simps [simp]:
  "Workers (dispatch_config_of c) = c_DispatcherWorkers c"
  "QueueClaimLimit (dispatch_config_of c) = c_QueueClaimLimit c"
  "QueueLeaseTimeout (dispatch_config_of c) = c_QueueLeaseTimeout c"
  "BatchMaxCount (dispatch_config_of c) = EffectiveBatchMaxCount c"
  "BatchMaxBytes (dispatch_config_of c) = c_BatchMaxBytes c"
  "BatchFlushInterval (dispatch_config_of c) = c_BatchFlushInterval c"
  "RetryMaxAttempts (dispatch_config_of c) = c_RetryMaxAttempts c"
  "RequeueStaleEvery (dispatch_config_of c) = c_RequeueStaleInterval c"
  "QueueDepthPollEvery (dispatch_config_of c) = 2 * second"
  by (simp_all add: dispatch_config_of_def)

text \<open>A server that cannot listen ends the process with status 0, like a signal.\<close>

lemma failed_server_exits_zero: "main_exit (snd (serve_shutdown (ServerFailed e))) = 0"
  by (simp add: main_exit_def serve_shutdown_def)

section \<open>Removing duplicate identifiers\<close>

lemma remdups_snoc: "remdups (xs @ [x]) = filter (\<lambda>y. y \<noteq> x) (remdups xs) @ [x]"
  by (induction xs) auto

text \<open>The loop keeps the first occurrence of each identifier that was not seen before.\<close>

lemma unique_loop_spec:
  "unique_loop ids seen out = out @ filter (\<lambda>i. i \<notin> seen) (rev (remdups (rev ids)))"
proof (induction ids seen out rule: unique_loop.induct)
  case (2 i ids seen out)
  then show ?case
    by (auto simp: remdups_snoc rev_filter [symmetric] intro: filter_cong)
qed simp

lemma uniqueIDs_eq: "uniqueIDs ids = rev (remdups (rev ids))"
  by (simp add: uniqueIDs_def unique_loop_spec)

section \<open>Listing and replaying dead letters\<close>

definition dead_job :: "sqlite_store \<Rightarrow> go_time \<Rightarrow> job_row \<Rightarrow> job" where
  "dead_job S now r = (scan_row S now r)\<lparr>job_Message :=
     (case unmarshal_message S (row_payload_json r) of Inl _ \<Rightarrow> None | Inr m \<Rightarrow> Some m)\<rparr>"

lemma dead_job_id [simp]: "job_ID (dead_job S now r) = row_id r"
  by (simp add: dead_job_def scan_row_def)

text \<open>The record an export holds of a dead-lettered row.\<close>

definition dead_record :: "job_row \<Rightarrow> ExportRecord" where
  "dead_record r =
     \<lparr>x_ID = row_id r, x_EnvelopeFrom = row_envelope_from r, x_RecipientEmail = row_recipient_email r,
      x_AttemptCount = row_attempt_count r, x_LastError = (case row_last_error r of None \<Rightarrow> [] | Some e \<Rightarrow> e),
      x_LastHTTPStatus = (case row_last_http_status r of None \<Rightarrow> 0 | Some c \<Rightarrow> c),
      x_UpdatedAt = row_updated_at r, x_PayloadJSON = row_payload_json r\<rparr>"

lemma export_dead_job [simp]: "export_record (dead_job S now r) = dead_record r"
  by (simp add: export_record_def dead_job_def scan_row_def dead_record_def datetime_def)

lemma scanJobs_no_faults: "scanJobs S no_faults now i rs out = Inr (out @ map (dead_job S now) rs)"
  by (induction rs arbitrary: i out) (simp_all add: dead_job_def)

definition effective_limit :: "int \<Rightarrow> nat" where
  "effective_limit limit = nat (if limit \<le> 0 then 1000 else limit)"

lemma ListDLQ_complete:
  assumes "length (filter (\<lambda>r. row_status r = StatusDLQ) t) \<le> effective_limit limit"
  shows "\<exists>rs. ListDLQ S no_faults now limit t = Inr (map (dead_job S now) rs) \<and>
     mset rs = mset (filter (\<lambda>r. row_status r = StatusDLQ) t)"
proof -
  let ?rs = "sort_key (\<lambda>r. - row_updated_at r) (visit S (filter (\<lambda>r. row_status r = StatusDLQ) t))"
  have m: "mset ?rs = mset (filter (\<lambda>r. row_status r = StatusDLQ) t)" by (simp add: visit_mset)
  then have "length ?rs \<le> effective_limit limit" using assms mset_eq_length by metis
  then have "ListDLQ S no_faults now limit t = Inr (map (dead_job S now) ?rs)"
    by (simp add: ListDLQ_def Let_def scanJobs_no_faults effective_limit_def)
  with m show ?thesis by blast
qed

lemma replay_all:
  assumes "\<And>r. r \<in> set t \<Longrightarrow> row_status r = StatusDLQ \<Longrightarrow> row_id r \<in> TrimSpace ` set ids" and "ids \<noteq> []"
  shows "RequeueDLQIDs no_faults ids now t =
    (map (\<lambda>r. if row_status r = StatusDLQ then requeue_dlq_set now r else r) t,
     Inr (length (filter (\<lambda>r. row_status r = StatusDLQ) t)))"
proof -
  have g: "dlq_guard (map TrimSpace ids) r \<longleftrightarrow> row_status r = StatusDLQ" if "r \<in> set t" for r
    using assms(1) [OF that] by (auto simp: dlq_guard_def)
  then have "filter (dlq_guard (map TrimSpace ids)) t = filter (\<lambda>r. row_status r = StatusDLQ) t"
    by (rule filter_cong [OF refl])
  with assms(2) g show ?thesis
    by (auto simp: RequeueDLQIDs_def exec_update_no_faults update_where_def)
qed

lemma open_store_worker:
  "open_store sys w = Inr (c, S) \<Longrightarrow>
     open_store (sys\<lparr>sys_now := now\<rparr>) w' = Inr (c, S\<lparr>workerID := w'\<rparr>)"
  by (auto simp: open_store_def OpenSQLite_def split: sum.splits option.splits if_splits)

lemma runDLQExport_ok:
  assumes "runDLQExport sys out format limit (Some t) = (file, Inr n)"
  obtains c S where "sys_flag_error sys = None" "open_store sys ''dlq-export'' = Inr (c, S)"
    "ExportJSONL (sqlite_queue S (sys_faults sys)) (sys_files sys) (sys_now sys) out limit t = (file, Inr n)"
  using assms unfolding runDLQExport_def
  by (auto split: if_splits sum.splits prod.splits)

lemma scan_lines_short:
  assumes "list_all (\<lambda>l. length l < max_scan_token) (split_char CHR 0x0A content)"
  shows "scan_lines content \<noteq> Inl LineTooLong"
proof -
  have "\<not> list_ex (\<lambda>l. length l \<ge> max_scan_token) ls"
    if "set ls \<subseteq> set (split_char CHR 0x0A content)" for ls
    using that assms by (fastforce simp: list_all_iff list_ex_iff)
  then show ?thesis by (auto simp: scan_lines_def Let_def dest: in_set_butlastD)
qed

text \<open>The identifiers \<^verbatim>\<open>dlq replay --from-file\<close> takes from an exported file.\<close>

lemma replay_ids_exported:
  assumes "ReadIDsFromFile (sys_files sys) (sys_read_file sys file) = Inr ids" and "ids \<noteq> []"
    and "TrimSpace file \<noteq> []"
  shows "replay_ids sys [] file = Inr (uniqueIDs ids) \<and> set (uniqueIDs ids) = set ids \<and> uniqueIDs ids \<noteq> []"
proof -
  have "TrimSpace [] = []" by code_simp
  with assms show ?thesis by (simp add: replay_ids_def csv_ids_def uniqueIDs_eq Let_def)
qed

end
