(* ===== verification/Dispatch_Liveness.thy ===== *)
theory Dispatch_Liveness
  imports Dispatch_Batches Dispatch_System
begin

text \<open>
  Progress: with a store that does not fail, payloads that decode and a MailerSend that accepts, a
  worker drains the queue.  Every pass of its loop delivers at least one due job as long as there
  is one, and never disturbs the others.
\<close>

definition due_ids :: "go_time \<Rightarrow> table \<Rightarrow> string set" where
  "due_ids now t = {row_id r |r. r \<in> set t \<and> claimable now r}"

definition decodable :: "sqlite_store \<Rightarrow> table \<Rightarrow> bool" where
  "decodable S t \<longleftrightarrow> list_all (\<lambda>r. case unmarshal_message S (row_payload_json r) of Inr _ \<Rightarrow> True | Inl _ \<Rightarrow> False) t"

section \<open>A claim without faults\<close>

lemma scan_claimed_ok:
  "decodable S rs \<Longrightarrow> \<exists>out. scan_claimed S no_faults now i rs acc = Inr out"
proof (induction rs arbitrary: i acc)
  case (Cons r rs)
  then show ?case by (auto simp: decodable_def split: sum.splits)
qed simp

lemma decodable_subset: "decodable S t \<Longrightarrow> set rs \<subseteq> set t \<Longrightarrow> decodable S rs"
  by (auto simp: decodable_def list_all_iff)

lemma update_where_payload:
  "(\<And>r. row_payload_json (u r) = row_payload_json r) \<Longrightarrow> decodable S t \<Longrightarrow> decodable S (update_where g u t)"
  by (auto simp: decodable_def list_all_iff update_where_def)

lemma claim_candidates_empty:
  assumes "0 < limit"
  shows "claim_candidates S now limit t = [] \<longleftrightarrow> due_ids now t = {}"
proof -
  have "length (visit S (filter (claimable now) t)) = length (filter (claimable now) t)"
    by (rule mset_eq_length [OF visit_mset])
  then have "visit S (filter (claimable now) t) = [] \<longleftrightarrow> filter (claimable now) t = []"
    by (metis length_0_conv)
  moreover have "claim_candidates S now limit t = [] \<longleftrightarrow> visit S (filter (claimable now) t) = []"
    using assms unfolding claim_candidates_def take_eq_Nil
    by (simp flip: set_empty)
  ultimately show ?thesis by (auto simp: due_ids_def filter_empty_conv)
qed

text \<open>It hands out at least one due job when there is one, and leases exactly what it hands out.\<close>

lemma claim_no_faults:
  assumes "store_inv t" and "decodable S t" and "0 < limit"
  obtains t' jobs where
    "ClaimDispatchBatch S no_faults now limit lease mc mb t = (t', Inr jobs)"
    "job_ID ` set jobs \<subseteq> due_ids now t" "due_ids now t \<noteq> {} \<Longrightarrow> jobs \<noteq> []"
    "t' = update_where (claim_guard now (map job_ID jobs)) (claim_set (workerID S) now) t"
proof -
  let ?stop = "batch_full (default_max_count mc) (default_max_bytes mb)"
  let ?rs = "claim_candidates S now limit t"
  let ?first = "first_run (default_max_count mc) (default_max_bytes mb) (map (scan_row S now) ?rs) [] 0"
  let ?ids = "map job_ID ?first"
  let ?t = "update_where (claim_guard now ?ids) (claim_set (workerID S) now) t"
  have dist: "distinct (map row_id t)" using assms(1) by (simp add: store_inv_def)
  have pick: "pick_ids no_faults ?stop 0 ?rs [] 0 = Inr ?ids"
    using pick_ids_first_run [of "default_max_count mc" "default_max_bytes mb" 0 ?rs "[]" 0 S now] by simp
  obtain k where k: "?ids = map row_id (take k ?rs)" using first_run_ids by blast
  show thesis
  proof (cases "?rs = []")
    case True
    then have "claimJobs S no_faults now limit ?stop t = (t, Inr [])"
      using assms(3) by (simp add: claimJobs_def)
    moreover have "update_where (claim_guard now []) (claim_set (workerID S) now) t = t"
      by (rule update_where_none) (simp add: claim_guard_def)
    ultimately show thesis
      using that [of t "[]"] True claim_candidates_empty [OF assms(3), of S now t]
      by (simp add: ClaimDispatchBatch_def)
  next
    case False
    then obtain r rs where "?rs = r # rs" by (cases ?rs) auto
    then have ne: "?ids \<noteq> []"
      using first_run_extends [of "default_max_count mc" "default_max_bytes mb" "map (scan_row S now) rs"
          "[scan_row S now r]" "job_bytes (job_PayloadJSON (scan_row S now r))"]
      by (auto simp: batch_full_def Let_def)
    have "set (claimed_rows S ?ids ?t) \<subseteq> set ?t" by (auto simp: claimed_rows_def)
    then have "decodable S (claimed_rows S ?ids ?t)"
      by (rule decodable_subset [OF update_where_payload [OF claim_set_keeps(1) assms(2)]])
    then obtain jobs where scan: "scan_claimed S no_faults now 0 (claimed_rows S ?ids ?t) [] = Inr jobs"
      using scan_claimed_ok by blast
    have run: "ClaimDispatchBatch S no_faults now limit lease mc mb t = (?t, Inr jobs)"
      using assms(3) pick ne scan unfolding ClaimDispatchBatch_def claimJobs_def by (simp add: Let_def)
    have out: "claim_outcome S no_faults now limit t (take k ?rs) ?t jobs"
      using scan_claimed_Inr [OF scan] unfolding claim_outcome_def k by auto
    obtain cs where cs: "jobs = map (claimed_job S now) cs"
        "set cs = claim_set (workerID S) now ` set (take k ?rs)"
      using claim_outcome_jobs [OF out dist] by auto
    have ids: "job_ID ` set jobs = set ?ids" unfolding k using cs by (auto simp: image_iff)
    have "set ?ids \<subseteq> due_ids now t"
      unfolding k due_ids_def using claim_outcome_picked(1) [OF out dist] by auto
    moreover have "claim_guard now (map job_ID jobs) = claim_guard now ?ids"
      using ids by (simp add: claim_guard_def fun_eq_iff)
    moreover have "jobs \<noteq> []" using ids ne by auto
    ultimately show thesis using that [OF run] ids by simp
  qed
qed

section \<open>One pass of the worker\<close>

definition pending :: "job_row \<Rightarrow> bool" where
  "pending r \<longleftrightarrow> row_status r = StatusQueued \<or> row_status r = StatusRetry"

text \<open>What passes of the loop may do to a row: nothing, or deliver a pending job.\<close>

definition row_progress :: "job_row \<Rightarrow> job_row \<Rightarrow> bool" where
  "row_progress r r' \<longleftrightarrow> row_identity r' = row_identity r \<and>
     (r' = r \<or> pending r \<and> row_status r' = StatusSent \<and> row_attempt_count r' = row_attempt_count r + 1)"

lemma row_progress_refl [simp]: "row_progress r r"
  by (simp add: row_progress_def)

lemma row_progress_trans: "row_progress r r' \<Longrightarrow> row_progress r' r'' \<Longrightarrow> row_progress r r''"
  by (auto simp: row_progress_def pending_def)

lemma progress_trans:
  "list_all2 row_progress t t' \<Longrightarrow> list_all2 row_progress t' t'' \<Longrightarrow> list_all2 row_progress t t''"
  by (rule list_all2_trans [OF row_progress_trans])

lemma progress_refl: "list_all2 row_progress t t"
  by (rule list_all2_refl) simp

lemma progress_decodable: "list_all2 row_progress t t' \<Longrightarrow> decodable S t \<Longrightarrow> decodable S t'"
  by (induction rule: list_all2_induct) (auto simp: decodable_def row_progress_def row_identity_def)

lemma due_claimable:
  assumes "distinct (map row_id t)" and "r \<in> set t" and "row_id r \<in> due_ids ct t"
  shows "claimable ct r"
proof -
  obtain r' where "r' \<in> set t" "row_id r' = row_id r" "claimable ct r'"
    using assms(3) by (auto simp: due_ids_def)
  moreover from this have "r' = r" using assms(1,2) by (auto simp: distinct_map inj_on_def)
  ultimately show ?thesis by simp
qed

text \<open>The claim followed by the mark is one update of the jobs handed out.\<close>

lemma claim_then_mark:
  assumes "distinct (map row_id t)" and "set ids \<subseteq> due_ids ct t"
  shows "update_where (mark_guard (set ids)) (sent_set b now) (update_where (claim_guard ct ids) (claim_set w ct) t)
       = update_where (\<lambda>r. row_id r \<in> set ids) (\<lambda>r. sent_set b now (claim_set w ct r)) t"
proof -
  have "claimable ct r" if "r \<in> set t" "row_id r \<in> set ids" for r
    using due_claimable [OF assms(1)] assms(2) that by blast
  then show ?thesis
    by (auto simp: update_where_def row_guard_defs row_set_defs)
qed

lemma due_pending: "claimable now r \<Longrightarrow> pending r"
  by (auto simp: claimable_def pending_def)

lemma sent_progress:
  assumes "distinct (map row_id t)" and "set ids \<subseteq> due_ids ct t"
    and t': "t' = update_where (\<lambda>r. row_id r \<in> set ids) (\<lambda>r. sent_set b now (claim_set w ct r)) t"
  shows "list_all2 row_progress t t'"
    and "ids \<noteq> [] \<Longrightarrow> length (filter pending t') < length (filter pending t)"
proof -
  have pend: "pending r" if "r \<in> set t" "row_id r \<in> set ids" for r
    using due_claimable [OF assms(1)] assms(2) that due_pending by blast
  then show "list_all2 row_progress t t'"
    unfolding t' update_where_def list_all2_map2
    by (auto intro!: list_all2_same simp: row_progress_def row_identity_def row_set_defs list_all2_same)
  have eq: "filter pending t' = filter (\<lambda>r. pending r \<and> row_id r \<notin> set ids) t"
    unfolding t' update_where_def
    by (induction t) (auto simp: pending_def row_set_defs)
  show "length (filter pending t') < length (filter pending t)" if ne: "ids \<noteq> []"
  proof -
    obtain r where "r \<in> set t" "row_id r \<in> set ids"
      using ne assms(2) unfolding due_ids_def by (cases ids) auto
    then show ?thesis
      using pend unfolding eq
      using length_filter_less [of r "filter pending t" "\<lambda>r. row_id r \<notin> set ids"]
      by (simp add: conj_commute)
  qed
qed

text \<open>An iteration in which the context is alive, the limiter lets the worker through and the clock
  has not gone back behind \<open>now\<close>.\<close>

definition calm :: "'s dispatcher \<Rightarrow> go_time \<Rightarrow> iteration_env \<Rightarrow> bool" where
  "calm D now env \<longleftrightarrow> \<not> ctx_done env \<and> \<not> idle_done env \<and>
     limiter_Wait (limiter D) (limiter_answer env) = None \<and> now \<le> claim_time env"

lemma processBatch_sent:
  assumes "\<And>ms. snd (send ms) = None" and "jobs \<noteq> []"
  shows "\<exists>b m'. processBatch (New c (sqlite_queue S (\<lambda>_. no_faults)) send l) env jobs (t, m) =
     ((update_where (mark_guard (job_ID ` set jobs)) (sent_set b (sent_mark_time env)) t, m'), None)"
proof -
  obtain res where "send (map job_Message jobs) = (res, None)"
    using assms(1) by (metis prod.collapse)
  with assms(2) show ?thesis
    by (auto simp: processBatch_def Let_def mark_no_faults)
qed

lemma worker_iteration_sent:
  assumes "D = New c (sqlite_queue S (\<lambda>_. no_faults)) send l" and "\<And>ms. snd (send ms) = None"
    and "calm D now env" and "jobs \<noteq> []"
    and "ClaimDispatchBatch S no_faults (claim_time env) (QueueClaimLimit c) (QueueLeaseTimeout c)
      (BatchMaxCount c) (BatchMaxBytes c) (store_state w) = (t1, Inr jobs)"
  shows "\<exists>w' b. worker_iteration D env w = (w', True) \<and>
     store_state w' = update_where (mark_guard (job_ID ` set jobs)) (sent_set b (sent_mark_time (batch env))) t1"
proof -
  let ?m = "(if waited env > 0
     then (metrics_state w)\<lparr>DispatchThrottleWaits := Suc (DispatchThrottleWaits (metrics_state w)),
            DispatchThrottleWaitSeconds := waited env # DispatchThrottleWaitSeconds (metrics_state w)\<rparr>
     else metrics_state w)"
  obtain b m' where "processBatch D (batch env) jobs (t1, ?m) =
      ((update_where (mark_guard (job_ID ` set jobs)) (sent_set b (sent_mark_time (batch env))) t1, m'), None)"
    using processBatch_sent [where send = send, OF assms(2,4)] unfolding assms(1) by blast
  then show ?thesis
    using assms(3,4,5) unfolding assms(1)
    by (cases "0 < waited env") (simp_all add: worker_iteration_def calm_def Let_def, blast+)
qed

lemma due_mono: "now \<le> now' \<Longrightarrow> due_ids now t \<subseteq> due_ids now' t"
  by (auto simp: due_ids_def claimable_def)

lemma pass_progress:
  assumes D: "D = New c (sqlite_queue S (\<lambda>_. no_faults)) send l" and ok: "\<And>ms. snd (send ms) = None"
    and lim: "0 < QueueClaimLimit c" and env: "calm D now env"
    and inv: "store_inv (store_state w)" and dec: "decodable S (store_state w)"
  obtains w' where "worker_iteration D env w = (w', True)"
    "list_all2 row_progress (store_state w) (store_state w')" "store_inv (store_state w')"
    "due_ids now (store_state w) \<noteq> {} \<Longrightarrow>
       length (filter pending (store_state w')) < length (filter pending (store_state w))"
proof -
  let ?t = "store_state w" and ?ct = "claim_time env"
  obtain t1 jobs where cl:
      "ClaimDispatchBatch S no_faults ?ct (QueueClaimLimit c) (QueueLeaseTimeout c) (BatchMaxCount c)
         (BatchMaxBytes c) ?t = (t1, Inr jobs)"
      "job_ID ` set jobs \<subseteq> due_ids ?ct ?t" "due_ids ?ct ?t \<noteq> {} \<Longrightarrow> jobs \<noteq> []"
      "t1 = update_where (claim_guard ?ct (map job_ID jobs)) (claim_set (workerID S) ?ct) ?t"
    by (rule claim_no_faults [OF inv dec lim]) blast
  have inv1: "store_inv t1" using cl(1) inv by (metis ClaimDispatchBatch_def claimJobs_inv)
  have ready: "\<not> ctx_done env" "\<not> idle_done env"
      "limiter_Wait (limiter D) (limiter_answer env) = None" "now \<le> ?ct"
    using env by (auto simp: calm_def)
  show thesis
  proof (cases "jobs = []")
    case True
    then have "t1 = ?t" using cl(4) by (simp add: claim_guard_def update_where_none)
    moreover from True have "due_ids now ?t = {}" using cl(3) due_mono [OF ready(4)] by blast
    moreover have "\<exists>w'. worker_iteration D env w = (w', True) \<and> store_state w' = t1"
      using True cl(1) ready by (simp add: worker_iteration_def D Let_def)
    ultimately show thesis using that progress_refl inv by (metis (no_types))
  next
    case False
    let ?ids = "map job_ID jobs"
    obtain w' b where run: "worker_iteration D env w = (w', True)"
        "store_state w' = update_where (mark_guard (set ?ids)) (sent_set b (sent_mark_time (batch env))) t1"
      using worker_iteration_sent [OF D ok env False cl(1)] by auto
    have ids: "set ?ids \<subseteq> due_ids ?ct ?t" "?ids \<noteq> []" using cl(2) False by auto
    have dist: "distinct (map row_id ?t)" using inv by (simp add: store_inv_def)
    note eq = run(2) [unfolded cl(4) claim_then_mark [OF dist ids(1)]]
    have "MarkSent no_faults (sent_mark_time (batch env)) jobs b t1 = (store_state w', None)"
      by (simp add: mark_no_faults run(2))
    then have "store_inv (store_state w')" using inv1 by (simp add: MarkSent_def mark_sent.mark_tx_inv)
    then show thesis
      using that [OF run(1) sent_progress(1) [OF dist ids(1) eq]] sent_progress(2) [OF dist ids(1) eq ids(2)]
      by blast
  qed
qed

section \<open>Draining\<close>

lemma progress_due_empty:
  "list_all2 row_progress t t' \<Longrightarrow> due_ids now t = {} \<Longrightarrow> due_ids now t' = {}"
  by (induction rule: list_all2_induct) (auto simp: due_ids_def row_progress_def row_identity_def claimable_def)

lemma drain:
  assumes D: "D = New c (sqlite_queue S (\<lambda>_. no_faults)) send l" and ok: "\<And>ms. snd (send ms) = None"
    and lim: "0 < QueueClaimLimit c"
  shows "list_all (calm D now) envs \<Longrightarrow> store_inv (store_state w) \<Longrightarrow> decodable S (store_state w) \<Longrightarrow>
     due_ids now (store_state w) = {} \<or> length (filter pending (store_state w)) \<le> length envs \<Longrightarrow>
     \<exists>w'. worker_iterations D envs w = (w', True) \<and>
       list_all2 row_progress (store_state w) (store_state w') \<and> due_ids now (store_state w') = {}"
proof (induction envs arbitrary: w)
  case Nil
  then have "due_ids now (store_state w) = {}"
    using due_pending by (auto simp: due_ids_def filter_empty_conv)
  then show ?case by (auto intro: progress_refl)
next
  case (Cons env envs)
  from Cons.prems(1) have calm: "calm D now env" by simp
  obtain w1 where w1: "worker_iteration D env w = (w1, True)"
      "list_all2 row_progress (store_state w) (store_state w1)" "store_inv (store_state w1)"
      "due_ids now (store_state w) \<noteq> {} \<Longrightarrow>
         length (filter pending (store_state w1)) < length (filter pending (store_state w))"
    using pass_progress [OF D ok lim calm Cons.prems(2,3)] by blast
  have "due_ids now (store_state w1) = {} \<or> length (filter pending (store_state w1)) \<le> length envs"
    using Cons.prems(4) w1(4) progress_due_empty [OF w1(2)] by fastforce
  then obtain w' where "worker_iterations D envs w1 = (w', True)"
      "list_all2 row_progress (store_state w1) (store_state w')" "due_ids now (store_state w') = {}"
    using Cons.IH [OF _ w1(3) progress_decodable [OF w1(2) Cons.prems(3)]] Cons.prems(1) by auto
  then show ?case using w1(1) progress_trans [OF w1(2)] by auto
qed

text \<open>C8: A worker drains the queue. Let MailerSend accept every bulk request, the store not fail and
  every payload decode, let the limiter let the worker through and the context stay alive.  Then
  after at most as many passes of the loop as there are pending jobs, every job that was due at the
  start has been sent, with exactly one more attempt; a job that was not due yet is either untouched
  or sent in the same way, and no job that was already sent, dead-lettered or leased has changed.\<close>

theorem queue_drains:
  assumes "\<And>ms. snd (Send X M ms) = None" and "0 < QueueClaimLimit c"
    and "list_all (calm (New c (sqlite_queue S (\<lambda>_. no_faults)) (Send X M) l) now) envs"
    and "store_inv (store_state w)" and "decodable S (store_state w)"
    and "length (filter pending (store_state w)) \<le> length envs"
  shows "\<exists>w'. worker_iterations (New c (sqlite_queue S (\<lambda>_. no_faults)) (Send X M) l) envs w = (w', True) \<and>
     list_all2 (\<lambda>r r'. row_id r' = row_id r \<and> row_payload_json r' = row_payload_json r \<and>
         (if claimable now r then row_status r' = StatusSent \<and> row_attempt_count r' = row_attempt_count r + 1
          else r' = r \<or> pending r \<and> row_status r' = StatusSent \<and> row_attempt_count r' = row_attempt_count r + 1))
       (store_state w) (store_state w')"
proof -
  obtain w' where run: "worker_iterations (New c (sqlite_queue S (\<lambda>_. no_faults)) (Send X M) l) envs w = (w', True)"
      and prog: "list_all2 row_progress (store_state w) (store_state w')"
      and empty: "due_ids now (store_state w') = {}"
    using drain [OF refl assms(1-5)] assms(6) by blast
  have none: "\<not> claimable now r'" if "r' \<in> set (store_state w')" for r'
    using empty that by (auto simp: due_ids_def)
  have "list_all2 (\<lambda>r r'. row_progress r r' \<and> \<not> claimable now r') (store_state w) (store_state w')"
    using prog none by (auto simp: list_all2_conv_all_nth)
  then show ?thesis using run
    by (auto simp: row_progress_def row_identity_def elim!: list_all2_mono split: if_splits)
qed

section \<open>A concrete run\<close>

lemma sample_sender_accepts: "snd (Send sample_http (sample_sender 202 (''id'', None)) ms) = None"
  by (simp add: Send_def sample_http_def sample_sender_def read_response_def Let_def response_limit_def)

theorem queue_drains_witness:
  "\<exists>w'. worker_iterations (sample_dispatcher 202 (''id'', None)) [sample_iteration, sample_iteration]
       \<lparr>store_state = sample_table, metrics_state = new_metrics, lastHeartbeat = 0\<rparr> = (w', True) \<and>
     map (\<lambda>r. (row_id r, row_status r, row_attempt_count r)) (store_state w') =
       [(''a'', StatusSent, 1), (''b'', StatusSent, 1)]"
proof -
  let ?w = "\<lparr>store_state = sample_table, metrics_state = new_metrics, lastHeartbeat = 0\<rparr>"
  let ?D = "sample_dispatcher 202 (''id'', None)"
  have h1: "list_all (calm ?D 10) [sample_iteration, sample_iteration]"
    by (simp add: calm_def sample_iteration_def New_def)
  have h2: "store_inv (store_state ?w)" by (simp add: sample_inv)
  have h3: "decodable sample_store (store_state ?w)"
    by (simp add: decodable_def sample_store_def list_all_iff)
  have h4: "length (filter pending (store_state ?w)) \<le> length [sample_iteration, sample_iteration]"
    by (simp add: sample_table_def)
  have h5: "0 < QueueClaimLimit sample_config" by (simp add: sample_config_def)
  obtain w' where run: "worker_iterations ?D [sample_iteration, sample_iteration] ?w = (w', True)"
      and rows: "list_all2 (\<lambda>r r'. row_id r' = row_id r \<and> row_payload_json r' = row_payload_json r \<and>
         (if claimable 10 r then row_status r' = StatusSent \<and> row_attempt_count r' = row_attempt_count r + 1
          else r' = r \<or> pending r \<and> row_status r' = StatusSent \<and> row_attempt_count r' = row_attempt_count r + 1))
       sample_table (store_state w')"
    using queue_drains [OF sample_sender_accepts h5 h1 h2 h3 h4] unfolding dispatch_state.select_convs by blast
  have "claimable 10 r" if "r \<in> set sample_table" for r
    using that by (auto simp: sample_table_def claimable_def queued_row_def)
  then have "list_all2 (\<lambda>r r'. (row_id r', row_status r', row_attempt_count r') =
      (row_id r, StatusSent, row_attempt_count r + 1)) sample_table (store_state w')"
    using rows unfolding list_all2_conv_all_nth by simp
  from list_all2_map_eq [OF this]
  have "map (\<lambda>r. (row_id r, row_status r, row_attempt_count r)) (store_state w') =
       [(''a'', StatusSent, 1), (''b'', StatusSent, 1)]"
    by (simp add: sample_table_def queued_row_def)
  with run show ?thesis by (intro exI [of _ w'] conjI)
qed

end
