(* ===== verification/Spec2Isabelle.thy ===== *)
theory Spec2Isabelle
  imports Relay_Cli Dispatch_Liveness Mime_Correct
begin

text \<open>
  A verification development for \<^verbatim>\<open>smtp-mailersend-relay\<close>, an SMTP relay written in Go.  Clients hand it mails
  over SMTP; it turns each mail into one MailerSend message per recipient, stores these as jobs in
  SQLite in one transaction, and a pool of workers sends the jobs in batches to MailerSend's bulk
  API, with retries, a dead-letter queue and recovery after crashes.

  \<^bold>\<open>How the parts interact.\<close>  \<^verbatim>\<open>cmd/relay/main.go\<close> loads the configuration (\<^verbatim>\<open>internal/config\<close>), opens the
  store (\<^verbatim>\<open>internal/queue\<close>), and starts the SMTP server (\<^verbatim>\<open>internal/smtpserver\<close>), the dispatcher
  (\<^verbatim>\<open>internal/dispatch\<close>) and the health endpoints (\<^verbatim>\<open>internal/httpops\<close>).  A session's \<^verbatim>\<open>Data\<close> calls the
  transformer (\<^verbatim>\<open>internal/mimeparse\<close>) and \<^verbatim>\<open>EnqueueTx\<close>; a worker calls \<^verbatim>\<open>ClaimDispatchBatch\<close>, \<^verbatim>\<open>Send\<close> and
  \<^verbatim>\<open>MarkSent\<close>, \<^verbatim>\<open>MarkRetry\<close> or \<^verbatim>\<open>MarkDLQ\<close>; the dead-letter commands (\<^verbatim>\<open>internal/dlq\<close>) list and requeue.

  \<^bold>\<open>Theories.\<close>
  \<^item> \<open>Relay_Prelude\<close>: Go's times, 64-bit wrap-around, number and string functions (\<^verbatim>\<open>TrimSpace\<close>, \<^verbatim>\<open>Fields\<close>,
    \<^verbatim>\<open>strconv\<close>), limited readers, and shared lemmas; \<open>Relay_Types\<close>: messages, job statuses, \<^verbatim>\<open>Job\<close>;
    \<open>Relay_Metrics\<close>: the instruments of \<^verbatim>\<open>internal/metrics\<close>.
  \<^item> \<open>Queue_Table\<close>, \<open>Queue_Store\<close>: the jobs table with the WHERE and SET clauses of every statement, and
    the operations of \<^verbatim>\<open>SQLiteStore\<close>; each database call can fail, an aborted transaction leaves the
    table as it was.  \<open>Queue_Correct\<close>: all-or-nothing enqueuing, exact claims, disjoint and bounded
    batches, order, the row invariant, the life cycle of a job under any sequence of operations, the
    refinement of the abstract queue by the Mark operations.  \<open>Queue_Interface\<close>: the contract the
    clients rely on (locale \<open>queue_store\<close>), interpreted on the SQLite store.
  \<^item> \<open>Bulk_Sender\<close>: \<^verbatim>\<open>sender.go\<close> (locale \<open>bulk_sender\<close>); \<open>Backoff\<close>: the jittered delay in binary64
    arithmetic; \<open>Dispatcher\<close>: \<^verbatim>\<open>dispatcher.go\<close> and \<^verbatim>\<open>limiter.go\<close>; \<open>Dispatch_Batches\<close>: splitting, and that a
    claim is its first batch; \<open>Dispatch_Correct\<close>: what a batch does to the queue (locale
    \<open>dispatching\<close>); \<open>Dispatch_System\<close>: workers, SMTP server, recovery, replay and retry-now as a
    transition system with every transaction a step, exclusive ownership and the attempt budget as
    invariants of every job that recovery has not taken from a worker still holding it, and that the
    coded loop refines it; \<open>Dispatch_Liveness\<close>: a worker drains the queue.
  \<^item> \<open>Relay_Config\<close>: \<^verbatim>\<open>config.go\<close> with \<^verbatim>\<open>ParseBool\<close> and \<^verbatim>\<open>ParseDuration\<close>.
  \<^item> \<open>Smtp_Backend\<close>: admission of connections, as functions and as a concurrent transition system;
    \<open>Smtp_Session\<close>: server settings and sessions; \<open>Smtp_Correct\<close>: accepted means queued, session safety
    (locale \<open>smtp_service\<close>, built from the contracts of store and transformer).
  \<^item> \<open>Base64\<close>: Go's encoder and streaming decoder with their round trip; \<open>Mime_Transform\<close>:
    \<^verbatim>\<open>transformer.go\<close>; \<open>Mime_Correct\<close>: its properties (locale \<open>transformer\<close>).
  \<^item> \<open>Dlq_Service\<close>: export and replay; \<open>Relay_Cli\<close>: health endpoints, logging settings, \<^verbatim>\<open>main.go\<close>.
  \<^item> This theory: properties of the assembled service, from the SMTP dialogue to the delivered mail.

  \<^bold>\<open>State and effects.\<close>  An operation takes the state it changes (the table, the metrics, the session,
  the admission state) and returns it with its result; errors are values of a sum or an option.
  Clock readings, random numbers, generated identifiers, branches of \<^verbatim>\<open>select\<close> and the failures of
  library calls are arguments, and the theorems hold for all of them unless a hypothesis says
  otherwise.  Code outside the repository is a parameter: the fields of \<open>sqlite_store\<close>,
  \<open>http_externals\<close>, \<open>mime_externals\<close>, \<open>dlq_files\<close> and \<open>system\<close> (JSON, URL parsing, the HTTP client,
  \<^verbatim>\<open>net/mail\<close>, \<^verbatim>\<open>mime\<close>, \<^verbatim>\<open>multipart\<close>, quoted-printable, Unicode case tables, \<^verbatim>\<open>time.Parse\<close>, rate limiters, files).
  Where a property relies on them it says so by name: \<open>payloads_decode\<close> and \<open>json_lines\<close> for JSON,
  \<open>library_shrinks\<close> for the parts of a multipart body.  \<open>json_lines\<close> is asked of the exported records
  only, because \<^verbatim>\<open>encoding/json\<close> does not keep an identifier that is not valid UTF-8.  The reader that
  \<^verbatim>\<open>Data\<close> gets from go-smtp is arbitrary, so that its error after \<^verbatim>\<open>MaxMessageBytes\<close> is one case.

  \<^bold>\<open>Fuel.\<close>  \<open>parseContent\<close> recurses on the parts of a body, which a library cuts out; it runs with the fuel
  of one more than the length of the body, and \<open>parsing_terminates\<close> shows that this is never used up
  when parts are shorter than the body they come from.  \<open>parse_terms\<close> has the length of its string as
  fuel and consumes a character per round (\<open>parse_terms_fuel\<close>).  The worker loop, which need not end,
  is run for a list of iteration environments; \<open>queue_drains\<close> gives a length that is enough.

  \<^bold>\<open>Not modelled.\<close>  Log output; the exposition of the metrics; the SMTP, TLS and SASL engines, flag
  parsing and signal delivery, which are libraries and enter through the calls they make and the
  answers they give; SQLite itself, whose statements are modelled by their effect on the table;
  the sizes of the connection pool; context deadlines, which appear as failures of the call they
  interrupt; how long a call takes: the times of a pass are separate arguments, so that a pass may
  last any time between its heartbeat and its marks.
\<close>

section \<open>The assembled service\<close>

text \<open>C13: The service never exceeds the account.  When the service has started, any batch one of its
  workers claims, from any state of the queue and with any database faults, has at most 500 jobs, at
  most the number of messages per request of the MailerSend account and of BATCH_MAX_COUNT, at most
  QUEUE_CLAIM_LIMIT jobs, and is estimated at no more than BATCH_MAX_BYTES unless it is a single
  job.\<close>

theorem service_batches_within_account_limit:
  assumes "runServe sys db = (db', Inr svc)" and "store_inv t"
    and "do_ClaimDispatchBatch (store (svc_dispatcher svc)) now
        (QueueClaimLimit (cfg (svc_dispatcher svc))) (QueueLeaseTimeout (cfg (svc_dispatcher svc)))
        (BatchMaxCount (cfg (svc_dispatcher svc))) (BatchMaxBytes (cfg (svc_dispatcher svc))) t = (t', Inr jobs)"
  shows "length jobs \<le> 500 \<and> int (length jobs) \<le> c_MailersendBulkAPIMaxMessagesPerRequest (svc_config svc) \<and>
    int (length jobs) \<le> c_BatchMaxCount (svc_config svc) \<and>
    int (length jobs) \<le> c_QueueClaimLimit (svc_config svc) \<and>
    (length jobs \<le> 1 \<or> (\<Sum>j\<leftarrow>jobs. job_bytes (job_PayloadJSON j)) \<le> c_BatchMaxBytes (svc_config svc))"
proof -
  let ?c = "svc_config svc"
  obtain M where load: "LoadFromEnv (sys_lower sys) (sys_env sys) = Inr ?c"
    and D: "svc_dispatcher svc = New (dispatch_config_of ?c)
       (sqlite_queue (service_store sys) (sys_faults sys)) (Send (sys_http sys) M)
       (Some (NewRequestLimiter (c_MailersendBulkAPIMaxRequestsPerMin ?c)))"
    using runServe_parts [OF assms(1)] by blast
  note ok = ValidateCommon_ok [OF LoadFromEnv_valid [OF load]]
  have "ClaimDispatchBatch (service_store sys) (sys_faults sys OpClaimDispatchBatch) now (c_QueueClaimLimit ?c)
      (c_QueueLeaseTimeout ?c) (EffectiveBatchMaxCount ?c) (c_BatchMaxBytes ?c) t = (t', Inr jobs)"
    using assms(3) by (simp add: D)
  from claim_bounds [OF assms(2) this] have
      "length jobs \<le> nat (c_QueueClaimLimit ?c)" "int (length jobs) \<le> default_max_count (EffectiveBatchMaxCount ?c)"
      "length jobs \<le> 1 \<or> (\<Sum>j\<leftarrow>jobs. job_bytes (job_PayloadJSON j)) \<le> default_max_bytes (c_BatchMaxBytes ?c)"
    by auto
  moreover have "default_max_count (EffectiveBatchMaxCount ?c) = EffectiveBatchMaxCount ?c"
    using ok(9,15) by (simp add: default_max_count_def EffectiveBatchMaxCount_def)
  moreover have "default_max_bytes (c_BatchMaxBytes ?c) = c_BatchMaxBytes ?c"
    using ok(10) by (simp add: default_max_bytes_def)
  moreover have "EffectiveBatchMaxCount ?c \<le> c_BatchMaxCount ?c"
      "EffectiveBatchMaxCount ?c \<le> c_MailersendBulkAPIMaxMessagesPerRequest ?c"
    by (simp_all add: EffectiveBatchMaxCount_def)
  ultimately show ?thesis using ok(8,9,15) by auto
qed

text \<open>C34: Starting the goroutines.  Once the service has started, its workers and the queue depth loop
  always create their tickers, and the recovery loop does so exactly when REQUEUE_STALE_INTERVAL is
  positive, which no validation checks: with an interval of zero or less it panics.\<close>

theorem service_goroutines_start:
  assumes "runServe sys db = (db', Inr svc)"
  shows "workerLoop (svc_dispatcher svc) envs w \<noteq> None \<and> queueDepthLoop (svc_dispatcher svc) ts w \<noteq> None \<and>
    (requeueStaleLoop (svc_dispatcher svc) ts w \<noteq> None \<longleftrightarrow> 0 < c_RequeueStaleInterval (svc_config svc))"
proof -
  have "0 < c_BatchFlushInterval (svc_config svc)"
    using runServe_parts [OF assms] ValidateCommon_ok(11) [OF LoadFromEnv_valid] by blast
  moreover have "cfg (svc_dispatcher svc) = dispatch_config_of (svc_config svc)"
    using runServe_parts [OF assms] by (metis New_simps(3))
  ultimately show ?thesis
    by (simp add: workerLoop_def queueDepthLoop_def requeueStaleLoop_def NewTicker_def)
qed

text \<open>What the service relies on of \<^verbatim>\<open>encoding/json\<close>: an encoded message can be decoded again.\<close>

definition payloads_decode :: "sqlite_store \<Rightarrow> bool" where
  "payloads_decode S \<longleftrightarrow>
     (\<forall>m p. marshal_message S m = Inr p \<longrightarrow> (\<exists>m'. unmarshal_message S p = Inr m'))"

text \<open>New rows are due at once, and their payloads decode when whatever JSON encoding produces does.\<close>

lemma enqueued_rows:
  assumes "list_all2 (enqueued_as S now from_addr) msgs new"
    and "payloads_decode S"
  shows "decodable S new" and "r \<in> set new \<Longrightarrow> claimable now r \<and> row_attempt_count r = 0"
proof -
  have row: "(\<exists>m'. unmarshal_message S (row_payload_json r) = Inr m') \<and> claimable now r \<and> row_attempt_count r = 0"
    if "enqueued_as S now from_addr m r" for m r
  proof -
    obtain payload i a b msg where "marshal_message S msg = Inr payload" "r = queued_row i payload a b now"
      using \<open>enqueued_as S now from_addr m r\<close> unfolding enqueued_as_def by blast
    with assms(2) show ?thesis by (auto simp: payloads_decode_def queued_row_def claimable_def)
  qed
  have all: "\<exists>m. enqueued_as S now from_addr m r" if "r \<in> set new" for r
    using list_all2_memD2 [OF assms(1) that] by blast
  show "decodable S new"
    unfolding decodable_def list_all_iff using row all by (force split: sum.split)
  show "claimable now r \<and> row_attempt_count r = 0" if "r \<in> set new"
    using row all [OF that] by blast
qed

text \<open>A job that was due at the start has been sent when nothing is due any more, as the same job.\<close>

lemma progress_ids: "list_all2 row_progress t t' \<Longrightarrow> map row_id t' = map row_id t"
  by (rule list_all2_map_eq) (auto simp: row_progress_def row_identity_def elim!: list_all2_mono)

lemma progress_delivers:
  assumes "list_all2 row_progress t t'" and "due_ids now t' = {}" and "distinct (map row_id t)"
    and "r \<in> set t" and "claimable now r"
  shows "\<exists>r'. find_row t' (row_id r) = Some r' \<and> row_identity r' = row_identity r \<and>
    row_status r' = StatusSent \<and> row_attempt_count r' = row_attempt_count r + 1"
proof -
  have dist: "distinct (map row_id t')" using assms(3) progress_ids [OF assms(1)] by simp
  obtain r' where r': "r' \<in> set t'" "row_progress r r'"
    using assms(1,4) by (metis in_set_conv_nth list_all2_conv_all_nth)
  moreover have "r' \<noteq> r" using r'(1) assms(2,5) by (auto simp: due_ids_def)
  ultimately have "row_identity r' = row_identity r" "row_status r' = StatusSent"
      "row_attempt_count r' = row_attempt_count r + 1"
    by (auto simp: row_progress_def)
  with find_row_mem [OF dist r'(1)] row_identity_id [of r' r] show ?thesis by auto
qed

text \<open>The rows a mail leaves in the queue, by recipient.\<close>

definition queued_for :: "mime_externals \<Rightarrow> sqlite_store \<Rightarrow> string \<Rightarrow> string \<Rightarrow> job_row \<Rightarrow> bool" where
  "queued_for X S from_addr rcpt r \<longleftrightarrow>
     (\<exists>addr msg. parse_address X rcpt = Inr addr \<and> msg_recipients msg = [addr] \<and>
        marshal_message S msg = Inr (row_payload_json r) \<and>
        row_recipient_email r = ToLower (unicode_lower S) (TrimSpace (party_email addr)) \<and>
        row_envelope_from r = ToLower (unicode_lower S) (TrimSpace from_addr))"

lemma transformed_queued:
  assumes "Transform X inc from_addr rcpts raw = Inr msgs"
    and "list_all2 (enqueued_as S now from_addr) msgs new"
  shows "list_all2 (queued_for X S from_addr) rcpts new"
proof -
  have "list_all2 (\<lambda>rcpt m. \<exists>addr msg. parse_address X rcpt = Inr addr \<and> m = Some msg \<and> msg_recipients msg = [addr])
      rcpts msgs"
    using assms(1) by (rule Transform_Inr) (auto simp: recipient_message_def elim!: list_all2_mono)
  then show ?thesis
  proof (rule list_all2_trans [rotated 1])
    show "list_all2 (enqueued_as S now from_addr) msgs new" by (rule assms(2))
    fix rcpt m r
    assume "\<exists>addr msg. parse_address X rcpt = Inr addr \<and> m = Some msg \<and> msg_recipients msg = [addr]"
      and "enqueued_as S now from_addr m r"
    then show "queued_for X S from_addr rcpt r"
      by (auto simp: enqueued_as_def queued_for_def) (metis job_row.select_convs(3,4,5) queued_row_def)
  qed
qed

lemma mail_delivered:
  assumes "list_all2 (queued_for X S from_addr) rcpts new" and "store_inv (t @ new)"
    and "\<And>r. r \<in> set new \<Longrightarrow> claimable now r \<and> row_attempt_count r = 0 \<and> job_view t (row_id r) = None"
    and "list_all2 row_progress (t @ new) u" and "due_ids now u = {}"
  shows "list_all2 (\<lambda>rcpt i. job_view t i = None \<and> (\<exists>row. find_row u i = Some row \<and>
    row_status row = StatusSent \<and> row_attempt_count row = 1 \<and> queued_for X S from_addr rcpt row)) rcpts (map row_id new)"
proof -
  have "\<exists>row. find_row u (row_id r) = Some row \<and> row_identity row = row_identity r \<and>
      row_status row = StatusSent \<and> row_attempt_count row = 1" if "r \<in> set new" for r
    using progress_delivers [OF assms(4,5), of r] assms(2) assms(3) [OF that] that by (simp add: store_inv_def)
  moreover have "queued_for X S from_addr rcpt row" 
    if "queued_for X S from_addr rcpt r" "row_identity row = row_identity r" for rcpt r row
    using that by (simp add: queued_for_def row_identity_def)
  ultimately have "job_view t (row_id r) = None \<and> (\<exists>row. find_row u (row_id r) = Some row \<and>
      row_status row = StatusSent \<and> row_attempt_count row = 1 \<and> queued_for X S from_addr rcpt row)"
    if "r \<in> set new" "queued_for X S from_addr rcpt r" for rcpt r
    using that assms(3) by blast
  then show ?thesis unfolding list_all2_map2 by (intro list.rel_mono_strong [OF assms(1)])
qed

text \<open>C1: End to end: what the service accepts it delivers.  Let the started service answer DATA with
  success, on a store without faults whose payloads all decode, with a JSON library that can decode
  what it encoded.  Then, when MailerSend accepts the bulk requests and a worker gets as many
  undisturbed passes of its loop as there are pending jobs, every recipient of the mail, in order,
  has a job of its own, under an id that was not in use before; that job records the recipient's
  address and the envelope sender, its payload is a message addressed to that recipient alone, and it
  has been sent at its first attempt.  The mail has led to no other job.\<close>

theorem service_delivers_accepted_mail:
  assumes "runServe sys db = (db', Inr svc)" and "sys_faults sys = (\<lambda>_. no_faults)"
    and "store_inv t" and "decodable (sys_store sys) t"
    and "payloads_decode (sys_store sys)"
    and "Data (svc_backend svc) ulid now r s (m, t) = ((m', t'), None)"
    and "\<And>ms. snd (sender (svc_dispatcher svc) ms) = None"
    and "list_all (calm (svc_dispatcher svc) now) envs"
    and "length (filter pending t') \<le> length envs"
  shows "\<exists>w' ids. worker_iterations (svc_dispatcher svc) envs
       \<lparr>store_state = t', metrics_state = m', lastHeartbeat = hb\<rparr> = (w', True) \<and>
     distinct ids \<and> map row_id (store_state w') = map row_id t @ ids \<and>
     list_all2 (\<lambda>rcpt i. job_view t i = None \<and>
       (\<exists>row addr msg. find_row (store_state w') i = Some row \<and>
          row_status row = StatusSent \<and> row_attempt_count row = 1 \<and>
          parse_address (sys_mime sys) rcpt = Inr addr \<and> msg_recipients msg = [addr] \<and>
          marshal_message (sys_store sys) msg = Inr (row_payload_json row) \<and>
          row_recipient_email row = ToLower (unicode_lower (sys_store sys)) (TrimSpace (party_email addr)) \<and>
          row_envelope_from row = ToLower (unicode_lower (sys_store sys)) (TrimSpace (envelopeFrom s))))
       (recipients s) ids"
proof -
  let ?c = "svc_config svc" and ?S = "service_store sys" and ?X = "sys_mime sys"
  let ?w = "\<lparr>store_state = t', metrics_state = m', lastHeartbeat = hb\<rparr>"
  obtain M where load: "LoadFromEnv (sys_lower sys) (sys_env sys) = Inr ?c"
    and D: "svc_dispatcher svc = New (dispatch_config_of ?c) (sqlite_queue ?S (\<lambda>_. no_faults))
       (Send (sys_http sys) M) (Some (NewRequestLimiter (c_MailersendBulkAPIMaxRequestsPerMin ?c)))"
    and B: "svc_backend svc = NewBackend ?c (sqlite_queue ?S (\<lambda>_. no_faults))
       (Transform ?X (c_MailersendEnableCustomHeaders ?c)) (parse_address ?X)
       (sys_lower sys) (sys_upper sys)"
    using runServe_parts [OF assms(1)] unfolding assms(2) by blast
  have lim: "0 < QueueClaimLimit (dispatch_config_of ?c)"
    using ValidateCommon_ok(8) [OF LoadFromEnv_valid [OF load]] by simp
  have ok: "snd (Send (sys_http sys) M ms) = None" for ms using assms(7) unfolding D by simp
  obtain raw msgs ids where msgs: "Transform ?X (c_MailersendEnableCustomHeaders ?c)
        (envelopeFrom s) (recipients s) raw = Inr msgs"
      and enq: "EnqueueTx ?S no_faults ulid now (envelopeFrom s) msgs t = (t', Inr ids)"
    by (rule Data_enqueued [OF assms(6) [unfolded B]]) simp
  obtain new where new: "ids = map row_id new" "t' = t @ new" "list_all2 (enqueued_as ?S now (envelopeFrom s)) msgs new"
    using EnqueueTx_cases [OF enq] by auto
  have inv: "store_inv t'" using EnqueueTx_inv [OF assms(3) enq] .
  have "payloads_decode ?S" using assms(5) by (simp add: payloads_decode_def service_store_def)
  note rows = enqueued_rows [OF new(3) this]
  have dec: "decodable ?S t'"
    using rows(1) assms(4) by (simp add: new(2) decodable_def service_store_def)
  obtain w' where w': "worker_iterations (svc_dispatcher svc) envs ?w = (w', True)"
      "list_all2 row_progress t' (store_state w')" "due_ids now (store_state w') = {}"
    using drain [OF D ok lim assms(8), of ?w] inv dec assms(9) by auto
  have fresh: "claimable now r \<and> row_attempt_count r = 0 \<and> job_view t (row_id r) = None" if "r \<in> set new" for r
    using rows(2) [OF that] EnqueueTx_fresh(2) [OF assms(3) enq] that by (simp add: new(1))
  note rows' = transformed_queued [OF msgs new(3)] inv [unfolded new(2)] fresh w'(2) [unfolded new(2)] w'(3)
  have sent: "list_all2 (\<lambda>rcpt i. job_view t i = None \<and> (\<exists>row. find_row (store_state w') i = Some row \<and>
      row_status row = StatusSent \<and> row_attempt_count row = 1 \<and> queued_for ?X (sys_store sys) (envelopeFrom s) rcpt row))
      (recipients s) ids"
    using mail_delivered [OF rows'] by (simp add: new(1) queued_for_def service_store_def)
  have ids: "map row_id (store_state w') = map row_id t @ ids"
    using progress_ids [OF w'(2)] by (simp add: new(1,2))
  show ?thesis
    by (intro exI [of _ w'] exI [of _ ids] conjI w'(1) EnqueueTx_fresh(1) [OF assms(3) enq] ids list_all2_mono [OF sent])
      (auto simp: queued_for_def)
qed

section \<open>Maintenance and health\<close>


lemma worker_iteration_heartbeat:
  assumes "worker_iteration D env w = (w', cont)" and "\<not> ctx_done env"
  shows "lastHeartbeat w' = unix_seconds (heartbeat_time env)"
  using assms by (auto simp: worker_iteration_def Let_def split: option.splits prod.splits sum.splits if_splits)

text \<open>C37: Readiness follows the workers' heartbeats.  A worker stores its heartbeat at the start of a
  pass, before it waits for the limiter, claims and sends.  From that moment \<^verbatim>\<open>/readyz\<close> answers 200 for
  at least four seconds, as long as the database can be pinged; and once the larger of five seconds
  and three flush intervals has gone by since that moment without another heartbeat, it answers 503,
  be the worker dead or still waiting or sending.\<close>

theorem readiness_tracks_workers:
  assumes "worker_iteration D env w = (w', cont)" and "\<not> ctx_done env" and "second \<le> heartbeat_time env"
  shows "(now \<le> heartbeat_time env + 4 * second \<longrightarrow>
      ops_handler page unrouted None (Ready (cfg D) now (lastHeartbeat w')) ''/readyz'' =
        HttpAnswer 200 ''application/json'' (''{\"status\":\"ready\"}'' @ [CHR 0x0A])) \<and>
    (heartbeat_time env + max (5 * second) (wrap64 (3 * BatchFlushInterval (cfg D))) < now \<longrightarrow>
      (\<exists>body. ops_handler page unrouted ping (Ready (cfg D) now (lastHeartbeat w')) ''/readyz'' =
        HttpAnswer 503 ''text/plain; charset=utf-8'' body))"
proof -
  let ?h = "heartbeat_time env" and ?l = "lastHeartbeat w'"
  have l: "?l = ?h div second" using worker_iteration_heartbeat [OF assms(1,2)] by (simp add: unix_seconds_def)
  then have "?l * second \<le> ?h" "?h < ?l * second + second" "?l \<noteq> 0" using assms(3) by auto
  then show ?thesis by (auto simp: Ready_def Let_def ops_handler_def readyz_def)
qed

section \<open>A concrete service\<close>

text \<open>A MailerSend that accepts everything, and a system around one relay with a given recovery interval.\<close>

definition sample_api :: http_externals where
  "sample_api = sample_http\<lparr>default_transport := (\<lambda>_. Inr \<lparr>Response_Status = ''202'',
     Response_StatusCode = 202, Response_Body = (''id'', None)\<rparr>)\<rparr>"

definition sample_vars :: "string \<Rightarrow> (string \<times> string) list" where
  "sample_vars stale =
     [(''SMTP_AUTH_USERNAME'', ''user''), (''SMTP_AUTH_PASSWORD'', ''secret''),
      (''SMTP_ALLOWED_SENDER_DOMAINS'', ''x.org''), (''SMTP_REQUIRE_STARTTLS'', ''false''),
      (''MAILERSEND_API_KEY'', ''key''), (''MAILERSEND_ACCOUNT_PLAN'', ''professional''),
      (''MAILERSEND_ENABLE_CUSTOM_HEADERS'', ''true''), (''REQUEUE_STALE_INTERVAL'', stale)]"

definition sample_system :: "string \<Rightarrow> system" where
  "sample_system stale =
     \<lparr>sys_flag_error = None,
      sys_env = (\<lambda>k. case map_of (sample_vars stale) k of None \<Rightarrow> [] | Some v \<Rightarrow> v),
      sys_lower = (\<lambda>s. s), sys_upper = (\<lambda>s. s), sys_level = Some, sys_build_logger = (\<lambda>_. None), sys_hostname = Inr ''relay'',
      sys_pid = 1, sys_mkdir = None, sys_dir = (\<lambda>p. ''.''), sys_open_db = (\<lambda>_. None),
      sys_store = sample_store, sys_faults = (\<lambda>_. no_faults), sys_migrate_faults = no_faults,
      sys_now = 20, sys_http = sample_api, sys_load_pair = (\<lambda>_ _. Inl ''none''),
      sys_mime = sample_mime, sys_files = sample_files,
      sys_read_file = (\<lambda>_. Inr (''{b}'' @ [CHR 0x0A]))\<rparr>"

definition sample_service :: "string \<Rightarrow> service" where
  "sample_service stale = projr (snd (runServe (sample_system stale) None))"

lemma sample_serve:
  "runServe (sample_system ''30s'') None = (Some [], Inr (sample_service ''30s''))"
  "runServe (sample_system ''0s'') None = (Some [], Inr (sample_service ''0s''))"
proof -
  have started: "r = (Some [], Inr (projr (snd r)))" if "case r of (Some [], Inr _) \<Rightarrow> True | _ \<Rightarrow> False"
    for r :: "database \<times> (cli_error + service)"
    using that by (auto split: prod.splits option.splits list.splits sum.splits)
  have "case runServe (sample_system ''30s'') None of (Some [], Inr _) \<Rightarrow> True | _ \<Rightarrow> False" by code_simp
  then show "runServe (sample_system ''30s'') None = (Some [], Inr (sample_service ''30s''))"
    unfolding sample_service_def by (rule started)
  have "case runServe (sample_system ''0s'') None of (Some [], Inr _) \<Rightarrow> True | _ \<Rightarrow> False" by code_simp
  then show "runServe (sample_system ''0s'') None = (Some [], Inr (sample_service ''0s''))"
    unfolding sample_service_def by (rule started)
qed

text \<open>The parts of that service, for evaluation.\<close>

definition sample_loaded :: config where
  "sample_loaded = config_from_env (\<lambda>s. s) (sys_env (sample_system ''30s'')) (plan_limits ''professional'' True True)"

lemma sample_service_parts:
  "svc_config (sample_service ''30s'') = sample_loaded"
  "store (svc_dispatcher (sample_service ''30s'')) = sqlite_queue sample_store (\<lambda>_. no_faults)"
  "cfg (svc_dispatcher (sample_service ''30s'')) = dispatch_config_of sample_loaded"
  "limiter (svc_dispatcher (sample_service ''30s'')) = RateLimiter (6 * second) 1"
  "svc_backend (sample_service ''30s'') = NewBackend sample_loaded (sqlite_queue sample_store (\<lambda>_. no_faults))
     (Transform sample_mime True) (parse_address sample_mime) (\<lambda>s. s) (\<lambda>s. s)"
proof -
  have load: "LoadFromEnv (\<lambda>s. s) (sys_env (sample_system ''30s'')) = Inr sample_loaded"
    unfolding sample_loaded_def by code_simp
  have "worker_id (sample_system ''30s'') = ''relay-1''" by code_simp
  then have store: "service_store (sample_system ''30s'') = sample_store"
    by (simp add: service_store_def sample_system_def sample_store_def)
  have sys: "sys_faults (sample_system ''30s'') = (\<lambda>_. no_faults)" "sys_mime (sample_system ''30s'') = sample_mime"
      "sys_lower (sample_system ''30s'') = (\<lambda>s. s)" "sys_upper (sample_system ''30s'') = (\<lambda>s. s)"
    by (simp_all add: sample_system_def)
  show c: "svc_config (sample_service ''30s'') = sample_loaded"
    by (rule runServe_parts [OF sample_serve(1)]) (simp add: load sys)
  have rate: "NewRequestLimiter (c_MailersendBulkAPIMaxRequestsPerMin sample_loaded) = RateLimiter (6 * second) 1"
    "c_MailersendEnableCustomHeaders sample_loaded = True"
    unfolding sample_loaded_def by code_simp+
  note parts = c store sys rate
  show "store (svc_dispatcher (sample_service ''30s'')) = sqlite_queue sample_store (\<lambda>_. no_faults)"
    by (rule runServe_parts [OF sample_serve(1)]) (simp add: parts)
  show "cfg (svc_dispatcher (sample_service ''30s'')) = dispatch_config_of sample_loaded"
    by (rule runServe_parts [OF sample_serve(1)]) (simp add: parts)
  show "limiter (svc_dispatcher (sample_service ''30s'')) = RateLimiter (6 * second) 1"
    by (rule runServe_parts [OF sample_serve(1)]) (simp add: parts New_def)
  show "svc_backend (sample_service ''30s'') = NewBackend sample_loaded (sqlite_queue sample_store (\<lambda>_. no_faults))
     (Transform sample_mime True) (parse_address sample_mime) (\<lambda>s. s) (\<lambda>s. s)"
    by (rule runServe_parts [OF sample_serve(1)]) (simp add: parts)
qed

theorem service_goroutines_start_witness:
  "runServe (sample_system ''0s'') None = (Some [], Inr (sample_service ''0s'')) \<and>
   workerLoop (svc_dispatcher (sample_service ''0s'')) [] (svc_state (sample_service ''0s'')) \<noteq> None \<and>
   requeueStaleLoop (svc_dispatcher (sample_service ''0s'')) [] (svc_state (sample_service ''0s'')) = None"
proof -
  have "getenvDuration (sys_env (sample_system ''0s'')) ''REQUEUE_STALE_INTERVAL'' (30 * second) = 0" by code_simp
  moreover obtain limits where
      "svc_config (sample_service ''0s'') = config_from_env (sys_lower (sample_system ''0s'')) (sys_env (sample_system ''0s'')) limits"
    by (rule runServe_parts [OF sample_serve(2)]) (use LoadFromEnv_config in blast)
  ultimately have "\<not> 0 < c_RequeueStaleInterval (svc_config (sample_service ''0s''))"
    by (simp add: config_from_env_def)
  then show ?thesis
    using sample_serve(2) service_goroutines_start [OF sample_serve(2), of "[]" "svc_state (sample_service ''0s'')" "[]"]
    by blast
qed

theorem readiness_tracks_workers_witness:
  "\<exists>w' cont. worker_iteration (sample_dispatcher 202 (''id'', None)) (sample_iteration\<lparr>heartbeat_time := 7 * second\<rparr>)
       \<lparr>store_state = [], metrics_state = new_metrics, lastHeartbeat = 0\<rparr> = (w', cont) \<and>
     ops_handler healthz (\<lambda>_. healthz) None (Ready (cfg (sample_dispatcher 202 (''id'', None))) (10 * second) (lastHeartbeat w'))
       ''/readyz'' = HttpAnswer 200 ''application/json'' (''{\"status\":\"ready\"}'' @ [CHR 0x0A])"
proof -
  let ?D = "sample_dispatcher 202 (''id'', None)" and ?e = "sample_iteration\<lparr>heartbeat_time := 7 * second\<rparr>"
  let ?w = "\<lparr>store_state = [], metrics_state = new_metrics, lastHeartbeat = 0\<rparr>"
  obtain w' cont where run: "worker_iteration ?D ?e ?w = (w', cont)" by (metis surj_pair)
  have "ops_handler healthz (\<lambda>_. healthz) None (Ready (cfg ?D) (10 * second) (lastHeartbeat w')) ''/readyz'' =
      HttpAnswer 200 ''application/json'' (''{\"status\":\"ready\"}'' @ [CHR 0x0A])"
    by (rule readiness_tracks_workers [OF run, THEN conjunct1, rule_format])
      (simp_all add: sample_iteration_def)
  with run show ?thesis by blast
qed

abbreviation sample_claim_run :: "table \<times> (store_error + job list)" where
  "sample_claim_run \<equiv> do_ClaimDispatchBatch (store (svc_dispatcher (sample_service ''30s''))) 10
     (QueueClaimLimit (cfg (svc_dispatcher (sample_service ''30s''))))
     (QueueLeaseTimeout (cfg (svc_dispatcher (sample_service ''30s''))))
     (BatchMaxCount (cfg (svc_dispatcher (sample_service ''30s''))))
     (BatchMaxBytes (cfg (svc_dispatcher (sample_service ''30s'')))) sample_table"

theorem service_batches_within_account_limit_witness:
  "\<exists>t' jobs. sample_claim_run = (t', Inr jobs) \<and> length jobs = 2 \<and> length jobs \<le> 500"
proof -
  have "case snd sample_claim_run of Inr jobs \<Rightarrow> length jobs = 2 | Inl _ \<Rightarrow> False"
    unfolding sample_service_parts by code_simp
  then obtain t' jobs where run: "sample_claim_run = (t', Inr jobs)" and "length jobs = 2"
    by (cases sample_claim_run) (auto split: sum.splits)
  with service_batches_within_account_limit [OF sample_serve(1) sample_inv run] show ?thesis by blast
qed

lemma sample_service_sends: "snd (sender (svc_dispatcher (sample_service ''30s'')) ms) = None"
proof -
  obtain M where M: "NewMailerSendSender (sys_http (sample_system ''30s''))
        (c_MailersendAPIKey (svc_config (sample_service ''30s'')))
        (c_MailersendBaseURL (svc_config (sample_service ''30s'')))
        (c_MailersendTimeout (svc_config (sample_service ''30s''))) = Inr M"
      "sender (svc_dispatcher (sample_service ''30s'')) = Send (sys_http (sample_system ''30s'')) M"
    by (rule runServe_parts [OF sample_serve(1)]) simp
  have X: "sys_http (sample_system ''30s'') = sample_api" by (simp add: sample_system_def)
  obtain u where "httpClient M = RoundTrip u (default_transport sample_api)"
    using M(1) unfolding X by (auto simp: NewMailerSendSender_def sample_api_def sample_http_def)
  then show ?thesis
    unfolding M(2) X
    by (simp add: Send_def sample_api_def sample_http_def RoundTrip_def read_response_def Let_def response_limit_def)
qed

theorem service_delivers_accepted_mail_witness:
  "\<exists>m' t' w' ids. Data (svc_backend (sample_service ''30s'')) sample_ulid 7 (''0123456789'', None) sample_session
       (new_metrics, []) = ((m', t'), None) \<and>
     worker_iterations (svc_dispatcher (sample_service ''30s'')) [sample_iteration, sample_iteration]
       \<lparr>store_state = t', metrics_state = m', lastHeartbeat = 0\<rparr> = (w', True) \<and>
     length ids = 2 \<and> map row_id (store_state w') = ids \<and>
     (\<exists>row. find_row (store_state w') (ids ! 1) = Some row \<and> row_status row = StatusSent \<and>
        row_attempt_count row = 1 \<and> row_recipient_email row = ''c@y.org'')"
proof -
  let ?svc = "sample_service ''30s''"
  let ?run = "Data (svc_backend ?svc) sample_ulid 7 (''0123456789'', None) sample_session (new_metrics, [])"
  let ?m = "new_metrics\<lparr>SMTPAcceptedRecipients := SMTPAcceptedRecipients new_metrics + 2\<rparr>"
  have "c_SMTPMaxMessageBytes sample_loaded = 8 * 1024 * 1024" unfolding sample_loaded_def by code_simp
  then have run: "?run = ((?m, sample_queued), None)" by (intro sample_data) (simp_all add: sample_service_parts)
  have faults: "sys_faults (sample_system ''30s'') = (\<lambda>_. no_faults)"
    and st: "sys_store (sample_system ''30s'') = sample_store"
    and mime: "sys_mime (sample_system ''30s'') = sample_mime"
    by (simp_all add: sample_system_def)
  have inv: "store_inv []" and dec: "decodable (sys_store (sample_system ''30s'')) []"
    by (simp_all add: store_inv_def decodable_def)
  have json: "payloads_decode (sys_store (sample_system ''30s''))"
    by (simp add: st payloads_decode_def sample_store_def)
  have calm: "list_all (calm (svc_dispatcher ?svc) 7) [sample_iteration, sample_iteration]"
    by (simp add: calm_def sample_service_parts sample_iteration_def)
  have "length (filter pending sample_queued) \<le> length [sample_iteration, sample_iteration]"
    by (simp add: sample_queued_def)
  from service_delivers_accepted_mail [OF sample_serve(1) faults inv dec json run sample_service_sends calm this, of 0]
  obtain w' ids where w': "worker_iterations (svc_dispatcher ?svc) [sample_iteration, sample_iteration]
        \<lparr>store_state = sample_queued, metrics_state = ?m, lastHeartbeat = 0\<rparr> = (w', True)"
      "map row_id (store_state w') = map row_id ([]::table) @ ids"
    and full: "list_all2 (\<lambda>rcpt i. job_view [] i = None \<and>
       (\<exists>row addr msg. find_row (store_state w') i = Some row \<and>
          row_status row = StatusSent \<and> row_attempt_count row = 1 \<and>
          parse_address sample_mime rcpt = Inr addr \<and> msg_recipients msg = [addr] \<and>
          marshal_message sample_store msg = Inr (row_payload_json row) \<and>
          row_recipient_email row = ToLower (unicode_lower sample_store) (TrimSpace (party_email addr)) \<and>
          row_envelope_from row = ToLower (unicode_lower sample_store) (TrimSpace (envelopeFrom sample_session))))
       (recipients sample_session) ids"
    unfolding st mime by blast
  have "list_all2 (\<lambda>rcpt i. \<exists>row addr. find_row (store_state w') i = Some row \<and> row_status row = StatusSent \<and>
        row_attempt_count row = 1 \<and> parse_address sample_mime rcpt = Inr addr \<and>
        row_recipient_email row = ToLower (unicode_lower sample_store) (TrimSpace (party_email addr)))
      (recipients sample_session) ids"
    by (rule list_all2_mono [OF full]) blast
  note each = this [unfolded sample_session_def session.select_convs]
  have c: "case parse_address sample_mime ''c@y.org'' of Inl _ \<Rightarrow> False
      | Inr addr \<Rightarrow> ToLower (unicode_lower sample_store) (TrimSpace (party_email addr)) = ''c@y.org''"
    by code_simp
  have ids: "length ids = 2" using list_all2_lengthD [OF each] by simp
  have "\<exists>row. find_row (store_state w') (ids ! 1) = Some row \<and> row_status row = StatusSent \<and>
      row_attempt_count row = 1 \<and> row_recipient_email row = ''c@y.org''"
    using list_all2_nthD [OF each, of 1] c by auto
  moreover have "map row_id (store_state w') = ids" using w'(2) by simp
  ultimately show ?thesis using run w'(1) ids by blast
qed


end
